(* ===== verification/Flannel_Prelude.thy ===== *)
theory Flannel_Prelude
  imports Main "HOL-Library.Word"
begin

text \<open>
  Shared vocabulary of the development: the outcome of a Go call (a value, an error
  value or a run-time panic), error values, and the generic facts on outcomes and lists
  that the component theories use.
\<close>

section \<open>Outcomes of Go code\<close>

text \<open>
  A Go function that returns \<open>(T, error)\<close> either returns a value, returns an error
  value, or panics. Panics are kept apart from errors: callers inspect errors, nobody in
  this program recovers from a panic.
\<close>

datatype gopanic =
    NilDeref
  | IndexRange
  | ExplicitPanic string

text \<open>
  Error values: \<open>errors.New\<close> or \<open>fmt.Errorf\<close> with its text, \<open>fmt.Errorf\<close> around
  another error, and the error variables exported by packages that are not part of this
  repository, which the code compares by identity.
\<close>

datatype goerror =
    ErrorString string
  | Wrapped string goerror
  | Sentinel string

datatype 'a go =
    Ok 'a
  | Err goerror
  | Panic gopanic

named_theorems go_simps

text \<open>\<open>go_eval\<close> collects the equations that evaluate closed terms of the model by \<open>simp\<close>.\<close>

named_theorems go_eval

fun go_bind :: "'a go \<Rightarrow> ('a \<Rightarrow> 'b go) \<Rightarrow> 'b go" where
  "go_bind (Ok x) f = f x"
| "go_bind (Err e) f = Err e"
| "go_bind (Panic p) f = Panic p"

fun go_of_option :: "gopanic \<Rightarrow> 'a option \<Rightarrow> 'a go" where
  "go_of_option p None = Panic p"
| "go_of_option p (Some x) = Ok x"

fun is_Ok :: "'a go \<Rightarrow> bool" where
  "is_Ok (Ok x) = True"
| "is_Ok (Err e) = False"
| "is_Ok (Panic p) = False"

fun panics :: "'a go \<Rightarrow> bool" where
  "panics (Panic p) = True"
| "panics (Ok x) = False"
| "panics (Err e) = False"

fun fails :: "'a go \<Rightarrow> bool" where
  "fails (Err e) = True"
| "fails (Ok x) = False"
| "fails (Panic p) = False"

lemma go_bind_Ok_iff [go_simps]:
  "go_bind m f = Ok y \<longleftrightarrow> (\<exists>x. m = Ok x \<and> f x = Ok y)"
  by (cases m) auto

lemma go_bind_Panic_iff [go_simps]:
  "go_bind m f = Panic p \<longleftrightarrow> m = Panic p \<or> (\<exists>x. m = Ok x \<and> f x = Panic p)"
  by (cases m) auto

lemma go_of_option_Ok [simp]: "go_of_option p m = Ok x \<longleftrightarrow> m = Some x"
  by (cases m) auto

lemma is_Ok_iff: "is_Ok m \<longleftrightarrow> (\<exists>x. m = Ok x)"
  by (cases m) auto

lemma panics_iff: "panics m \<longleftrightarrow> (\<exists>p. m = Panic p)"
  by (cases m) auto

lemma panics_go_bind [simp]:
  "panics (go_bind m f) \<longleftrightarrow> panics m \<or> (\<exists>x. m = Ok x \<and> panics (f x))"
  by (cases m) auto

lemma fails_go_bind [simp]:
  "fails (go_bind m f) \<longleftrightarrow> fails m \<or> (\<exists>x. m = Ok x \<and> fails (f x))"
  by (cases m) auto

lemma fails_iff: "fails m \<longleftrightarrow> (\<exists>e. m = Err e)"
  by (cases m) auto

lemma fails_go_of_option [simp]: "\<not> fails (go_of_option p m)"
  by (cases m) auto

section \<open>Lists\<close>

text \<open>
  \<open>remove_first p xs\<close> is the Go idiom \<open>append(xs[:i], xs[i+1:]...)\<close> at the first index
  whose element satisfies \<open>p\<close>; \<open>update_first\<close> overwrites that element in place.
\<close>

fun remove_first :: "('a \<Rightarrow> bool) \<Rightarrow> 'a list \<Rightarrow> 'a list" where
  "remove_first p [] = []"
| "remove_first p (x # xs) = (if p x then xs else x # remove_first p xs)"

fun update_first :: "('a \<Rightarrow> bool) \<Rightarrow> 'a \<Rightarrow> 'a list \<Rightarrow> 'a list" where
  "update_first p y [] = []"
| "update_first p y (x # xs) = (if p x then y # xs else x # update_first p y xs)"

lemma remove_first_idle [simp]: "\<forall>x \<in> set xs. \<not> p x \<Longrightarrow> remove_first p xs = xs"
  by (induction xs) auto

lemma set_remove_first_subset: "set (remove_first p xs) \<subseteq> set xs"
  by (induction xs) auto

lemma distinct_map_remove_first:
  "distinct (map f xs) \<Longrightarrow> distinct (map f (remove_first p xs))"
  by (induction xs) (auto dest: set_remove_first_subset [THEN subsetD])

text \<open>With distinct keys, removing the first element with a key removes every such element.\<close>

lemma remove_first_key:
  "distinct (map f xs) \<Longrightarrow> remove_first (\<lambda>x. f x = k) xs = filter (\<lambda>x. f x \<noteq> k) xs"
proof (induction xs)
  case (Cons x xs)
  show ?case
  proof (cases "f x = k")
    case True
    with Cons.prems have "k \<notin> f ` set xs" by simp
    then have "\<forall>y \<in> set xs. f y \<noteq> k" by blast
    with True have "filter (\<lambda>y. f y \<noteq> k) xs = xs" by simp
    with True show ?thesis by simp
  qed (use Cons in auto)
qed simp

lemma map_update_first_key:
  "(\<And>x. x \<in> set xs \<Longrightarrow> p x \<Longrightarrow> f x = f y) \<Longrightarrow> map f (update_first p y xs) = map f xs"
  by (induction xs) auto

lemma set_update_first_key:
  "distinct (map f xs) \<Longrightarrow> f y \<in> f ` set xs \<Longrightarrow>
   set (update_first (\<lambda>x. f x = f y) y xs) = insert y {x \<in> set xs. f x \<noteq> f y}"
proof (induction xs)
  case (Cons x xs)
  show ?case
  proof (cases "f x = f y")
    case True
    with Cons.prems(1) have "f y \<notin> f ` set xs" by simp
    then have "\<And>z. z \<in> set xs \<Longrightarrow> f z \<noteq> f y" by (metis imageI)
    with True show ?thesis by auto
  next
    case False
    with Cons.prems(2) have "f y \<in> f ` set xs" by auto
    with Cons.IH Cons.prems(1) False show ?thesis by auto
  qed
qed simp

lemma length_update_first [simp]: "length (update_first p y xs) = length xs"
  by (induction xs) auto

lemma replicate_numeral [go_eval]:
  "replicate (numeral k) x = x # replicate (pred_numeral k) x"
  by (simp add: numeral_eq_Suc)

lemma find_None_filter: "find p xs = None \<longleftrightarrow> filter p xs = []"
  by (induction xs) auto

section \<open>Aligned blocks of words\<close>

unbundle bit_operations_syntax

text \<open>
  Clearing the low \<open>k\<close> bits rounds down to a multiple of \<open>2 ^ k\<close>: two words agree
  above bit \<open>k\<close> when they lie in the same aligned block.
\<close>

lemma and_not_mask_eq_push_bit:
  "a AND NOT (mask k) = push_bit k (drop_bit k a)" for a :: "'a::len word"
  by (rule bit_eqI) (auto simp: bit_simps)

lemma and_not_mask_eq_iff:
  "a AND NOT (mask k) = b AND NOT (mask k) \<longleftrightarrow> unat a div 2 ^ k = unat b div 2 ^ k"
  for a b :: "'a::len word"
proof -
  have *: "drop_bit k (x AND NOT (mask k)) = drop_bit k x" for x :: "'a word"
    by (rule bit_eqI) (auto simp: bit_simps dest: bit_imp_le_length)
  have "a AND NOT (mask k) = b AND NOT (mask k) \<longleftrightarrow> drop_bit k a = drop_bit k b"
    by (metis * and_not_mask_eq_push_bit)
  also have "\<dots> \<longleftrightarrow> unat (drop_bit k a) = unat (drop_bit k b)" by (rule word_unat_eq_iff)
  also have "\<dots> \<longleftrightarrow> unat a div 2 ^ k = unat b div 2 ^ k"
    by (simp only: unat_drop_bit_eq) (simp only: drop_bit_eq_div)
  finally show ?thesis .
qed

lemma unat_and_not_mask:
  "unat (a AND NOT (mask k)) = unat a div 2 ^ k * 2 ^ k" for a :: "'a::len word"
proof -
  have "unat a div 2 ^ k * 2 ^ k < 2 ^ LENGTH('a)"
    using unsigned_less [of a] by (meson div_times_less_eq_dividend le_less_trans)
  then show ?thesis
    by (simp only: and_not_mask_eq_push_bit unsigned_push_bit_eq unat_drop_bit_eq)
      (simp only: drop_bit_eq_div push_bit_eq_mult take_bit_nat_eq_self_iff)
qed

lemma unat_not_mask:
  "k \<le> LENGTH('a) \<Longrightarrow> unat (NOT (mask k) :: 'a::len word) = 2 ^ LENGTH('a) - 2 ^ k"
proof -
  assume k: "k \<le> LENGTH('a)"
  then obtain m where m: "LENGTH('a) = k + m" using le_Suc_ex by blast
  have "(2 ^ LENGTH('a) - 1) div 2 ^ k = (2::nat) ^ m - 1"
    unfolding m power_add
    by (rule div_nat_eqI) (simp_all add: algebra_simps diff_mult_distrib diff_le_mono2)
  moreover have "unat ((- 1) AND NOT (mask k) :: 'a word) = (2 ^ LENGTH('a) - 1) div 2 ^ k * 2 ^ k"
    unfolding unat_and_not_mask by (simp add: unsigned_minus_1_eq_mask mask_eq_exp_minus_1)
  ultimately show ?thesis by (simp add: m power_add diff_mult_distrib2 mult.commute)
qed

lemma same_block_iff:
  "0 < b \<Longrightarrow> x div b = y div b \<longleftrightarrow> x div b * b \<le> y \<and> y < x div b * b + b" for x y b :: nat
proof -
  assume b: "0 < b"
  show ?thesis
  proof
    assume "x div b = y div b"
    then show "x div b * b \<le> y \<and> y < x div b * b + b"
      using dividend_less_div_times [OF b, of y] by simp
  next
    assume "x div b * b \<le> y \<and> y < x div b * b + b"
    then have "y div b = x div b" by (intro div_nat_eqI) (simp_all add: mult.commute)
    then show "x div b = y div b" by simp
  qed
qed

end
