(* ===== verification/Go_Effects.thy ===== *)
theory Go_Effects
  imports Flannel_Prelude "HOL-Library.While_Combinator"
begin

text \<open>
  Effectful Go code. A call runs in a world, which is the state of whatever the call talks
  to (a registry, the kernel's tables, a clock), and either does not return or returns an
  outcome and the world it leaves behind. Errors keep the effects made before them. Loops
  whose exit depends on data are iterated with the library's while combinator, so that a
  loop that runs forever is the value \<open>None\<close>.
\<close>

section \<open>Calls\<close>

type_synonym ('w, 'a) io = "'w \<Rightarrow> ('a go \<times> 'w) option"

definition io_of :: "'a go \<Rightarrow> ('w, 'a) io" where
  "io_of r = (\<lambda>w. Some (r, w))"

abbreviation io_ret :: "'a \<Rightarrow> ('w, 'a) io" where
  "io_ret x \<equiv> io_of (Ok x)"

abbreviation io_err :: "goerror \<Rightarrow> ('w, 'a) io" where
  "io_err e \<equiv> io_of (Err e)"

definition io_returns :: "'a go option \<Rightarrow> ('w, 'a) io" where
  "io_returns r = (\<lambda>w. map_option (\<lambda>x. (x, w)) r)"

text \<open>\<open>io_try\<close> inspects the error of a call, as \<open>if err != nil\<close> does; a panic is not seen.\<close>

definition io_try :: "('w, 'a) io \<Rightarrow> ('a \<Rightarrow> ('w, 'b) io) \<Rightarrow> (goerror \<Rightarrow> ('w, 'b) io) \<Rightarrow> ('w, 'b) io" where
  "io_try m f g = (\<lambda>w.
     case m w of
       None \<Rightarrow> None
     | Some (r, w') \<Rightarrow>
         (case r of Ok x \<Rightarrow> f x w' | Err e \<Rightarrow> g e w' | Panic p \<Rightarrow> Some (Panic p, w')))"

definition io_bind :: "('w, 'a) io \<Rightarrow> ('a \<Rightarrow> ('w, 'b) io) \<Rightarrow> ('w, 'b) io" where
  "io_bind m f = io_try m f io_err"

text \<open>\<open>for _, x := range xs\<close> with an effectful body and an accumulator.\<close>

fun io_fold :: "('a \<Rightarrow> 'b \<Rightarrow> ('w, 'b) io) \<Rightarrow> 'a list \<Rightarrow> 'b \<Rightarrow> ('w, 'b) io" where
  "io_fold f [] acc = io_ret acc"
| "io_fold f (x # xs) acc = io_bind (f x acc) (io_fold f xs)"

lemma io_of_apply [simp]: "io_of r w = Some (r, w)"
  by (simp add: io_of_def)

lemma io_returns_apply [simp]:
  "io_returns (Some r) w = Some (r, w)" "io_returns None w = None"
  by (simp_all add: io_returns_def)

lemma io_try_apply [go_eval]:
  "io_try m f g w =
     (case m w of
        None \<Rightarrow> None
      | Some (r, w') \<Rightarrow>
          (case r of Ok x \<Rightarrow> f x w' | Err e \<Rightarrow> g e w' | Panic p \<Rightarrow> Some (Panic p, w')))"
  by (simp add: io_try_def)

lemma io_bind_apply [go_eval]:
  "io_bind m f w =
     (case m w of
        None \<Rightarrow> None
      | Some (r, w') \<Rightarrow>
          (case r of Ok x \<Rightarrow> f x w' | Err e \<Rightarrow> Some (Err e, w') | Panic p \<Rightarrow> Some (Panic p, w')))"
  by (simp add: io_bind_def io_try_def io_of_def)

lemma io_bind_steps [simp]:
  "m w = Some (Ok x, w') \<Longrightarrow> io_bind m f w = f x w'"
  "m w = Some (Err e, w') \<Longrightarrow> io_bind m f w = Some (Err e, w')"
  "m w = Some (Panic p, w') \<Longrightarrow> io_bind m f w = Some (Panic p, w')"
  "m w = None \<Longrightarrow> io_bind m f w = None"
  by (simp_all add: io_bind_apply)

lemma io_try_steps [simp]:
  "m w = Some (Ok x, w') \<Longrightarrow> io_try m f g w = f x w'"
  "m w = Some (Err e, w') \<Longrightarrow> io_try m f g w = g e w'"
  "m w = Some (Panic p, w') \<Longrightarrow> io_try m f g w = Some (Panic p, w')"
  "m w = None \<Longrightarrow> io_try m f g w = None"
  by (simp_all add: io_try_apply)

lemma io_bind_Ok_iff [go_simps]:
  "io_bind m f w = Some (Ok y, w'') \<longleftrightarrow> (\<exists>x w'. m w = Some (Ok x, w') \<and> f x w' = Some (Ok y, w''))"
  by (auto simp: io_bind_apply split: option.splits go.splits prod.splits)

lemma io_bind_cases:
  assumes "io_bind m f w = Some (r, w'')"
  obtains (ok) x w' where "m w = Some (Ok x, w')" "f x w' = Some (r, w'')"
    | (err) e where "m w = Some (Err e, w'')" "r = Err e"
    | (panic) p where "m w = Some (Panic p, w'')" "r = Panic p"
  using assms by (auto simp: io_bind_apply split: option.splits go.splits prod.splits)

lemma io_try_cases:
  assumes "io_try m f g w = Some (r, w'')"
  obtains (ok) x w' where "m w = Some (Ok x, w')" "f x w' = Some (r, w'')"
    | (err) e w' where "m w = Some (Err e, w')" "g e w' = Some (r, w'')"
    | (panic) p where "m w = Some (Panic p, w'')" "r = Panic p"
  using assms by (auto simp: io_try_apply split: option.splits go.splits prod.splits)

text \<open>
  A relation between worlds that every call of a program keeps is kept by the program:
  \<open>keeps R m\<close> says that whatever \<open>m\<close> returns, the worlds before and after are related.
\<close>

definition keeps :: "('w \<Rightarrow> 'w \<Rightarrow> bool) \<Rightarrow> ('w, 'a) io \<Rightarrow> bool" where
  "keeps R m \<longleftrightarrow> (\<forall>w r w'. m w = Some (r, w') \<longrightarrow> R w w')"

named_theorems keeps_intros

lemma keepsD: "keeps R m \<Longrightarrow> m w = Some (r, w') \<Longrightarrow> R w w'"
  by (simp add: keeps_def)

lemma keeps_io_of [keeps_intros]: "reflp R \<Longrightarrow> keeps R (io_of r)"
  by (simp add: keeps_def reflpD)

lemma keeps_io_try [keeps_intros]:
  assumes "transp R" "keeps R m" "\<And>x. keeps R (f x)" "\<And>e. keeps R (g e)"
  shows "keeps R (io_try m f g)"
  unfolding keeps_def
proof (intro allI impI)
  fix w r w'' assume "io_try m f g w = Some (r, w'')"
  then show "R w w''"
    by (cases rule: io_try_cases) (use assms in \<open>blast dest: keepsD transpD\<close>)+
qed

lemma keeps_io_bind [keeps_intros]:
  assumes "transp R" "reflp R" "keeps R m" "\<And>x. keeps R (f x)"
  shows "keeps R (io_bind m f)"
  unfolding io_bind_def by (intro keeps_io_try keeps_io_of assms)

lemma keeps_io_fold [keeps_intros]:
  "transp R \<Longrightarrow> reflp R \<Longrightarrow> (\<And>x b. x \<in> set xs \<Longrightarrow> keeps R (f x b)) \<Longrightarrow> keeps R (io_fold f xs acc)"
  by (induction xs arbitrary: acc) (auto intro!: keeps_intros)

section \<open>Loops\<close>

text \<open>A loop is either at its head, in a state, or has been left with an outcome.\<close>

definition loop_step :: "('s \<Rightarrow> bool go) \<Rightarrow> ('s \<Rightarrow> 's go) \<Rightarrow> 's + 's go \<Rightarrow> 's + 's go" where
  "loop_step b c st =
     (case st of
        Inr r \<Rightarrow> Inr r
      | Inl s \<Rightarrow>
          (case b s of
             Ok t \<Rightarrow>
               if t then (case c s of Ok s' \<Rightarrow> Inl s' | Err e \<Rightarrow> Inr (Err e) | Panic p \<Rightarrow> Inr (Panic p))
               else Inr (Ok s)
           | Err e \<Rightarrow> Inr (Err e)
           | Panic p \<Rightarrow> Inr (Panic p)))"

definition go_while :: "('s \<Rightarrow> bool go) \<Rightarrow> ('s \<Rightarrow> 's go) \<Rightarrow> 's \<Rightarrow> 's go option" where
  "go_while b c s = map_option projr (while_option isl (loop_step b c) (Inl s))"

lemma go_while_unfold:
  "go_while b c s =
     (case b s of
        Ok t \<Rightarrow>
          if t then (case c s of Ok s' \<Rightarrow> go_while b c s' | Err e \<Rightarrow> Some (Err e) | Panic p \<Rightarrow> Some (Panic p))
          else Some (Ok s)
      | Err e \<Rightarrow> Some (Err e)
      | Panic p \<Rightarrow> Some (Panic p))"
  unfolding go_while_def
  by (subst while_option_unfold)
     (auto simp: loop_step_def while_option_unfold [of isl _ "Inr _"] split: go.splits)

text \<open>Total correctness: an invariant and a measure that every iteration decreases.\<close>

lemma go_while_total:
  assumes "P s"
    and "\<And>s. P s \<Longrightarrow> b s = Ok (more s)"
    and "\<And>s. P s \<Longrightarrow> more s \<Longrightarrow> \<exists>s'. c s = Ok s' \<and> P s' \<and> (f s' :: nat) < f s"
  shows "\<exists>s'. go_while b c s = Some (Ok s') \<and> P s' \<and> \<not> more s'"
  using assms(1)
proof (induction "f s" arbitrary: s rule: less_induct)
  case less
  show ?case
  proof (cases "more s")
    case True
    with assms(3) [OF less.prems] obtain s' where "c s = Ok s'" "P s'" "f s' < f s" by blast
    with less.hyps [of s'] True assms(2) [OF less.prems] show ?thesis
      by (subst go_while_unfold) simp
  next
    case False
    with less.prems assms(2) [OF less.prems] show ?thesis by (subst go_while_unfold) simp
  qed
qed

text \<open>Divergence: an invariant under which the condition holds and every iteration succeeds.\<close>

lemma go_while_diverges:
  assumes "P s" and step: "\<And>s. P s \<Longrightarrow> b s = Ok True \<and> (\<exists>s'. c s = Ok s' \<and> P s')"
  shows "go_while b c s = None"
proof (rule ccontr)
  assume "go_while b c s \<noteq> None"
  then obtain st where st: "while_option isl (loop_step b c) (Inl s) = Some st"
    by (auto simp: go_while_def)
  have "\<exists>t. st = Inl t \<and> P t"
  proof (rule while_option_rule [OF _ st])
    fix u :: "'a + 'a go" assume "\<exists>t. u = Inl t \<and> P t" "isl u"
    then obtain t where t: "u = Inl t" "P t" by blast
    with step [OF t(2)] show "\<exists>t. loop_step b c u = Inl t \<and> P t" by (auto simp: loop_step_def)
  qed (use assms(1) in auto)
  with while_option_stop [OF st] show False by auto
qed

text \<open>Partial correctness: an invariant of the iterations holds where the loop is left.\<close>

lemma go_while_partial:
  assumes "P s"
    and b: "\<And>s. P s \<Longrightarrow> b s = Ok (more s)"
    and step: "\<And>s. P s \<Longrightarrow> more s \<Longrightarrow> \<exists>s'. c s = Ok s' \<and> P s'"
  shows "go_while b c s = None \<or> (\<exists>s'. go_while b c s = Some (Ok s') \<and> P s' \<and> \<not> more s')"
proof (cases "while_option isl (loop_step b c) (Inl s)")
  case (Some st)
  define Q where "Q = (\<lambda>u :: 'a + 'a go. case u of Inl t \<Rightarrow> P t | Inr r \<Rightarrow> \<exists>t. r = Ok t \<and> P t \<and> \<not> more t)"
  have "Q st"
  proof (rule while_option_rule [OF _ Some])
    fix u :: "'a + 'a go" assume u: "Q u" "isl u"
    then obtain t where t: "u = Inl t" "P t" by (cases u) (auto simp: Q_def)
    with b [OF t(2)] step [OF t(2)] show "Q (loop_step b c u)" by (auto simp: Q_def loop_step_def)
  qed (use assms(1) in \<open>simp add: Q_def\<close>)
  moreover have "\<not> isl st" by (rule while_option_stop [OF Some])
  ultimately show ?thesis using Some by (cases st) (auto simp: Q_def go_while_def)
qed (simp add: go_while_def)

end
