(* ===== verification/Go_Strings.thy ===== *)
theory Go_Strings
  imports Flannel_Prelude
begin

text \<open>
  The parts of Go's \<open>fmt\<close>, \<open>strconv\<close>, \<open>strings\<close>, \<open>bytes\<close> and \<open>path\<close> packages that the
  program uses. A Go string is a sequence of bytes, here a list of 8-bit characters.
\<close>

section \<open>Characters and numbers\<close>

abbreviation (input) chr_dot :: char where "chr_dot \<equiv> CHR ''.''"
abbreviation (input) chr_colon :: char where "chr_colon \<equiv> CHR '':''"
abbreviation (input) chr_slash :: char where "chr_slash \<equiv> CHR ''/''"
abbreviation (input) chr_dash :: char where "chr_dash \<equiv> CHR ''-''"
abbreviation (input) chr_amp :: char where "chr_amp \<equiv> CHR ''&''"
abbreviation (input) chr_quote :: char where "chr_quote \<equiv> CHR 0x22"
abbreviation (input) chr_newline :: char where "chr_newline \<equiv> CHR 0x0A"

definition code_of :: "char \<Rightarrow> nat" where
  "code_of c = of_char c"

definition digit_char :: "nat \<Rightarrow> char" where
  "digit_char d = ''0123456789'' ! d"

definition is_digit :: "char \<Rightarrow> bool" where
  "is_digit c \<longleftrightarrow> 48 \<le> code_of c \<and> code_of c \<le> 57"

definition digit_val :: "char \<Rightarrow> nat" where
  "digit_val c = code_of c - 48"

text \<open>\<open>%d\<close> of a non-negative number.\<close>

fun nat_dec :: "nat \<Rightarrow> string" where
  "nat_dec n = (if n < 10 then [digit_char n] else nat_dec (n div 10) @ [digit_char (n mod 10)])"

declare nat_dec.simps [simp del]

definition int_dec :: "int \<Rightarrow> string" where
  "int_dec i = (if i < 0 then chr_dash # nat_dec (nat (- i)) else nat_dec (nat i))"

definition dec_val :: "string \<Rightarrow> nat" where
  "dec_val s = foldl (\<lambda>v c. 10 * v + digit_val c) 0 s"

definition bool_str :: "bool \<Rightarrow> string" where
  "bool_str b = (if b then ''true'' else ''false'')"

text \<open>\<open>%x\<close> of a non-negative number, and the value of a hexadecimal digit.\<close>

definition hex_char :: "nat \<Rightarrow> char" where
  "hex_char d = ''0123456789abcdef'' ! d"

fun nat_hex :: "nat \<Rightarrow> string" where
  "nat_hex n = (if n < 16 then [hex_char n] else nat_hex (n div 16) @ [hex_char (n mod 16)])"

declare nat_hex.simps [simp del]

definition hex_digit :: "char \<Rightarrow> nat option" where
  "hex_digit c =
     (let k = code_of c in
      if 48 \<le> k \<and> k \<le> 57 then Some (k - 48)
      else if 97 \<le> k \<and> k \<le> 102 then Some (k - 87)
      else if 65 \<le> k \<and> k \<le> 70 then Some (k - 55)
      else None)"

lemma less_10_cases:
  "(d::nat) < 10 \<Longrightarrow> d = 0 \<or> d = 1 \<or> d = 2 \<or> d = 3 \<or> d = 4 \<or> d = 5 \<or> d = 6 \<or> d = 7 \<or> d = 8 \<or> d = 9"
  by presburger

lemma less_16_cases:
  "(d::nat) < 16 \<Longrightarrow> d = 0 \<or> d = 1 \<or> d = 2 \<or> d = 3 \<or> d = 4 \<or> d = 5 \<or> d = 6 \<or> d = 7 \<or> d = 8 \<or>
     d = 9 \<or> d = 10 \<or> d = 11 \<or> d = 12 \<or> d = 13 \<or> d = 14 \<or> d = 15"
  by presburger

lemma hex_digit_hex_char [simp]: "d < 16 \<Longrightarrow> hex_digit (hex_char d) = Some d"
  by (drule less_16_cases, elim disjE) (simp_all add: hex_digit_def hex_char_def code_of_def)

lemma code_of_digit_char [simp]: "d < 10 \<Longrightarrow> code_of (digit_char d) = 48 + d"
  by (drule less_10_cases, elim disjE) (simp_all add: code_of_def digit_char_def)

lemma is_digit_digit_char [simp]: "d < 10 \<Longrightarrow> is_digit (digit_char d)"
  by (simp add: is_digit_def)

lemma digit_val_digit_char [simp]: "d < 10 \<Longrightarrow> digit_val (digit_char d) = d"
  by (simp add: digit_val_def)

lemma digit_val_less: "is_digit c \<Longrightarrow> digit_val c < 10"
  unfolding is_digit_def digit_val_def by linarith

lemma is_digit_simps [simp]:
  "\<not> is_digit chr_dot" "\<not> is_digit chr_colon" "\<not> is_digit chr_slash" "\<not> is_digit chr_dash"
  "\<not> is_digit chr_amp" "\<not> is_digit chr_quote" "\<not> is_digit chr_newline"
  by (simp_all add: is_digit_def code_of_def)

lemma dec_val_Nil [simp]: "dec_val [] = 0"
  by (simp add: dec_val_def)

lemma dec_val_snoc [simp]: "dec_val (s @ [c]) = 10 * dec_val s + digit_val c"
  by (simp add: dec_val_def)

lemma nat_dec_digits: "c \<in> set (nat_dec n) \<Longrightarrow> is_digit c"
proof (induction n rule: nat_dec.induct)
  case (1 n)
  then show ?case by (cases "n < 10") (auto simp: nat_dec.simps [of n])
qed

lemma nat_dec_nonempty [simp]: "nat_dec n \<noteq> []"
  by (simp add: nat_dec.simps)

lemma dec_val_nat_dec [simp]: "dec_val (nat_dec n) = n"
proof (induction n rule: nat_dec.induct)
  case (1 n)
  then show ?case
    using dec_val_snoc [of "[]"] by (cases "n < 10") (auto simp: nat_dec.simps [of n])
qed

lemma nat_dec_inject [simp]: "nat_dec m = nat_dec n \<longleftrightarrow> m = n"
  by (metis dec_val_nat_dec)

text \<open>No leading zero, and at most as many digits as the bound has.\<close>

lemma hd_nat_dec: "hd (nat_dec n) = digit_char 0 \<longleftrightarrow> n = 0"
proof (induction n rule: nat_dec.induct)
  case (1 n)
  show ?case
  proof (cases "n < 10")
    case True
    have "digit_char n = digit_char 0 \<longleftrightarrow> n = 0"
      using True digit_val_digit_char [of n] digit_val_digit_char [of 0] by fastforce
    with True show ?thesis by (simp add: nat_dec.simps [of n])
  next
    case False
    with 1 show ?thesis by (simp add: nat_dec.simps [of n])
  qed
qed

lemma length_nat_dec_le: "n < 10 ^ Suc k \<Longrightarrow> length (nat_dec n) \<le> Suc k"
proof (induction k arbitrary: n)
  case 0
  then show ?case by (simp add: nat_dec.simps)
next
  case (Suc k)
  show ?case
  proof (cases "n < 10")
    case True
    then show ?thesis by (simp add: nat_dec.simps)
  next
    case False
    have "n div 10 < 10 ^ Suc k" using Suc.prems by (simp add: less_mult_imp_div_less)
    with Suc.IH [of "n div 10"] False show ?thesis by (simp add: nat_dec.simps [of n])
  qed
qed

section \<open>\<open>strings\<close> and \<open>bytes\<close>\<close>

definition HasPrefix :: "string \<Rightarrow> string \<Rightarrow> bool" where
  "HasPrefix s p \<longleftrightarrow> take (length p) s = p"

definition HasSuffix :: "string \<Rightarrow> string \<Rightarrow> bool" where
  "HasSuffix s p \<longleftrightarrow> length p \<le> length s \<and> drop (length s - length p) s = p"

fun Contains :: "string \<Rightarrow> string \<Rightarrow> bool" where
  "Contains [] p \<longleftrightarrow> p = []"
| "Contains (c # s) p \<longleftrightarrow> HasPrefix (c # s) p \<or> Contains s p"

definition CountChar :: "string \<Rightarrow> char \<Rightarrow> nat" where
  "CountChar s c = length (filter (\<lambda>x. x = c) s)"

definition Trim :: "string \<Rightarrow> string \<Rightarrow> string" where
  "Trim s cutset = rev (dropWhile (\<lambda>c. c \<in> set cutset) (rev (dropWhile (\<lambda>c. c \<in> set cutset) s)))"

text \<open>\<open>strings.Split\<close> on a one-character separator: always at least one piece.\<close>

fun SplitChar :: "string \<Rightarrow> char \<Rightarrow> string list" where
  "SplitChar [] sep = [[]]"
| "SplitChar (c # s) sep =
     (if c = sep then [] # SplitChar s sep
      else (case SplitChar s sep of p # ps \<Rightarrow> (c # p) # ps | [] \<Rightarrow> [[c]]))"

text \<open>\<open>strings.Split\<close> on a non-empty separator string.\<close>

function SplitStr :: "string \<Rightarrow> string \<Rightarrow> string \<Rightarrow> string list" where
  "SplitStr acc [] sep = [rev acc]"
| "SplitStr acc (c # s) sep =
     (if sep \<noteq> [] \<and> HasPrefix (c # s) sep then rev acc # SplitStr [] (drop (length sep) (c # s)) sep
      else SplitStr (c # acc) s sep)"
  by pat_completeness auto
termination
  by (relation "measure (\<lambda>(acc, s, sep). length s)") auto

definition Split :: "string \<Rightarrow> string \<Rightarrow> string list" where
  "Split s sep = SplitStr [] s sep"

text \<open>\<open>strings.Cut\<close> at a character.\<close>

definition CutChar :: "string \<Rightarrow> char \<Rightarrow> (string \<times> string) option" where
  "CutChar s sep =
     (case dropWhile (\<lambda>c. c \<noteq> sep) s of
        [] \<Rightarrow> None
      | _ # rest \<Rightarrow> Some (takeWhile (\<lambda>c. c \<noteq> sep) s, rest))"

definition lower_alphabet :: string where
  "lower_alphabet = ''abcdefghijklmnopqrstuvwxyz''"

definition lower_char :: "char \<Rightarrow> char" where
  "lower_char c =
     (if 65 \<le> code_of c \<and> code_of c \<le> 90
      then lower_alphabet ! (code_of c - 65) else c)"

definition ToLower :: "string \<Rightarrow> string" where
  "ToLower s = map lower_char s"

definition EqualFold :: "string \<Rightarrow> string \<Rightarrow> bool" where
  "EqualFold s t \<longleftrightarrow> ToLower s = ToLower t"

definition JoinStr :: "string \<Rightarrow> string list \<Rightarrow> string" where
  "JoinStr sep ss = (case ss of [] \<Rightarrow> [] | x # xs \<Rightarrow> x @ concat (map (\<lambda>y. sep @ y) xs))"

lemma HasPrefix_append [simp]: "HasPrefix (p @ s) p"
  by (simp add: HasPrefix_def)

lemma HasPrefix_iff: "HasPrefix s p \<longleftrightarrow> (\<exists>t. s = p @ t)"
  by (metis HasPrefix_append HasPrefix_def append_take_drop_id)

lemma HasSuffix_append [simp]: "HasSuffix (s @ p) p"
  by (simp add: HasSuffix_def)

lemma HasSuffix_iff: "HasSuffix s p \<longleftrightarrow> (\<exists>t. s = t @ p)"
  by (metis HasSuffix_append HasSuffix_def append_take_drop_id)

lemma Trim_idle:
  "s \<noteq> [] \<Longrightarrow> hd s \<notin> set cs \<Longrightarrow> last s \<notin> set cs \<Longrightarrow> Trim s cs = s"
  unfolding Trim_def
  by (cases s rule: rev_cases) (simp_all add: dropWhile_eq_self_iff [THEN iffD2] hd_append)

lemma CutChar_append: "sep \<notin> set a \<Longrightarrow> CutChar (a @ sep # b) sep = Some (a, b)"
  by (induction a) (auto simp: CutChar_def split: list.splits)

lemma SplitChar_nonempty [simp]: "SplitChar s sep \<noteq> []"
  by (induction s) (auto split: list.splits)

lemma SplitChar_single: "sep \<notin> set s \<Longrightarrow> SplitChar s sep = [s]"
  by (induction s) auto

lemma SplitChar_append: "sep \<notin> set a \<Longrightarrow> SplitChar (a @ sep # b) sep = a # SplitChar b sep"
  by (induction a) auto

lemma lower_alphabet_code:
  "x \<in> set lower_alphabet \<Longrightarrow> \<not> (65 \<le> code_of x \<and> code_of x \<le> 90)"
proof -
  have "\<forall>x \<in> set lower_alphabet. \<not> code_of x \<le> 90"
    by (simp add: lower_alphabet_def code_of_def)
  then show "x \<in> set lower_alphabet \<Longrightarrow> \<not> (65 \<le> code_of x \<and> code_of x \<le> 90)" by blast
qed

lemma lower_char_idem [simp]: "lower_char (lower_char c) = lower_char c"
proof (cases "65 \<le> code_of c \<and> code_of c \<le> 90")
  case True
  have len: "length lower_alphabet = 26" by (simp add: lower_alphabet_def)
  from True have low: "lower_char c = lower_alphabet ! (code_of c - 65)"
    by (simp add: lower_char_def)
  have "code_of c - 65 < length lower_alphabet" using True unfolding len by linarith
  then have "lower_char c \<in> set lower_alphabet" unfolding low by (rule nth_mem)
  from lower_alphabet_code [OF this] show ?thesis
    unfolding lower_char_def [of "lower_char c"] by (rule if_not_P)
next
  case False
  then have "lower_char c = c" by (auto simp: lower_char_def)
  then show ?thesis by simp
qed

lemma ToLower_idem [simp]: "ToLower (ToLower s) = ToLower s"
  by (simp add: ToLower_def)

section \<open>\<open>path.Join\<close>\<close>

text \<open>
  \<open>path.Join\<close> drops empty elements, joins the others with a slash and cleans the result
  lexically: empty and \<open>.\<close> segments disappear and \<open>..\<close> removes the segment before it.
\<close>

definition dot_dot :: string where "dot_dot = ''..''"

definition clean_step :: "bool \<Rightarrow> string \<Rightarrow> string list \<Rightarrow> string list" where
  "clean_step rooted seg st =
     (if seg = [] \<or> seg = ''.'' then st
      else if seg = dot_dot then
        (case st of
           [] \<Rightarrow> (if rooted then [] else [dot_dot])
         | t # ts \<Rightarrow> (if t = dot_dot then dot_dot # st else ts))
      else seg # st)"

definition path_Clean :: "string \<Rightarrow> string" where
  "path_Clean p =
     (let rooted = (case p of [] \<Rightarrow> False | c # _ \<Rightarrow> c = chr_slash);
          st = fold (clean_step rooted) (SplitChar p chr_slash) [];
          body = JoinStr [chr_slash] (rev st)
      in if rooted then chr_slash # body
         else if body = [] then ''.'' else body)"

definition path_Join :: "string list \<Rightarrow> string" where
  "path_Join es =
     (let es' = filter (\<lambda>e. e \<noteq> []) es in
      if es' = [] then [] else path_Clean (JoinStr [chr_slash] es'))"

lemmas [go_eval] =
  code_of_def digit_char_def is_digit_def digit_val_def nat_dec.simps int_dec_def dec_val_def
  bool_str_def hex_char_def nat_hex.simps hex_digit_def HasPrefix_def HasSuffix_def CountChar_def
  Trim_def Split_def CutChar_def lower_alphabet_def lower_char_def ToLower_def EqualFold_def
  JoinStr_def dot_dot_def clean_step_def path_Clean_def path_Join_def Let_def

end
