(* ===== verification/Go_Net.thy ===== *)
theory Go_Net
  imports Go_Strings
begin

unbundle bit_operations_syntax

text \<open>
  Go's \<open>net\<close> (and the part of \<open>net/netip\<close> and \<open>math/big\<close> it rests on) as far as the program
  uses it: addresses as byte slices, their textual forms, CIDR parsing and masks. A nil
  slice is the empty list.
\<close>

type_synonym byte = "8 word"
type_synonym net_IP = "byte list"
type_synonym IPMask = "byte list"

section \<open>Addresses\<close>

definition v4InV6Prefix :: "byte list" where
  "v4InV6Prefix = [0, 0, 0, 0, 0, 0, 0, 0, 0, 0, 255, 255]"

definition net_IPv4 :: "byte \<Rightarrow> byte \<Rightarrow> byte \<Rightarrow> byte \<Rightarrow> net_IP" where
  "net_IPv4 a b c d = v4InV6Prefix @ [a, b, c, d]"

definition To4 :: "net_IP \<Rightarrow> net_IP" where
  "To4 ip =
     (if length ip = 4 then ip
      else if length ip = 16 \<and> take 12 ip = v4InV6Prefix then drop 12 ip
      else [])"

definition To16 :: "net_IP \<Rightarrow> net_IP" where
  "To16 ip =
     (if length ip = 4 then v4InV6Prefix @ ip
      else if length ip = 16 then ip
      else [])"

definition IP_Equal :: "net_IP \<Rightarrow> net_IP \<Rightarrow> bool" where
  "IP_Equal x y \<longleftrightarrow>
     (if length x = length y then x = y
      else if length x = 4 \<and> length y = 16 then take 12 y = v4InV6Prefix \<and> drop 12 y = x
      else if length x = 16 \<and> length y = 4 then take 12 x = v4InV6Prefix \<and> drop 12 x = y
      else False)"

section \<open>Parsing addresses\<close>

text \<open>
  \<open>parseIPv4Fields\<close>: the fields read so far, the value of the current one and how many
  digits it has.
\<close>

fun parse4 :: "byte list \<Rightarrow> nat \<Rightarrow> nat \<Rightarrow> string \<Rightarrow> byte list option" where
  "parse4 fields val digLen [] =
     (if length fields < 3 then None else Some (fields @ [of_nat val]))"
| "parse4 fields val digLen (c # s) =
     (if is_digit c then
        (if digLen = 1 \<and> val = 0 then None
         else if val * 10 + digit_val c > 255 then None
         else parse4 fields (val * 10 + digit_val c) (digLen + 1) s)
      else if c = chr_dot then
        (if digLen = 0 \<or> s = [] then None
         else if length fields = 3 then None
         else parse4 (fields @ [of_nat val]) 0 0 s)
      else None)"

text \<open>One hexadecimal group of \<open>parseIPv6\<close>: digits read, value, rest; \<open>None\<close> past four digits.\<close>

fun hex_group :: "nat \<Rightarrow> nat \<Rightarrow> string \<Rightarrow> (nat \<times> nat \<times> string) option" where
  "hex_group off acc [] = Some (off, acc, [])"
| "hex_group off acc (c # s) =
     (case hex_digit c of
        None \<Rightarrow> Some (off, acc, c # s)
      | Some d \<Rightarrow> if off > 3 then None else hex_group (off + 1) (16 * acc + d) s)"

definition group_bytes :: "nat \<Rightarrow> byte list" where
  "group_bytes acc = [of_nat (acc div 256), of_nat (acc mod 256)]"

lemma length_group_bytes [simp]: "length (group_bytes acc) = 2"
  by (simp add: group_bytes_def)

text \<open>
  The loop of \<open>parseIPv6\<close>: the bytes so far, the position of the ellipsis, the rest of the
  text.
\<close>

function parse6 :: "byte list \<Rightarrow> nat option \<Rightarrow> string \<Rightarrow> (byte list \<times> nat option \<times> string) option" where
  "parse6 bs ell s =
     (if length bs < 16 then
        (case hex_group 0 0 s of
           None \<Rightarrow> None
         | Some (off, acc, rest) \<Rightarrow>
             if off = 0 then None
             else if rest \<noteq> [] \<and> hd rest = chr_dot then
               (if ell = None \<and> length bs \<noteq> 12 then None
                else if length bs + 4 > 16 then None
                else (case parse4 [] 0 0 s of
                        None \<Rightarrow> None
                      | Some f \<Rightarrow> Some (bs @ f, ell, [])))
             else
               (case rest of
                  [] \<Rightarrow> Some (bs @ group_bytes acc, ell, [])
                | c # s1 \<Rightarrow>
                    if c \<noteq> chr_colon \<or> s1 = [] then None
                    else if hd s1 = chr_colon then
                      (if ell \<noteq> None then None
                       else if tl s1 = [] then
                         Some (bs @ group_bytes acc, Some (length bs + 2), [])
                       else parse6 (bs @ group_bytes acc) (Some (length bs + 2)) (tl s1))
                    else parse6 (bs @ group_bytes acc) ell s1))
      else Some (bs, ell, s))"
  by pat_completeness auto
termination
  by (relation "measure (\<lambda>(bs, ell, s). 16 - length bs)") auto

declare parse6.simps [simp del]

definition parse_IPv6 :: "string \<Rightarrow> byte list option" where
  "parse_IPv6 s =
     (if CHR ''%'' \<in> set s then None
      else
        (let lead = (take 2 s = ''::''); s' = (if lead then drop 2 s else s) in
         if lead \<and> s' = [] then Some (replicate 16 0)
         else (case parse6 [] (if lead then Some 0 else None) s' of
                 None \<Rightarrow> None
               | Some (bs, ell, rest) \<Rightarrow>
                   if rest \<noteq> [] then None
                   else if length bs < 16 then
                     (case ell of
                        None \<Rightarrow> None
                      | Some e \<Rightarrow> Some (take e bs @ replicate (16 - length bs) 0 @ drop e bs))
                   else if ell \<noteq> None then None
                   else Some bs)))"

text \<open>\<open>netip.ParseAddr\<close>: four bytes for an IPv4 text, sixteen for an IPv6 one.\<close>

definition ParseAddr :: "string \<Rightarrow> byte list option" where
  "ParseAddr s =
     (case dropWhile (\<lambda>c. c \<noteq> chr_dot \<and> c \<noteq> chr_colon \<and> c \<noteq> CHR ''%'') s of
        [] \<Rightarrow> None
      | c # _ \<Rightarrow>
          if c = chr_dot then parse4 [] 0 0 s
          else if c = chr_colon then parse_IPv6 s
          else None)"

definition ParseIP :: "string \<Rightarrow> net_IP" where
  "ParseIP s =
     (case ParseAddr s of
        None \<Rightarrow> []
      | Some bs \<Rightarrow> if length bs = 4 then v4InV6Prefix @ bs else bs)"

section \<open>Printing addresses\<close>

definition dotted :: "string \<Rightarrow> byte \<Rightarrow> byte \<Rightarrow> byte \<Rightarrow> byte \<Rightarrow> string" where
  "dotted sep a b c d =
     nat_dec (unat a) @ sep @ nat_dec (unat b) @ sep @ nat_dec (unat c) @ sep @ nat_dec (unat d)"

fun ip_groups :: "byte list \<Rightarrow> nat list" where
  "ip_groups (a # b # bs) = (256 * unat a + unat b) # ip_groups bs"
| "ip_groups bs = []"

fun leading_zeros :: "nat list \<Rightarrow> nat" where
  "leading_zeros [] = 0"
| "leading_zeros (w # ws) = (if w = 0 then Suc (leading_zeros ws) else 0)"

text \<open>The longest run of at least two zero groups, the first of the longest ones.\<close>

fun zero_run :: "nat \<Rightarrow> nat list \<Rightarrow> nat \<times> nat \<Rightarrow> nat \<times> nat" where
  "zero_run i [] best = best"
| "zero_run i (w # ws) best =
     zero_run (i + 1) ws
       (if 2 \<le> leading_zeros (w # ws) \<and> snd best - fst best < leading_zeros (w # ws)
        then (i, i + leading_zeros (w # ws)) else best)"

definition string6 :: "nat list \<Rightarrow> string" where
  "string6 ws =
     (let (zs, ze) = zero_run 0 ws (255, 255) in
      if zs = 255 then JoinStr '':'' (map nat_hex ws)
      else JoinStr '':'' (map nat_hex (take zs ws)) @ ''::'' @
           JoinStr '':'' (map nat_hex (drop ze ws)))"

definition hex_string :: "byte list \<Rightarrow> string" where
  "hex_string bs = concat (map (\<lambda>b. [hex_char (unat b div 16), hex_char (unat b mod 16)]) bs)"

definition IP_String :: "net_IP \<Rightarrow> string" where
  "IP_String ip =
     (if ip = [] then ''<nil>''
      else if length ip \<noteq> 4 \<and> length ip \<noteq> 16 then CHR ''?'' # hex_string ip
      else (case To4 ip of
              [a, b, c, d] \<Rightarrow> dotted ''.'' a b c d
            | _ \<Rightarrow> string6 (ip_groups ip)))"

section \<open>Masks and networks\<close>

definition mask_byte :: "nat \<Rightarrow> byte" where
  "mask_byte n = (if n \<ge> 8 then 255 else of_nat (256 - 2 ^ (8 - n)))"

definition CIDRMask :: "int \<Rightarrow> nat \<Rightarrow> IPMask" where
  "CIDRMask ones bits =
     (if (bits \<noteq> 32 \<and> bits \<noteq> 128) \<or> ones < 0 \<or> ones > int bits then []
      else map (\<lambda>i. mask_byte (nat ones - i))
             (if bits = 32 then [0, 8, 16, 24]
              else [0, 8, 16, 24, 32, 40, 48, 56, 64, 72, 80, 88, 96, 104, 112, 120]))"

text \<open>\<open>IPMask.Size\<close>: leading ones and total bits, \<open>(0, 0)\<close> for a mask with a hole.\<close>

definition byte_ones :: "byte \<Rightarrow> nat option" where
  "byte_ones b = find (\<lambda>n. mask_byte n = b) [0, 1, 2, 3, 4, 5, 6, 7, 8]"

fun mask_length :: "IPMask \<Rightarrow> nat option" where
  "mask_length [] = Some 0"
| "mask_length (b # bs) =
     (if b = 255 then map_option (\<lambda>n. 8 + n) (mask_length bs)
      else (case byte_ones b of
              None \<Rightarrow> None
            | Some n \<Rightarrow> if \<forall>x \<in> set bs. x = 0 then Some n else None))"

definition mask_Size :: "IPMask \<Rightarrow> nat \<times> nat" where
  "mask_Size m = (case mask_length m of None \<Rightarrow> (0, 0) | Some n \<Rightarrow> (n, 8 * length m))"

definition IP_Mask :: "net_IP \<Rightarrow> IPMask \<Rightarrow> net_IP" where
  "IP_Mask ip msk =
     (let m' = (if length msk = 16 \<and> length ip = 4 \<and> (\<forall>x \<in> set (take 12 msk). x = 255)
                   then drop 12 msk else msk);
          ip' = (if length m' = 4 \<and> length ip = 16 \<and> take 12 ip = v4InV6Prefix
                 then drop 12 ip else ip)
      in if length ip' \<noteq> length m' then [] else map2 (AND) ip' m')"

record IPNet =
  ipn_IP :: net_IP
  ipn_Mask :: IPMask

definition networkNumberAndMask :: "IPNet \<Rightarrow> net_IP \<times> IPMask" where
  "networkNumberAndMask n =
     (let ip = (if To4 (ipn_IP n) \<noteq> [] then To4 (ipn_IP n) else ipn_IP n); m = ipn_Mask n in
      if length ip \<noteq> 4 \<and> length ip \<noteq> 16 then ([], [])
      else if length m = 4 then (if length ip = 4 then (ip, m) else ([], []))
      else if length m = 16 then (ip, if length ip = 4 then drop 12 m else m)
      else ([], []))"

definition IPNet_Contains :: "IPNet \<Rightarrow> net_IP \<Rightarrow> bool" where
  "IPNet_Contains n ip =
     (let (nn, m) = networkNumberAndMask n; x = (if To4 ip \<noteq> [] then To4 ip else ip) in
      length x = length nn \<and> map2 (AND) nn m = map2 (AND) x m)"

definition IPNet_String :: "IPNet \<Rightarrow> string" where
  "IPNet_String n =
     (let (nn, m) = networkNumberAndMask n in
      if nn = [] then ''<nil>''
      else (case mask_length m of
              None \<Rightarrow> IP_String nn @ ''/'' @ hex_string m
            | Some l \<Rightarrow> IP_String nn @ ''/'' @ nat_dec l))"

text \<open>\<open>net.ParseCIDR\<close>: the address in sixteen-byte form and the network it lies in.\<close>

definition ParseCIDR :: "string \<Rightarrow> (net_IP \<times> IPNet) option" where
  "ParseCIDR s =
     (case CutChar s chr_slash of
        None \<Rightarrow> None
      | Some (addr, msk) \<Rightarrow>
          (case ParseAddr addr of
             None \<Rightarrow> None
           | Some bs \<Rightarrow>
               let n = dec_val msk; bits = 8 * length bs;
                   ip16 = (if length bs = 4 then v4InV6Prefix @ bs else bs);
                   m = CIDRMask (int n) bits
               in if msk = [] \<or> (\<exists>c \<in> set msk. \<not> is_digit c) \<or> n > bits then None
                  else Some (ip16, \<lparr>ipn_IP = IP_Mask ip16 m, ipn_Mask = m\<rparr>)))"

section \<open>\<open>math/big\<close> byte conversions\<close>

definition SetBytes :: "byte list \<Rightarrow> nat" where
  "SetBytes bs = foldl (\<lambda>v b. 256 * v + unat b) 0 bs"

fun bytes_be :: "nat \<Rightarrow> nat \<Rightarrow> byte list" where
  "bytes_be 0 v = []"
| "bytes_be (Suc k) v = bytes_be k (v div 256) @ [of_nat (v mod 256)]"

lemma bytes_be_numeral [go_eval]:
  "bytes_be (numeral k) v = bytes_be (pred_numeral k) (v div 256) @ [of_nat (v mod 256)]"
  unfolding numeral_eq_Suc [of k] by (rule bytes_be.simps(2))

lemma length_bytes_be [simp]: "length (bytes_be k v) = k"
  by (induction k v rule: bytes_be.induct) simp_all

text \<open>\<open>Bytes\<close> is the shortest big-endian form, \<open>FillBytes\<close> panics when the value does not fit.\<close>

fun big_Bytes :: "nat \<Rightarrow> byte list" where
  "big_Bytes v = (if v = 0 then [] else big_Bytes (v div 256) @ [of_nat (v mod 256)])"

declare big_Bytes.simps [simp del]

definition FillBytes :: "nat \<Rightarrow> nat \<Rightarrow> byte list go" where
  "FillBytes k v =
     (if v < 256 ^ k then Ok (bytes_be k v)
      else Panic (ExplicitPanic ''math/big: buffer too small to fit value''))"

section \<open>Round trips of the dotted form\<close>

lemma dec_val_Cons_le: "v \<le> foldl (\<lambda>v c. 10 * v + digit_val c) v ds"
proof (induction ds arbitrary: v)
  case (Cons c ds)
  from Cons.IH [of "10 * v + digit_val c"] show ?case by simp
qed simp

lemma parse4_digits:
  "0 < v \<Longrightarrow> \<forall>c \<in> set ds. is_digit c \<Longrightarrow> foldl (\<lambda>v c. 10 * v + digit_val c) v ds \<le> 255 \<Longrightarrow>
   parse4 f v k (ds @ rest) = parse4 f (foldl (\<lambda>v c. 10 * v + digit_val c) v ds) (k + length ds) rest"
proof (induction ds arbitrary: v k)
  case (Cons c ds)
  have "10 * v + digit_val c \<le> 255"
    using Cons.prems(3) dec_val_Cons_le [of "10 * v + digit_val c" ds] by simp
  moreover have "parse4 f (10 * v + digit_val c) (Suc k) (ds @ rest) =
      parse4 f (foldl (\<lambda>v c. 10 * v + digit_val c) (10 * v + digit_val c) ds) (Suc k + length ds) rest"
    by (rule Cons.IH) (use Cons.prems in auto)
  ultimately show ?case using Cons.prems by (simp add: mult.commute [of v])
qed simp

lemma digit_char_eq_zero: "is_digit c \<Longrightarrow> digit_val c = 0 \<Longrightarrow> c = digit_char 0"
proof -
  assume "is_digit c" "digit_val c = 0"
  then have "code_of c = code_of (digit_char 0)" unfolding is_digit_def digit_val_def by simp
  then show ?thesis by (simp add: code_of_def)
qed

lemma parse4_nat_dec:
  "n \<le> 255 \<Longrightarrow> parse4 f 0 0 (nat_dec n @ rest) = parse4 f n (length (nat_dec n)) rest"
proof (cases "n = 0")
  case True
  then show ?thesis by (simp add: nat_dec.simps)
next
  case False
  assume n: "n \<le> 255"
  obtain c ds where cds: "nat_dec n = c # ds" by (metis nat_dec_nonempty list.exhaust)
  have dig: "\<forall>x \<in> set (c # ds). is_digit x" using nat_dec_digits [of _ n] cds by auto
  have val: "foldl (\<lambda>v c. 10 * v + digit_val c) (digit_val c) ds = n"
    using dec_val_nat_dec [of n] cds by (simp add: dec_val_def)
  have pos: "0 < digit_val c"
    using digit_char_eq_zero [of c] hd_nat_dec [of n] dig cds False by fastforce
  show ?thesis
    using dig n val pos digit_val_less [of c] parse4_digits [of "digit_val c" ds f 1 rest]
    by (simp add: cds)
qed

lemma unat_byte_le: "unat (x :: byte) \<le> 255"
proof -
  have "unat x < 2 ^ LENGTH(8)" by (rule unsigned_less)
  then show ?thesis by simp
qed

lemma parse4_dotted:
  "parse4 [] 0 0 (dotted ''.'' a b c d) = Some [a, b, c, d]"
proof -
  note le = unat_byte_le
  have last: "parse4 f 0 0 (nat_dec (unat x)) = parse4 f (unat x) (length (nat_dec (unat x))) []" for f and x :: byte
    using parse4_nat_dec [OF le, of f x "[]"] by simp
  show ?thesis by (simp add: dotted_def parse4_nat_dec [OF le] last)
qed

lemma ParseAddr_dotted: "ParseAddr (dotted ''.'' a b c d) = Some [a, b, c, d]"
proof -
  have "dropWhile (\<lambda>x. x \<noteq> chr_dot \<and> x \<noteq> chr_colon \<and> x \<noteq> CHR ''%'') (nat_dec n @ chr_dot # s) = chr_dot # s" for n s
  proof -
    have "\<not> is_digit (CHR ''%'')" by (simp add: is_digit_def code_of_def)
    then have "\<forall>x \<in> set (nat_dec n). x \<noteq> chr_dot \<and> x \<noteq> chr_colon \<and> x \<noteq> CHR ''%''"
      using nat_dec_digits [of _ n] is_digit_simps(1,2) by blast
    then show ?thesis by (simp add: dropWhile_append2)
  qed
  with parse4_dotted [of a b c d] show ?thesis by (simp add: ParseAddr_def dotted_def)
qed

lemma ParseIP_dotted: "ParseIP (dotted ''.'' a b c d) = net_IPv4 a b c d"
  by (simp add: ParseIP_def ParseAddr_dotted net_IPv4_def)

lemma To4_net_IPv4 [simp]: "To4 (net_IPv4 a b c d) = [a, b, c, d]"
  by (simp add: To4_def net_IPv4_def v4InV6Prefix_def)

lemma To4_four [simp]: "length ip = 4 \<Longrightarrow> To4 ip = ip"
  by (simp add: To4_def)

lemma IP_String_IPv4: "IP_String (net_IPv4 a b c d) = dotted ''.'' a b c d"
proof -
  have "length (net_IPv4 a b c d) = 16" by (simp add: net_IPv4_def v4InV6Prefix_def)
  then show ?thesis by (auto simp: IP_String_def)
qed

lemma dotted_chars: "c \<in> set (dotted ''.'' x y z w) \<Longrightarrow> is_digit c \<or> c = chr_dot"
  by (auto simp: dotted_def dest: nat_dec_digits)

lemma ParseCIDR_dotted:
  assumes "n \<le> 32"
  shows "ParseCIDR (dotted ''.'' a b c d @ ''/'' @ nat_dec n) =
         Some (net_IPv4 a b c d,
               \<lparr>ipn_IP = map2 (AND) [a, b, c, d] (CIDRMask (int n) 32), ipn_Mask = CIDRMask (int n) 32\<rparr>)"
proof -
  have "chr_slash \<notin> set (dotted ''.'' a b c d)" using dotted_chars [of chr_slash a b c d] by auto
  then have "CutChar (dotted ''.'' a b c d @ ''/'' @ nat_dec n) chr_slash = Some (dotted ''.'' a b c d, nat_dec n)"
    by (simp add: CutChar_append)
  moreover have "length (CIDRMask (int n) 32) = 4" using assms by (simp add: CIDRMask_def)
  moreover have "IP_Mask (net_IPv4 a b c d) m = map2 (AND) [a, b, c, d] m" if "length m = 4" for m
    using that by (simp add: IP_Mask_def net_IPv4_def v4InV6Prefix_def)
  ultimately show ?thesis
    using assms nat_dec_digits [of _ n]
    by (auto simp: ParseCIDR_def ParseAddr_dotted Let_def simp flip: net_IPv4_def)
qed

lemmas [go_eval] =
  v4InV6Prefix_def net_IPv4_def To4_def To16_def IP_Equal_def group_bytes_def parse6.simps parse_IPv6_def
  ParseAddr_def ParseIP_def dotted_def string6_def hex_string_def IP_String_def mask_byte_def
  CIDRMask_def byte_ones_def mask_Size_def IP_Mask_def networkNumberAndMask_def
  IPNet_Contains_def IPNet_String_def ParseCIDR_def SetBytes_def big_Bytes.simps FillBytes_def

section \<open>Round trips of the IPv6 form\<close>

definition hex_val :: "string \<Rightarrow> nat \<Rightarrow> nat" where
  "hex_val s acc = foldl (\<lambda>v c. 16 * v + the (hex_digit c)) acc s"

lemma nat_hex_digits: "c \<in> set (nat_hex n) \<Longrightarrow> hex_digit c \<noteq> None"
proof (induction n rule: nat_hex.induct)
  case (1 n)
  then show ?case by (cases "n < 16") (auto simp: nat_hex.simps [of n])
qed

lemma nat_hex_nonempty [simp]: "nat_hex n \<noteq> []"
  by (simp add: nat_hex.simps)

lemma hex_val_nat_hex: "hex_val (nat_hex n) 0 = n"
proof (induction n rule: nat_hex.induct)
  case (1 n)
  then show ?case by (cases "n < 16") (auto simp: nat_hex.simps [of n] hex_val_def)
qed

lemma length_nat_hex_le: "n < 16 ^ Suc k \<Longrightarrow> length (nat_hex n) \<le> Suc k"
proof (induction k arbitrary: n)
  case (Suc k)
  show ?case
  proof (cases "n < 16")
    case False
    have "n div 16 < 16 ^ Suc k" using Suc.prems by (simp add: less_mult_imp_div_less)
    with Suc.IH [of "n div 16"] False show ?thesis by (simp add: nat_hex.simps [of n])
  qed (simp add: nat_hex.simps)
qed (simp add: nat_hex.simps)

lemma hex_group_digits:
  "\<forall>c \<in> set ds. hex_digit c \<noteq> None \<Longrightarrow> off + length ds \<le> 4 \<Longrightarrow> rest = [] \<or> hex_digit (hd rest) = None \<Longrightarrow>
   hex_group off acc (ds @ rest) = Some (off + length ds, hex_val ds acc, rest)"
proof (induction ds arbitrary: off acc)
  case Nil
  then show ?case by (cases rest) (auto simp: hex_val_def)
next
  case (Cons d ds)
  then obtain v where "hex_digit d = Some v" by auto
  with Cons show ?case by (simp add: hex_val_def)
qed

lemma hex_group_nat_hex:
  "w < 65536 \<Longrightarrow> rest = [] \<or> hex_digit (hd rest) = None \<Longrightarrow>
   hex_group 0 0 (nat_hex w @ rest) = Some (length (nat_hex w), w, rest)"
  using hex_group_digits [of "nat_hex w" 0 rest 0] nat_hex_digits [of _ w] length_nat_hex_le [of w 3]
  by (simp add: hex_val_nat_hex)

lemma hd_nat_hex: "hex_digit (hd (nat_hex w @ s)) \<noteq> None"
  using nat_hex_digits [of "hd (nat_hex w)" w] by simp

lemma hex_digit_special [simp]: "hex_digit chr_colon = None" "hex_digit chr_dot = None"
  by (simp_all add: hex_digit_def code_of_def)

lemma hd_nat_hex_ne [simp]: "hd (nat_hex w @ s) \<noteq> chr_colon" "hd (nat_hex w @ s) \<noteq> chr_dot"
  using hd_nat_hex [of w s] by (metis hex_digit_special)+

definition groups_bytes :: "nat list \<Rightarrow> byte list" where
  "groups_bytes ws = concat (map group_bytes ws)"

lemma length_groups_bytes [simp]: "length (groups_bytes ws) = 2 * length ws"
  by (induction ws) (simp_all add: groups_bytes_def)

lemma groups_bytes_Cons [simp]: "groups_bytes (w # ws) = group_bytes w @ groups_bytes ws"
  and groups_bytes_Nil [simp]: "groups_bytes [] = []"
  by (simp_all add: groups_bytes_def)

abbreviation join6 :: "nat list \<Rightarrow> string" where
  "join6 ws \<equiv> JoinStr '':'' (map nat_hex ws)"

lemma join6_Cons2: "join6 (v # w # ws) = nat_hex v @ chr_colon # join6 (w # ws)"
  and join6_single: "join6 [w] = nat_hex w"
  by (simp_all add: JoinStr_def)

lemma hd_join6: "ws \<noteq> [] \<Longrightarrow> join6 ws \<noteq> [] \<and> hd (join6 ws @ s) \<noteq> chr_colon \<and> hd (join6 ws @ s) \<noteq> chr_dot"
proof (cases ws)
  case (Cons w ws')
  then show ?thesis using hd_nat_hex_ne [of w "concat (map (\<lambda>y. '':'' @ y) (map nat_hex ws')) @ s"]
    by (auto simp: JoinStr_def)
qed simp

lemma parse6_last:
  "length bs < 16 \<Longrightarrow> w < 65536 \<Longrightarrow> parse6 bs ell (nat_hex w) = Some (bs @ group_bytes w, ell, [])"
  using hex_group_nat_hex [of w "[]"] by (subst parse6.simps) simp

lemma parse6_group:
  assumes "length bs < 16" "w < 65536" "s \<noteq> []" "hd s \<noteq> chr_colon"
  shows "parse6 bs ell (nat_hex w @ chr_colon # s) = parse6 (bs @ group_bytes w) ell s"
  using assms hex_group_nat_hex [of w "chr_colon # s"] by (subst parse6.simps) simp

lemma parse6_ellipsis:
  assumes "length bs < 16" "w < 65536"
  shows "parse6 bs None (nat_hex w @ chr_colon # chr_colon # s) =
    (if s = [] then Some (bs @ group_bytes w, Some (length bs + 2), [])
     else parse6 (bs @ group_bytes w) (Some (length bs + 2)) s)"
  using assms hex_group_nat_hex [of w "chr_colon # chr_colon # s"] by (subst parse6.simps) simp

lemma parse6_join:
  "ws \<noteq> [] \<Longrightarrow> \<forall>w \<in> set ws. w < 65536 \<Longrightarrow> length bs + 2 * length ws \<le> 16 \<Longrightarrow>
   parse6 bs ell (join6 ws) = Some (bs @ groups_bytes ws, ell, [])"
proof (induction ws arbitrary: bs)
  case (Cons w ws)
  show ?case
  proof (cases ws)
    case Nil
    with Cons.prems show ?thesis by (simp add: JoinStr_def parse6_last)
  next
    case (Cons v vs)
    have "parse6 bs ell (join6 (w # v # vs)) = parse6 (bs @ group_bytes w) ell (join6 (v # vs))"
      unfolding join6_Cons2 using Cons.prems Cons hd_join6 [of "v # vs" "[]"]
      by (intro parse6_group) auto
    also have "\<dots> = Some ((bs @ group_bytes w) @ groups_bytes (v # vs), ell, [])"
      using Cons.IH [of "bs @ group_bytes w"] Cons.prems Cons by simp
    finally show ?thesis by (simp add: Cons)
  qed
qed simp
lemma parse6_join_ellipsis:
  "ws \<noteq> [] \<Longrightarrow> \<forall>w \<in> set ws. w < 65536 \<Longrightarrow> \<forall>w \<in> set rs. w < 65536 \<Longrightarrow>
   length bs + 2 * length ws + 2 * length rs < 16 \<Longrightarrow>
   parse6 bs None (join6 ws @ chr_colon # chr_colon # join6 rs) =
   Some (bs @ groups_bytes ws @ groups_bytes rs, Some (length bs + 2 * length ws), [])"
proof (induction ws arbitrary: bs)
  case (Cons w ws)
  show ?case
  proof (cases ws)
    case Nil
    show ?thesis
    proof (cases "rs = []")
      case True
      with Nil Cons.prems show ?thesis by (simp add: JoinStr_def parse6_ellipsis)
    next
      case False
      have "parse6 bs None (nat_hex w @ chr_colon # chr_colon # join6 rs) =
          parse6 (bs @ group_bytes w) (Some (length bs + 2)) (join6 rs)"
        using Cons.prems Nil hd_join6 [OF False, of "[]"] by (simp add: parse6_ellipsis)
      also have "\<dots> = Some ((bs @ group_bytes w) @ groups_bytes rs, Some (length bs + 2), [])"
        using Cons.prems Nil False by (intro parse6_join) simp_all
      finally show ?thesis using Nil by (simp add: JoinStr_def [of _ "[_]"])
    qed
  next
    case (Cons v vs)
    have "parse6 bs None (join6 (w # v # vs) @ chr_colon # chr_colon # join6 rs) =
        parse6 (bs @ group_bytes w) None (join6 (v # vs) @ chr_colon # chr_colon # join6 rs)"
      unfolding join6_Cons2 append_assoc append_Cons
      using Cons.prems Cons hd_join6 [of "v # vs" "chr_colon # chr_colon # join6 rs"]
      by (intro parse6_group) auto
    also have "\<dots> = Some ((bs @ group_bytes w) @ groups_bytes (v # vs) @ groups_bytes rs,
        Some (length (bs @ group_bytes w) + 2 * length (v # vs)), [])"
      using Cons.IH [of "bs @ group_bytes w"] Cons.prems Cons by simp
    finally show ?thesis by (simp add: Cons)
  qed
qed simp

text \<open>The run of zeros that is left out.\<close>

lemma leading_zeros_le: "leading_zeros ws \<le> length ws"
  by (induction ws) auto

lemma take_leading_zeros: "take (leading_zeros ws) ws = replicate (leading_zeros ws) 0"
  by (induction ws) auto

definition run_ok :: "nat list \<Rightarrow> nat \<times> nat \<Rightarrow> bool" where
  "run_ok ws r \<longleftrightarrow> r = (255, 255) \<or>
     (fst r + 2 \<le> snd r \<and> snd r \<le> length ws \<and> take (snd r - fst r) (drop (fst r) ws) = replicate (snd r - fst r) 0)"

lemma zero_run_ok:
  "run_ok (pre @ ws) best \<Longrightarrow> run_ok (pre @ ws) (zero_run (length pre) ws best)"
proof (induction ws arbitrary: pre best)
  case (Cons w ws)
  let ?l = "leading_zeros (w # ws)"
  have "run_ok (pre @ w # ws) (length pre, length pre + ?l)" if "2 \<le> ?l"
    using that leading_zeros_le [of "w # ws"] take_leading_zeros [of "w # ws"] by (simp add: run_ok_def)
  with Cons.prems have "run_ok ((pre @ [w]) @ ws)
      (if 2 \<le> ?l \<and> snd best - fst best < ?l then (length pre, length pre + ?l) else best)"
    by auto
  from Cons.IH [OF this] show ?case by simp
qed simp

lemma run_ok_split:
  assumes "run_ok ws (zs, ze)" "zs \<noteq> 255"
  shows "ws = take zs ws @ replicate (ze - zs) 0 @ drop ze ws \<and> zs + 2 \<le> ze \<and> ze \<le> length ws"
proof -
  have r: "zs + 2 \<le> ze" "ze \<le> length ws" "take (ze - zs) (drop zs ws) = replicate (ze - zs) 0"
    using assms by (auto simp: run_ok_def)
  have "drop zs ws = take (ze - zs) (drop zs ws) @ drop (ze - zs) (drop zs ws)"
    by (rule append_take_drop_id [symmetric])
  then have "drop zs ws = replicate (ze - zs) 0 @ drop ze ws" using r by simp
  then show ?thesis using r by (metis append_take_drop_id)
qed

lemma groups_bytes_append [simp]: "groups_bytes (a @ b) = groups_bytes a @ groups_bytes b"
  by (simp add: groups_bytes_def)

lemma groups_bytes_zeros: "groups_bytes (replicate k 0) = replicate (2 * k) 0"
  by (induction k) (simp_all add: group_bytes_def)

lemma groups_ip_groups: "even (length bs) \<Longrightarrow> groups_bytes (ip_groups bs) = bs"
proof (induction bs rule: ip_groups.induct)
  case (1 a b bs)
  have "(of_nat ((256 * unat a + unat b) div 256) :: byte) = a" "(of_nat ((256 * unat a + unat b) mod 256) :: byte) = b"
    using unat_byte_le [of b] by (simp_all add: div_plus_div_distrib_dvd_left)
  with 1 show ?case by (simp add: group_bytes_def)
qed simp_all

lemma length_ip_groups: "length (ip_groups bs) = length bs div 2"
  by (induction bs rule: ip_groups.induct) simp_all

lemma ip_groups_bound: "w \<in> set (ip_groups bs) \<Longrightarrow> w < 65536"
proof (induction bs rule: ip_groups.induct)
  case (1 a b bs)
  have "256 * unat a + unat b < 65536" using unat_byte_le [of a] unat_byte_le [of b] by simp
  with 1 show ?case by auto
qed simp_all

lemma take2_join6: "ws \<noteq> [] \<Longrightarrow> take 2 (join6 ws @ s) \<noteq> ''::''"
  using hd_join6 [of ws s] by (cases "join6 ws @ s") auto

lemma join6_chars: "c \<in> set (join6 ws) \<Longrightarrow> hex_digit c \<noteq> None \<or> c = chr_colon"
  by (cases ws) (auto simp: JoinStr_def split: if_splits dest: nat_hex_digits)

lemma string6_chars: "c \<in> set (string6 ws) \<Longrightarrow> hex_digit c \<noteq> None \<or> c = chr_colon"
  using join6_chars by (auto simp: string6_def Let_def split: prod.splits if_splits)

definition lower_hex :: "char list" where
  "lower_hex = ''0123456789abcdef''"

lemma hex_char_lower: "d < 16 \<Longrightarrow> hex_char d \<in> set lower_hex"
  unfolding hex_char_def lower_hex_def by (rule nth_mem) simp

lemma nat_hex_lower: "c \<in> set (nat_hex n) \<Longrightarrow> c \<in> set lower_hex"
proof (induction n rule: nat_hex.induct)
  case (1 n)
  then show ?case
    using hex_char_lower [of n] hex_char_lower [of "n mod 16"]
    by (cases "n < 16") (auto simp: nat_hex.simps [of n])
qed

lemma join6_lower: "c \<in> set (join6 ws) \<Longrightarrow> c \<in> set lower_hex \<or> c = chr_colon"
  by (cases ws) (auto simp: JoinStr_def split: if_splits dest: nat_hex_lower)

lemma string6_lower: "c \<in> set (string6 ws) \<Longrightarrow> c \<in> set lower_hex \<or> c = chr_colon"
  using join6_lower by (auto simp: string6_def Let_def split: prod.splits if_splits)

lemma string6_no_percent: "CHR ''%'' \<notin> set (string6 ws)"
proof -
  have "hex_digit (CHR ''%'') = None" by (simp add: hex_digit_def code_of_def)
  then show ?thesis using string6_chars [of "CHR ''%''" ws] by auto
qed

lemma parse_IPv6_string6:
  assumes len: "length bs = 16"
  shows "parse_IPv6 (string6 (ip_groups bs)) = Some bs"
proof -
  let ?ws = "ip_groups bs"
  have l8: "length ?ws = 8" using len by (simp add: length_ip_groups)
  have b: "\<forall>w \<in> set ?ws. w < 65536" by (blast dest: ip_groups_bound)
  have bs: "groups_bytes ?ws = bs" using len by (simp add: groups_ip_groups)
  obtain zs ze where z: "zero_run 0 ?ws (255, 255) = (zs, ze)" by (cases "zero_run 0 ?ws (255, 255)")
  have run: "run_ok ?ws (zs, ze)" using zero_run_ok [of "[]" ?ws "(255, 255)"] z by (simp add: run_ok_def)
  have np: "CHR ''%'' \<notin> set (string6 ?ws)" by (rule string6_no_percent)
  show ?thesis
  proof (cases "zs = 255")
    case True
    then have s: "string6 ?ws = join6 ?ws" by (simp add: string6_def z)
    have ne: "?ws \<noteq> []" using l8 by auto
    then show ?thesis
      using parse6_join [of ?ws "[]" None] take2_join6 [of ?ws "[]"] np l8 b bs len
      by (simp add: parse_IPv6_def s Let_def)
  next
    case False
    let ?L = "take zs ?ws" and ?R = "drop ze ?ws"
    have sp: "?ws = ?L @ replicate (ze - zs) 0 @ ?R" "zs + 2 \<le> ze" "ze \<le> 8"
      using run_ok_split [OF run False] l8 by simp_all
    have s: "string6 ?ws = join6 ?L @ chr_colon # chr_colon # join6 ?R" using False by (simp add: string6_def z)
    have bsp: "bs = groups_bytes ?L @ replicate (2 * (ze - zs)) 0 @ groups_bytes ?R"
      using bs sp(1) by (metis groups_bytes_append groups_bytes_zeros)
    have bL: "\<forall>w \<in> set ?L. w < 65536" "\<forall>w \<in> set ?R. w < 65536" using b by (meson in_set_takeD in_set_dropD)+
    have lens: "length ?L = zs" "length ?R = 8 - ze" using l8 sp by simp_all
    show ?thesis
    proof (cases "zs = 0")
      case True
      then have s0: "string6 ?ws = ''::'' @ join6 ?R" using s by (simp add: JoinStr_def [of _ "[]"])
      show ?thesis
      proof (cases "?R = []")
        case True
        with \<open>zs = 0\<close> lens sp have "ze = 8" by simp
        with bsp \<open>zs = 0\<close> True have "bs = replicate 16 0" by simp
        with s0 np True show ?thesis by (simp add: parse_IPv6_def JoinStr_def [of _ "[]"] Let_def)
      next
        case R: False
        have "parse6 [] (Some 0) (join6 ?R) = Some (groups_bytes ?R, Some 0, [])"
          using parse6_join [OF R bL(2), of "[]" "Some 0"] lens sp by simp
        moreover have "join6 ?R \<noteq> []" using hd_join6 [OF R, of "[]"] by simp
        moreover have "bs = replicate (16 - 2 * (8 - ze)) 0 @ groups_bytes ?R"
          using bsp \<open>zs = 0\<close> sp by (simp add: right_diff_distrib')
        moreover have "2 * (8 - ze) < 16" using sp by simp
        ultimately show ?thesis using s0 np lens by (simp add: parse_IPv6_def Let_def)
      qed
    next
      case L: False
      then have Lne: "?L \<noteq> []" using lens l8 by auto
      have "parse6 [] None (string6 ?ws) = Some (groups_bytes ?L @ groups_bytes ?R, Some (2 * zs), [])"
        unfolding s using parse6_join_ellipsis [OF Lne bL, of "[]"] lens sp by simp
      moreover have "take 2 (string6 ?ws) \<noteq> ''::''" unfolding s by (rule take2_join6 [OF Lne])
      moreover have "2 * zs + 2 * (8 - ze) < 16" using sp by simp
      moreover have "16 - (2 * zs + 2 * (8 - ze)) = 2 * (ze - zs)" using sp by simp
      ultimately show ?thesis using np lens bsp by (simp add: parse_IPv6_def Let_def)
    qed
  qed
qed

lemma ParseAddr_string6:
  assumes "length bs = 16"
  shows "ParseAddr (string6 (ip_groups bs)) = Some bs"
proof -
  let ?P = "\<lambda>c. c \<noteq> chr_dot \<and> c \<noteq> chr_colon \<and> c \<noteq> CHR ''%''"
  let ?s = "string6 (ip_groups bs)"
  have colon: "chr_colon \<in> set ?s"
  proof -
    have "length (ip_groups bs) = Suc (Suc 6)" using assms by (simp add: length_ip_groups)
    then obtain v w ws where "ip_groups bs = v # w # ws" by (metis length_Suc_conv)
    then have "chr_colon \<in> set (join6 (ip_groups bs))" by (simp add: JoinStr_def)
    moreover obtain zs ze where "zero_run 0 (ip_groups bs) (255, 255) = (zs, ze)"
      by (cases "zero_run 0 (ip_groups bs) (255, 255)")
    ultimately show ?thesis by (simp add: string6_def)
  qed
  then have ne: "dropWhile ?P ?s \<noteq> []" by (auto simp: dropWhile_eq_Nil_conv)
  then obtain c r where d: "dropWhile ?P ?s = c # r" by (cases "dropWhile ?P ?s") auto
  have "\<not> ?P c" using hd_dropWhile [OF ne] d by simp
  moreover have "c \<in> set ?s" using set_dropWhileD [of c ?P ?s] d by simp
  moreover have "chr_dot \<notin> set ?s" using string6_chars [of chr_dot] by auto
  ultimately have "c = chr_colon" using string6_no_percent [of "ip_groups bs"] by auto
  with d show ?thesis using parse_IPv6_string6 [OF assms] by (simp add: ParseAddr_def)
qed

end
