(* ===== verification/IP4_Net.thy ===== *)
theory IP4_Net
  imports Go_Net
begin

text \<open>
  \<open>pkg/ip/ipnet.go\<close> and \<open>pkg/ip/endianess.go\<close>: IPv4 addresses as 32-bit words and IPv4
  networks as an address with a prefix length. \<open>PrefixLen\<close> is a Go \<open>uint\<close>, a 64-bit word:
  the shift counts \<open>32 - PrefixLen\<close> wrap as they do in the code.
\<close>

section \<open>Addresses\<close>

type_synonym IP4 = "32 word"
type_synonym uint = "64 word"

definition FromBytes :: "byte list \<Rightarrow> IP4 go" where
  "FromBytes ip =
     (if length ip < 4 then Panic IndexRange
      else Ok (ucast (ip ! 3) OR push_bit 8 (ucast (ip ! 2)) OR
               push_bit 16 (ucast (ip ! 1)) OR push_bit 24 (ucast (ip ! 0))))"

definition FromIP :: "net_IP \<Rightarrow> IP4 go" where
  "FromIP ip =
     (if To4 ip = [] then Panic (ExplicitPanic ''Address is not an IPv4 address'')
      else FromBytes (To4 ip))"

definition ParseIP4 :: "string \<Rightarrow> IP4 go" where
  "ParseIP4 s =
     (if ParseIP s = [] then Err (ErrorString ''invalid IP address format'')
      else if To4 (ParseIP s) = [] then Err (ErrorString ''invalid IPv4 address format'')
      else FromIP (ParseIP s))"

definition MustParseIP4 :: "string \<Rightarrow> IP4 go" where
  "MustParseIP4 s =
     (case ParseIP4 s of Err e \<Rightarrow> Panic (ExplicitPanic ''ParseIP4'') | r \<Rightarrow> r)"

definition Octets :: "IP4 \<Rightarrow> byte \<times> byte \<times> byte \<times> byte" where
  "Octets ip = (ucast (drop_bit 24 ip), ucast (drop_bit 16 ip), ucast (drop_bit 8 ip), ucast ip)"

definition IP4_ToIP :: "IP4 \<Rightarrow> net_IP" where
  "IP4_ToIP ip = (case Octets ip of (a, b, c, d) \<Rightarrow> net_IPv4 a b c d)"

text \<open>Whether the machine is little-endian is a property of the host, here an argument.\<close>

definition NetworkOrder :: "bool \<Rightarrow> IP4 \<Rightarrow> 32 word" where
  "NetworkOrder NativelyLittle ip =
     (if NativelyLittle then
        (case Octets ip of (a, b, c, d) \<Rightarrow>
           ucast a OR push_bit 8 (ucast b) OR push_bit 16 (ucast c) OR push_bit 24 (ucast d))
      else ip)"

definition IP4_String :: "IP4 \<Rightarrow> string" where
  "IP4_String ip = IP_String (IP4_ToIP ip)"

definition IP4_StringSep :: "IP4 \<Rightarrow> string \<Rightarrow> string" where
  "IP4_StringSep ip sep = (case Octets ip of (a, b, c, d) \<Rightarrow> dotted sep a b c d)"

definition quoted :: "string \<Rightarrow> string" where
  "quoted s = chr_quote # s @ [chr_quote]"

definition IP4_MarshalJSON :: "IP4 \<Rightarrow> string" where
  "IP4_MarshalJSON ip = quoted (IP4_String ip)"

definition IP4_UnmarshalJSON :: "string \<Rightarrow> IP4 go" where
  "IP4_UnmarshalJSON j = ParseIP4 (Trim j [chr_quote])"

definition IP4_IsPrivate :: "IP4 \<Rightarrow> bool" where
  "IP4_IsPrivate ip =
     (case Octets ip of (a, b, _, _) \<Rightarrow>
        a = 10 \<or> (a = 172 \<and> b AND 0xf0 = 16) \<or> (a = 192 \<and> b = 168))"

section \<open>Networks\<close>

record IP4Net =
  ip4_IP :: IP4
  ip4_PrefixLen :: uint

definition IP4Net_String :: "IP4Net \<Rightarrow> string" where
  "IP4Net_String n = IP4_String (ip4_IP n) @ ''/'' @ nat_dec (unat (ip4_PrefixLen n))"

definition IP4Net_StringSep :: "IP4Net \<Rightarrow> string \<Rightarrow> string \<Rightarrow> string" where
  "IP4Net_StringSep n octetSep prefixSep =
     IP4_StringSep (ip4_IP n) octetSep @ prefixSep @ nat_dec (unat (ip4_PrefixLen n))"

definition MapIP4ToString :: "IP4Net list \<Rightarrow> string list" where
  "MapIP4ToString nws = map IP4Net_String nws"

definition IP4Net_Mask :: "IP4Net \<Rightarrow> 32 word" where
  "IP4Net_Mask n = push_bit (unat (32 - ip4_PrefixLen n)) 0xFFFFFFFF"

definition IP4Net_Network :: "IP4Net \<Rightarrow> IP4Net" where
  "IP4Net_Network n = \<lparr>ip4_IP = ip4_IP n AND IP4Net_Mask n, ip4_PrefixLen = ip4_PrefixLen n\<rparr>"

definition IP4Net_Next :: "IP4Net \<Rightarrow> IP4Net" where
  "IP4Net_Next n =
     \<lparr>ip4_IP = ip4_IP n + push_bit (unat (32 - ip4_PrefixLen n)) 1,
      ip4_PrefixLen = ip4_PrefixLen n\<rparr>"

definition IP4Net_IncrementIP :: "IP4Net \<Rightarrow> IP4Net" where
  "IP4Net_IncrementIP n = n\<lparr>ip4_IP := ip4_IP n + 1\<rparr>"

definition FromIPNet :: "IPNet \<Rightarrow> IP4Net go" where
  "FromIPNet n =
     (case FromIP (ipn_IP n) of
        Ok ip \<Rightarrow> Ok \<lparr>ip4_IP = ip, ip4_PrefixLen = of_nat (fst (mask_Size (ipn_Mask n)))\<rparr>
      | Err e \<Rightarrow> Err e
      | Panic p \<Rightarrow> Panic p)"

definition IP4Net_ToIPNet :: "IP4Net \<Rightarrow> IPNet" where
  "IP4Net_ToIPNet n =
     \<lparr>ipn_IP = IP4_ToIP (ip4_IP n), ipn_Mask = CIDRMask (sint (ip4_PrefixLen n)) 32\<rparr>"

definition IP4Net_Overlaps :: "IP4Net \<Rightarrow> IP4Net \<Rightarrow> bool" where
  "IP4Net_Overlaps n other =
     (let m = (if ip4_PrefixLen n < ip4_PrefixLen other then IP4Net_Mask n else IP4Net_Mask other) in
      ip4_IP n AND m = ip4_IP other AND m)"

definition IP4Net_Equal :: "IP4Net \<Rightarrow> IP4Net \<Rightarrow> bool" where
  "IP4Net_Equal n other \<longleftrightarrow>
     ip4_IP n = ip4_IP other \<and> ip4_PrefixLen n = ip4_PrefixLen other"

definition IP4Net_Contains :: "IP4Net \<Rightarrow> IP4 \<Rightarrow> bool" where
  "IP4Net_Contains n ip \<longleftrightarrow> ip4_IP n AND IP4Net_Mask n = ip AND IP4Net_Mask n"

definition IP4Net_ContainsCIDR :: "IP4Net \<Rightarrow> IP4Net \<Rightarrow> bool" where
  "IP4Net_ContainsCIDR n other \<longleftrightarrow>
     IP4Net_Mask n \<le> IP4Net_Mask other \<and> IP4Net_Contains n (ip4_IP other)"

definition IP4Net_Empty :: "IP4Net \<Rightarrow> bool" where
  "IP4Net_Empty n \<longleftrightarrow> ip4_IP n = 0 \<and> ip4_PrefixLen n = 0"

definition IP4Net_MarshalJSON :: "IP4Net \<Rightarrow> string" where
  "IP4Net_MarshalJSON n = quoted (IP4Net_String n)"

definition IP4Net_UnmarshalJSON :: "string \<Rightarrow> IP4Net go" where
  "IP4Net_UnmarshalJSON j =
     (case ParseCIDR (Trim j [chr_quote]) of
        None \<Rightarrow> Err (ErrorString ''invalid CIDR address'')
      | Some (_, val) \<Rightarrow>
          if To4 (ipn_IP val) = [] then Err (ErrorString ''invalid IPv4 CIDR format'')
          else FromIPNet val)"

abbreviation empty_IP4Net :: IP4Net where
  "empty_IP4Net \<equiv> \<lparr>ip4_IP = 0, ip4_PrefixLen = 0\<rparr>"

lemmas [go_eval] =
  FromBytes_def FromIP_def ParseIP4_def Octets_def IP4_ToIP_def NetworkOrder_def IP4_String_def
  IP4_StringSep_def quoted_def IP4_MarshalJSON_def IP4_UnmarshalJSON_def IP4_IsPrivate_def
  IP4Net_String_def IP4Net_StringSep_def IP4Net_Mask_def IP4Net_Network_def IP4Net_Next_def
  IP4Net_IncrementIP_def FromIPNet_def IP4Net_ToIPNet_def IP4Net_Overlaps_def IP4Net_Equal_def
  IP4Net_Contains_def IP4Net_ContainsCIDR_def IP4Net_Empty_def IP4Net_MarshalJSON_def
  IP4Net_UnmarshalJSON_def

section \<open>Networks as aligned blocks of addresses\<close>

text \<open>
  A network with at most 32 prefix bits stands for the aligned block of \<open>2 ^ (32 - PrefixLen)\<close>
  addresses around its address.
\<close>

definition ip4_wf :: "IP4Net \<Rightarrow> bool" where
  "ip4_wf n \<longleftrightarrow> ip4_PrefixLen n \<le> 32"

definition ip4_bits :: "IP4Net \<Rightarrow> nat" where
  "ip4_bits n = 32 - unat (ip4_PrefixLen n)"

definition ip4_base :: "IP4Net \<Rightarrow> nat" where
  "ip4_base n = unat (ip4_IP n) div 2 ^ ip4_bits n * 2 ^ ip4_bits n"

definition ip4_addrs :: "IP4Net \<Rightarrow> IP4 set" where
  "ip4_addrs n = {ip. ip4_base n \<le> unat ip \<and> unat ip < ip4_base n + 2 ^ ip4_bits n}"

lemma ip4_bits_le [simp]: "ip4_bits n \<le> 32"
  by (simp add: ip4_bits_def)

lemma shift_count: "(p :: uint) \<le> 32 \<Longrightarrow> unat (32 - p) = 32 - unat p"
  by (simp add: unat_sub)

lemma unat_uint_le: "(p :: uint) \<le> 32 \<longleftrightarrow> unat p \<le> 32"
  by (simp add: word_le_nat_alt)

lemma Mask_wf: "ip4_wf n \<Longrightarrow> IP4Net_Mask n = NOT (mask (ip4_bits n))"
proof -
  assume "ip4_wf n"
  then have "IP4Net_Mask n = push_bit (ip4_bits n) (0xFFFFFFFF :: 32 word)"
    by (simp add: IP4Net_Mask_def ip4_wf_def ip4_bits_def shift_count)
  moreover have "(0xFFFFFFFF :: 32 word) = - 1" by simp
  ultimately show ?thesis by (simp only: push_bit_minus_one_eq_not_mask)
qed

lemma Contains_div:
  "ip4_wf n \<Longrightarrow>
   IP4Net_Contains n ip \<longleftrightarrow> unat (ip4_IP n) div 2 ^ ip4_bits n = unat ip div 2 ^ ip4_bits n"
  by (simp only: IP4Net_Contains_def Mask_wf and_not_mask_eq_iff)

lemma in_ip4_addrs_div:
  "ip \<in> ip4_addrs n \<longleftrightarrow> unat (ip4_IP n) div 2 ^ ip4_bits n = unat ip div 2 ^ ip4_bits n"
  by (simp add: ip4_addrs_def ip4_base_def same_block_iff)

lemma self_in_ip4_addrs [simp]: "ip4_IP n \<in> ip4_addrs n"
  by (simp add: in_ip4_addrs_div)

lemma div_coarser:
  "(k::nat) \<le> l \<Longrightarrow> x div 2 ^ k = y div 2 ^ k \<Longrightarrow> (x::nat) div 2 ^ l = y div 2 ^ l"
  by (metis div_exp_eq le_add_diff_inverse)

lemma Overlaps_div:
  assumes "ip4_wf n" "ip4_wf m"
  shows "IP4Net_Overlaps n m \<longleftrightarrow>
         unat (ip4_IP n) div 2 ^ max (ip4_bits n) (ip4_bits m)
         = unat (ip4_IP m) div 2 ^ max (ip4_bits n) (ip4_bits m)"
proof (cases "ip4_PrefixLen n < ip4_PrefixLen m")
  case True
  then have "max (ip4_bits n) (ip4_bits m) = ip4_bits n"
    by (simp add: ip4_bits_def max_def word_less_nat_alt)
  with True assms show ?thesis
    by (simp only: IP4Net_Overlaps_def Let_def if_True Mask_wf and_not_mask_eq_iff)
next
  case False
  then have "max (ip4_bits n) (ip4_bits m) = ip4_bits m"
    by (simp add: ip4_bits_def max_def word_less_nat_alt)
  with False assms show ?thesis
    by (simp only: IP4Net_Overlaps_def Let_def if_False Mask_wf and_not_mask_eq_iff)
qed

lemma overlap_blocks:
  "unat (ip4_IP n) div 2 ^ max (ip4_bits n) (ip4_bits m)
   = unat (ip4_IP m) div 2 ^ max (ip4_bits n) (ip4_bits m) \<longleftrightarrow>
   ip4_addrs n \<inter> ip4_addrs m \<noteq> {}"
proof
  let ?k = "max (ip4_bits n) (ip4_bits m)"
  assume eq: "unat (ip4_IP n) div 2 ^ ?k = unat (ip4_IP m) div 2 ^ ?k"
  show "ip4_addrs n \<inter> ip4_addrs m \<noteq> {}"
  proof (cases "ip4_bits n \<le> ip4_bits m")
    case True
    with eq have "ip4_IP n \<in> ip4_addrs m" by (simp add: in_ip4_addrs_div max_def)
    then show ?thesis using self_in_ip4_addrs by blast
  next
    case False
    with eq have "ip4_IP m \<in> ip4_addrs n" by (simp add: in_ip4_addrs_div max_def)
    then show ?thesis using self_in_ip4_addrs by blast
  qed
next
  let ?k = "max (ip4_bits n) (ip4_bits m)"
  assume "ip4_addrs n \<inter> ip4_addrs m \<noteq> {}"
  then obtain w where "w \<in> ip4_addrs n" "w \<in> ip4_addrs m" by auto
  then have "unat (ip4_IP n) div 2 ^ ?k = unat w div 2 ^ ?k"
    "unat (ip4_IP m) div 2 ^ ?k = unat w div 2 ^ ?k"
    unfolding in_ip4_addrs_div by (auto intro: div_coarser [OF max.cobounded1] div_coarser [OF max.cobounded2])
  then show "unat (ip4_IP n) div 2 ^ ?k = unat (ip4_IP m) div 2 ^ ?k" by simp
qed

lemma Overlaps_sym:
  "ip4_wf n \<Longrightarrow> ip4_wf m \<Longrightarrow> IP4Net_Overlaps n m \<longleftrightarrow> IP4Net_Overlaps m n"
  by (auto simp: Overlaps_div max.commute)

lemma Overlaps_refl [simp]: "IP4Net_Overlaps n n"
  by (simp add: IP4Net_Overlaps_def)

lemma Mask_le_iff:
  assumes "ip4_wf n" "ip4_wf m"
  shows "IP4Net_Mask n \<le> IP4Net_Mask m \<longleftrightarrow> ip4_bits m \<le> ip4_bits n"
proof -
  have p: "2 ^ ip4_bits x \<le> (2::nat) ^ 32" for x by (rule power_increasing) simp_all
  have "IP4Net_Mask n \<le> IP4Net_Mask m \<longleftrightarrow> (2::nat) ^ 32 - 2 ^ ip4_bits n \<le> 2 ^ 32 - 2 ^ ip4_bits m"
    using assms by (simp only: Mask_wf word_le_nat_alt unat_not_mask len_num1 len_bit0 len_bit1
        ip4_bits_le mult_1_right Suc_1) (simp add: unat_not_mask)
  also have "\<dots> \<longleftrightarrow> (2::nat) ^ ip4_bits m \<le> 2 ^ ip4_bits n"
    using p [of n] p [of m] by linarith
  finally show ?thesis by simp
qed

lemma unat_of_nat_32: "x < 2 ^ 32 \<Longrightarrow> unat (of_nat x :: 32 word) = x"
  by (simp add: unat_of_nat)

lemma ip4_base_bound: "ip4_base n + 2 ^ ip4_bits n \<le> 2 ^ 32"
proof -
  let ?k = "ip4_bits n"
  have e: "(2::nat) ^ 32 = 2 ^ (32 - ?k) * 2 ^ ?k" by (simp flip: power_add)
  have "unat (ip4_IP n) < 2 ^ (32 - ?k) * 2 ^ ?k"
    using unsigned_less [of "ip4_IP n"] by (simp flip: power_add)
  then have "unat (ip4_IP n) div 2 ^ ?k < 2 ^ (32 - ?k)" by (rule less_mult_imp_div_less)
  then have "(unat (ip4_IP n) div 2 ^ ?k + 1) * 2 ^ ?k \<le> 2 ^ (32 - ?k) * 2 ^ ?k"
    by (intro mult_right_mono) simp_all
  then show ?thesis unfolding ip4_base_def e by simp
qed

lemma subset_blocks_iff:
  assumes "ip4_wf n" "ip4_wf m"
  shows "ip4_addrs m \<subseteq> ip4_addrs n \<longleftrightarrow> ip4_bits m \<le> ip4_bits n \<and> ip4_IP m \<in> ip4_addrs n"
proof
  assume sub: "ip4_addrs m \<subseteq> ip4_addrs n"
  have "ip4_bits m \<le> ip4_bits n"
  proof (rule ccontr)
    assume "\<not> ip4_bits m \<le> ip4_bits n"
    then have lt: "(2::nat) ^ ip4_bits n < 2 ^ ip4_bits m" by simp
    have m32: "ip4_base m + 2 ^ ip4_bits m \<le> 2 ^ 32" by (rule ip4_base_bound)
    define lo hi where "lo = (of_nat (ip4_base m) :: IP4)" and "hi = (of_nat (ip4_base m + 2 ^ ip4_bits n) :: IP4)"
    have "ip4_base m < 2 ^ 32" "ip4_base m + 2 ^ ip4_bits n < 2 ^ 32" using m32 lt by linarith+
    then have "unat lo = ip4_base m" "unat hi = ip4_base m + 2 ^ ip4_bits n"
      unfolding lo_def hi_def by (intro unat_of_nat_32; simp)+
    with lt have "lo \<in> ip4_addrs m" "hi \<in> ip4_addrs m" by (simp_all add: ip4_addrs_def)
    with sub have "lo \<in> ip4_addrs n" "hi \<in> ip4_addrs n" by blast+
    then show False using \<open>unat lo = _\<close> \<open>unat hi = _\<close> by (auto simp: ip4_addrs_def)
  qed
  with sub show "ip4_bits m \<le> ip4_bits n \<and> ip4_IP m \<in> ip4_addrs n" by auto
next
  assume "ip4_bits m \<le> ip4_bits n \<and> ip4_IP m \<in> ip4_addrs n"
  then show "ip4_addrs m \<subseteq> ip4_addrs n"
    by (auto simp: in_ip4_addrs_div dest: div_coarser)
qed

lemma wf_Network [simp]: "ip4_wf (IP4Net_Network n) \<longleftrightarrow> ip4_wf n"
  and wf_Next [simp]: "ip4_wf (IP4Net_Next n) \<longleftrightarrow> ip4_wf n"
  by (simp_all add: ip4_wf_def IP4Net_Network_def IP4Net_Next_def)

lemma bits_Network [simp]: "ip4_bits (IP4Net_Network n) = ip4_bits n"
  and bits_Next [simp]: "ip4_bits (IP4Net_Next n) = ip4_bits n"
  by (simp_all add: ip4_bits_def IP4Net_Network_def IP4Net_Next_def)

lemma Network_base: "ip4_wf n \<Longrightarrow> unat (ip4_IP (IP4Net_Network n)) = ip4_base n"
  by (simp add: IP4Net_Network_def Mask_wf unat_and_not_mask ip4_base_def)

lemma base_Network [simp]: "ip4_wf n \<Longrightarrow> ip4_base (IP4Net_Network n) = ip4_base n"
  by (simp add: ip4_base_def Network_base)

lemma addrs_Network [simp]: "ip4_wf n \<Longrightarrow> ip4_addrs (IP4Net_Network n) = ip4_addrs n"
  by (simp add: ip4_addrs_def)

lemma Network_idem [simp]: "IP4Net_Network (IP4Net_Network n) = IP4Net_Network n"
  by (simp add: IP4Net_Network_def IP4Net_Mask_def and.assoc)

definition ip4_aligned :: "IP4Net \<Rightarrow> bool" where
  "ip4_aligned n \<longleftrightarrow> IP4Net_Network n = n"

lemma aligned_iff: "ip4_wf n \<Longrightarrow> ip4_aligned n \<longleftrightarrow> 2 ^ ip4_bits n dvd unat (ip4_IP n)"
proof -
  assume wf: "ip4_wf n"
  have "ip4_aligned n \<longleftrightarrow> ip4_IP (IP4Net_Network n) = ip4_IP n"
    unfolding ip4_aligned_def by (cases n) (simp add: IP4Net_Network_def)
  also have "\<dots> \<longleftrightarrow> ip4_base n = unat (ip4_IP n)"
    using Network_base [OF wf] by (simp add: word_unat_eq_iff)
  finally show ?thesis unfolding ip4_base_def by (metis dvd_div_mult_self dvd_triv_right)
qed

lemma aligned_base: "ip4_wf n \<Longrightarrow> ip4_aligned n \<Longrightarrow> ip4_base n = unat (ip4_IP n)"
  by (metis Network_base ip4_aligned_def)

lemma Next_step_word: "ip4_wf n \<Longrightarrow> ip4_IP (IP4Net_Next n) = ip4_IP n + of_nat (2 ^ ip4_bits n)"
  by (simp add: IP4Net_Next_def ip4_wf_def ip4_bits_def shift_count push_bit_eq_mult)

lemma unat_add_of_nat_32: "unat (a + of_nat k :: 32 word) = (unat a + k) mod 2 ^ 32"
proof -
  have "unat (a + of_nat k :: 32 word) = (unat a + unat (of_nat k :: 32 word)) mod 2 ^ 32"
    using unat_word_ariths(1) [of a "of_nat k"] by simp
  then show ?thesis by (simp add: unat_of_nat mod_add_right_eq)
qed

lemma unat_Next:
  "ip4_wf n \<Longrightarrow> unat (ip4_IP (IP4Net_Next n)) = (unat (ip4_IP n) + 2 ^ ip4_bits n) mod 2 ^ 32"
  by (simp only: Next_step_word unat_add_of_nat_32)

lemma aligned_Next: "ip4_wf n \<Longrightarrow> ip4_aligned n \<Longrightarrow> ip4_aligned (IP4Net_Next n)"
proof -
  assume wf: "ip4_wf n" and al: "ip4_aligned n"
  have "(2::nat) ^ ip4_bits n dvd 2 ^ 32" by (rule le_imp_power_dvd) simp
  with wf al show ?thesis by (simp add: aligned_iff unat_Next dvd_mod)
qed

section \<open>Round trips of the textual forms\<close>

definition octets_word :: "byte \<Rightarrow> byte \<Rightarrow> byte \<Rightarrow> byte \<Rightarrow> IP4" where
  "octets_word a b c d =
     ucast d OR push_bit 8 (ucast c) OR push_bit 16 (ucast b) OR push_bit 24 (ucast a)"

lemma bit_byte_less: "bit (w :: byte) n \<Longrightarrow> n < 8"
  using bit_imp_le_length [of w n] by simp

lemma bit_octets_word:
  "bit (octets_word a b c d) n \<longleftrightarrow>
     (if n < 8 then bit d n else if n < 16 then bit c (n - 8)
      else if n < 24 then bit b (n - 16) else n < 32 \<and> bit a (n - 24))"
  unfolding octets_word_def by (auto simp: bit_simps dest: bit_byte_less)

lemma FromBytes_four: "FromBytes [a, b, c, d] = Ok (octets_word a b c d)"
  by (simp add: FromBytes_def octets_word_def)

lemma octets_word_Octets: "Octets ip = (a, b, c, d) \<Longrightarrow> octets_word a b c d = ip"
  by (rule bit_word_eqI) (auto simp: bit_octets_word Octets_def bit_simps)

lemma Octets_octets_word [simp]: "Octets (octets_word a b c d) = (a, b, c, d)"
  by (auto simp: Octets_def bit_octets_word bit_simps intro!: bit_word_eqI dest: bit_byte_less)

lemma octets_word_AND:
  "octets_word (a AND e) (b AND f) (c AND g) (d AND h) = octets_word a b c d AND octets_word e f g h"
  by (rule bit_word_eqI) (simp add: bit_octets_word bit_and_iff)

lemma Octets_cases: obtains a b c d where "Octets ip = (a, b, c, d)" "ip = octets_word a b c d"
  by (metis octets_word_Octets prod_cases4)

lemma FromIP_ToIP [simp]: "FromIP (IP4_ToIP ip) = Ok ip"
  by (cases ip rule: Octets_cases) (simp add: FromIP_def IP4_ToIP_def FromBytes_four)

lemma IP4_String_dotted: "Octets ip = (a, b, c, d) \<Longrightarrow> IP4_String ip = dotted ''.'' a b c d"
  by (simp add: IP4_String_def IP4_ToIP_def IP_String_IPv4)

lemma ParseIP4_String [simp]: "ParseIP4 (IP4_String ip) = Ok ip"
proof (cases ip rule: Octets_cases)
  case (1 a b c d)
  have "net_IPv4 a b c d \<noteq> []" by (simp add: net_IPv4_def)
  with 1 FromIP_ToIP [of ip] show ?thesis
    by (simp add: ParseIP4_def IP4_String_dotted ParseIP_dotted IP4_ToIP_def)
qed

lemma IP4_String_chars: "c \<in> set (IP4_String ip) \<Longrightarrow> is_digit c \<or> c = chr_dot"
  by (cases ip rule: Octets_cases) (auto simp: IP4_String_dotted dest: dotted_chars)

lemma IP4Net_String_chars: "c \<in> set (IP4Net_String n) \<Longrightarrow> is_digit c \<or> c = chr_dot \<or> c = chr_slash"
  by (auto simp: IP4Net_String_def dest: IP4_String_chars nat_dec_digits)

lemma Trim_quoted: "chr_quote \<notin> set s \<Longrightarrow> Trim (quoted s) [chr_quote] = s"
proof (cases "s = []")
  case False
  assume q: "chr_quote \<notin> set s"
  have "dropWhile (\<lambda>c. c = chr_quote) (t @ u) = t @ u" if "t \<noteq> []" "chr_quote \<notin> set t" for t u
    using that by (cases t) auto
  from this [OF False q, of "[chr_quote]"] this [of "rev s" "[]"] False q
  show ?thesis by (simp add: Trim_def quoted_def)
qed (simp add: Trim_def quoted_def)

definition upto_32 :: "nat list" where
  "upto_32 = [0, 1, 2, 3, 4, 5, 6, 7, 8, 9, 10, 11, 12, 13, 14, 15, 16, 17, 18, 19, 20, 21, 22, 23,
     24, 25, 26, 27, 28, 29, 30, 31, 32]"

lemma in_upto_32: "p \<le> 32 \<Longrightarrow> p \<in> set upto_32"
  unfolding upto_32_def by (simp; presburger)

lemma CIDRMask_32:
  assumes "p \<le> 32"
  shows "\<exists>a b c d. CIDRMask (int p) 32 = [a, b, c, d] \<and> mask_Size [a, b, c, d] = (p, 32) \<and>
           octets_word a b c d = push_bit (32 - p) 0xFFFFFFFF"
proof -
  have "\<forall>p \<in> set upto_32. \<exists>a b c d. CIDRMask (int p) 32 = [a, b, c, d] \<and>
          mask_Size [a, b, c, d] = (p, 32) \<and> octets_word a b c d = push_bit (32 - p) 0xFFFFFFFF"
    by (simp add: upto_32_def go_eval octets_word_def)
  with in_upto_32 [OF assms] show ?thesis by blast
qed

lemma FromIP_four: "FromIP [a, b, c, d] = Ok (octets_word a b c d)"
  by (simp add: FromIP_def FromBytes_four)

lemma ParseCIDR_IP4Net:
  assumes "ip4_wf n"
  shows "\<exists>ip val. ParseCIDR (IP4Net_String n) = Some (ip, val) \<and> length (ipn_IP val) = 4 \<and>
           ip = IP4_ToIP (ip4_IP n) \<and> FromIPNet val = Ok (IP4Net_Network n)"
proof (cases "ip4_IP n" rule: Octets_cases)
  case (1 a b c d)
  let ?p = "unat (ip4_PrefixLen n)"
  have p: "?p \<le> 32" using assms by (simp add: ip4_wf_def unat_uint_le)
  obtain e f g h where m: "CIDRMask (int ?p) 32 = [e, f, g, h]" "mask_Size [e, f, g, h] = (?p, 32)"
    "octets_word e f g h = push_bit (32 - ?p) 0xFFFFFFFF"
    using CIDRMask_32 [OF p] by blast
  have "IP4Net_Mask n = octets_word e f g h"
    using assms m(3) by (simp add: IP4Net_Mask_def ip4_wf_def shift_count)
  then have "FromIPNet \<lparr>ipn_IP = map2 (AND) [a, b, c, d] [e, f, g, h], ipn_Mask = [e, f, g, h]\<rparr>
      = Ok (IP4Net_Network n)"
    using m(2) 1(2) by (simp add: FromIPNet_def FromIP_four octets_word_AND IP4Net_Network_def)
  moreover have "ParseCIDR (IP4Net_String n) = Some (IP4_ToIP (ip4_IP n),
      \<lparr>ipn_IP = map2 (AND) [a, b, c, d] [e, f, g, h], ipn_Mask = [e, f, g, h]\<rparr>)"
    unfolding IP4Net_String_def IP4_String_dotted [OF 1(1)] ParseCIDR_dotted [OF p] m(1) IP4_ToIP_def 1(1)
    by simp
  ultimately show ?thesis by auto
qed

lemma Unmarshal_Marshal_IP4Net:
  assumes "ip4_wf n"
  shows "IP4Net_UnmarshalJSON (IP4Net_MarshalJSON n) = Ok (IP4Net_Network n)"
proof -
  obtain ip val where v: "ParseCIDR (IP4Net_String n) = Some (ip, val)" "length (ipn_IP val) = 4"
    "FromIPNet val = Ok (IP4Net_Network n)" using ParseCIDR_IP4Net [OF assms] by blast
  have "chr_quote \<notin> set (IP4Net_String n)" using IP4Net_String_chars [of chr_quote n] by auto
  moreover have "ipn_IP val \<noteq> []" using v(2) by auto
  ultimately show ?thesis
    using v by (simp add: IP4Net_UnmarshalJSON_def IP4Net_MarshalJSON_def Trim_quoted)
qed

lemma IP4Net_String_inject:
  assumes "IP4Net_String n = IP4Net_String m"
  shows "n = m"
proof -
  have nosl: "chr_slash \<notin> set (IP4_String x)" for x using IP4_String_chars [of chr_slash x] by auto
  have "CutChar (IP4Net_String x) chr_slash = Some (IP4_String (ip4_IP x), nat_dec (unat (ip4_PrefixLen x)))" for x
    by (simp add: IP4Net_String_def CutChar_append nosl)
  with assms have eqs: "IP4_String (ip4_IP n) = IP4_String (ip4_IP m)" "unat (ip4_PrefixLen n) = unat (ip4_PrefixLen m)"
    by (metis Pair_inject option.inject, metis Pair_inject option.inject nat_dec_inject)
  have "ip4_IP n = ip4_IP m" using eqs(1) ParseIP4_String by (metis go.inject(1))
  with eqs(2) show ?thesis by (cases n, cases m) (simp add: word_unat_eq_iff)
qed

lemma base_Next:
  assumes "ip4_wf n"
  shows "ip4_base (IP4Net_Next n) = (ip4_base n + 2 ^ ip4_bits n) mod 2 ^ 32"
proof -
  let ?k = "ip4_bits n" and ?x = "unat (ip4_IP n)"
  have e: "(2::nat) ^ 32 = 2 ^ (32 - ?k) * 2 ^ ?k" by (simp flip: power_add)
  have "(?x + 2 ^ ?k) mod (2 ^ ?k * 2 ^ (32 - ?k)) div 2 ^ ?k = (?x + 2 ^ ?k) div 2 ^ ?k mod 2 ^ (32 - ?k)"
    by (simp only: mod_mult2_eq) simp
  moreover have "(?x + 2 ^ ?k) div 2 ^ ?k = ?x div 2 ^ ?k + 1" by (rule div_add_self2) simp
  ultimately have "ip4_base (IP4Net_Next n) = (?x div 2 ^ ?k + 1) mod 2 ^ (32 - ?k) * 2 ^ ?k"
    unfolding ip4_base_def bits_Next unat_Next [OF assms] e by (simp add: mult.commute)
  also have "\<dots> = ((?x div 2 ^ ?k + 1) * 2 ^ ?k) mod (2 ^ (32 - ?k) * 2 ^ ?k)"
    by (rule mult_mod_left)
  also have "\<dots> = (ip4_base n + 2 ^ ?k) mod 2 ^ 32" unfolding e ip4_base_def by (simp add: algebra_simps)
  finally show ?thesis .
qed
section \<open>Properties\<close>

text \<open>
  C15. For networks with at most 32 prefix bits, \<open>Overlaps\<close> holds exactly when some address
  belongs to both networks, whichever of the two is the larger.
\<close>

theorem overlaps_iff_common_address:
  assumes "ip4_wf n" "ip4_wf m"
  shows "IP4Net_Overlaps n m \<longleftrightarrow> (\<exists>ip. IP4Net_Contains n ip \<and> IP4Net_Contains m ip)"
  using overlap_blocks [of n m] unfolding Overlaps_div [OF assms]
  by (auto simp: Contains_div [OF assms(1)] Contains_div [OF assms(2)] in_ip4_addrs_div)

theorem overlaps_iff_common_address_witness:
  "IP4Net_Overlaps \<lparr>ip4_IP = 0x0a010000, ip4_PrefixLen = 16\<rparr> \<lparr>ip4_IP = 0x0a010203, ip4_PrefixLen = 24\<rparr> \<and>
   (\<exists>ip. IP4Net_Contains \<lparr>ip4_IP = 0x0a010000, ip4_PrefixLen = 16\<rparr> ip \<and>
         IP4Net_Contains \<lparr>ip4_IP = 0x0a010203, ip4_PrefixLen = 24\<rparr> ip) \<and>
   \<not> IP4Net_Overlaps \<lparr>ip4_IP = 0x0a010000, ip4_PrefixLen = 16\<rparr> \<lparr>ip4_IP = 0x0a020203, ip4_PrefixLen = 24\<rparr>"
proof -
  have "ip4_wf \<lparr>ip4_IP = 0x0a010000, ip4_PrefixLen = 16\<rparr>" "ip4_wf \<lparr>ip4_IP = 0x0a010203, ip4_PrefixLen = 24\<rparr>"
    by (simp_all add: ip4_wf_def)
  from overlaps_iff_common_address [OF this] show ?thesis by (simp add: go_eval)
qed

text \<open>
  C16. \<open>ContainsCIDR\<close> decides inclusion: it holds exactly when every address of the other
  network lies in this one.
\<close>

theorem contains_cidr_iff_subset:
  assumes "ip4_wf n" "ip4_wf m"
  shows "IP4Net_ContainsCIDR n m \<longleftrightarrow> {ip. IP4Net_Contains m ip} \<subseteq> {ip. IP4Net_Contains n ip}"
proof -
  have set: "{ip. IP4Net_Contains x ip} = ip4_addrs x" if "ip4_wf x" for x
    using that by (auto simp: Contains_div in_ip4_addrs_div)
  have "IP4Net_ContainsCIDR n m \<longleftrightarrow> ip4_bits m \<le> ip4_bits n \<and> ip4_IP m \<in> ip4_addrs n"
    using assms by (simp add: IP4Net_ContainsCIDR_def Mask_le_iff Contains_div in_ip4_addrs_div)
  then show ?thesis using subset_blocks_iff [OF assms] set assms by simp
qed

theorem contains_cidr_iff_subset_witness:
  "IP4Net_ContainsCIDR \<lparr>ip4_IP = 0x0a000000, ip4_PrefixLen = 8\<rparr> \<lparr>ip4_IP = 0x0a010200, ip4_PrefixLen = 24\<rparr> \<and>
   {ip. IP4Net_Contains \<lparr>ip4_IP = 0x0a010200, ip4_PrefixLen = 24\<rparr> ip}
     \<subseteq> {ip. IP4Net_Contains \<lparr>ip4_IP = 0x0a000000, ip4_PrefixLen = 8\<rparr> ip}"
proof -
  have "ip4_wf \<lparr>ip4_IP = 0x0a000000, ip4_PrefixLen = 8\<rparr>" "ip4_wf \<lparr>ip4_IP = 0x0a010200, ip4_PrefixLen = 24\<rparr>"
    by (simp_all add: ip4_wf_def)
  moreover have "IP4Net_ContainsCIDR \<lparr>ip4_IP = 0x0a000000, ip4_PrefixLen = 8\<rparr> \<lparr>ip4_IP = 0x0a010200, ip4_PrefixLen = 24\<rparr>"
    by (simp add: go_eval)
  ultimately show ?thesis using contains_cidr_iff_subset by blast
qed

text \<open>
  C17. Writing a network as JSON and reading it back gives the network with its host bits
  cleared: the identity on aligned networks.
\<close>

theorem net_json_round_trip:
  assumes "ip4_PrefixLen n \<le> 32"
  shows "IP4Net_UnmarshalJSON (IP4Net_MarshalJSON n) = Ok (IP4Net_Network n)"
  using assms by (intro Unmarshal_Marshal_IP4Net) (simp add: ip4_wf_def)

theorem net_json_round_trip_witness:
  "IP4Net_UnmarshalJSON (IP4Net_MarshalJSON \<lparr>ip4_IP = 0x0a010203, ip4_PrefixLen = 16\<rparr>)
   = Ok \<lparr>ip4_IP = 0x0a010000, ip4_PrefixLen = 16\<rparr>"
  using net_json_round_trip [of "\<lparr>ip4_IP = 0x0a010203, ip4_PrefixLen = 16\<rparr>"]
  by (simp add: IP4Net_Network_def IP4Net_Mask_def)

text \<open>
  C18. \<open>Next\<close> moves to the adjacent network of the same size: unless the prefix is empty it
  shares no address with its predecessor, and its first address is the old one plus the size
  of the network, modulo the size of the address space.
\<close>

theorem next_network_adjacent:
  assumes "0 < ip4_PrefixLen n" "ip4_PrefixLen n \<le> 32"
  shows "\<not> IP4Net_Overlaps n (IP4Net_Next n) \<and>
         unat (ip4_IP (IP4Net_Network (IP4Net_Next n)))
         = (unat (ip4_IP (IP4Net_Network n)) + 2 ^ (32 - unat (ip4_PrefixLen n))) mod 2 ^ 32"
proof -
  have wf: "ip4_wf n" using assms by (simp add: ip4_wf_def)
  have k: "ip4_bits n < 32" using assms by (simp add: ip4_bits_def word_less_nat_alt)
  have base: "ip4_base (IP4Net_Next n) = (ip4_base n + 2 ^ ip4_bits n) mod 2 ^ 32" by (rule base_Next [OF wf])
  have "ip4_base (IP4Net_Next n) \<noteq> ip4_base n"
  proof (cases "ip4_base n + 2 ^ ip4_bits n < 2 ^ 32")
    case False
    then have "ip4_base n + 2 ^ ip4_bits n = 2 ^ 32" using ip4_base_bound [of n] by linarith
    moreover have "(2::nat) ^ ip4_bits n < 2 ^ 32" using k by (intro power_strict_increasing) simp_all
    ultimately show ?thesis using base by simp
  qed (use base in simp)
  then have "\<not> IP4Net_Overlaps n (IP4Net_Next n)"
    using wf by (auto simp: Overlaps_div ip4_base_def)
  with base show ?thesis using wf by (simp add: Network_base ip4_bits_def)
qed

theorem next_network_adjacent_witness:
  "\<not> IP4Net_Overlaps \<lparr>ip4_IP = 0xFFFFFF00, ip4_PrefixLen = 24\<rparr> (IP4Net_Next \<lparr>ip4_IP = 0xFFFFFF00, ip4_PrefixLen = 24\<rparr>) \<and>
   ip4_IP (IP4Net_Next \<lparr>ip4_IP = 0xFFFFFF00, ip4_PrefixLen = 24\<rparr>) = 0"
proof -
  have "0 < ip4_PrefixLen \<lparr>ip4_IP = 0xFFFFFF00, ip4_PrefixLen = 24\<rparr>"
    "ip4_PrefixLen \<lparr>ip4_IP = 0xFFFFFF00, ip4_PrefixLen = 24\<rparr> \<le> 32" by simp_all
  from next_network_adjacent [OF this] show ?thesis by (simp add: IP4Net_Next_def)
qed

end
