(* ===== verification/IP6_Net.thy ===== *)
theory IP6_Net
  imports IP4_Net
begin

text \<open>
  \<open>pkg/ip/ip6net.go\<close>: IPv6 addresses as big integers behind a pointer and IPv6 networks.
  A \<open>*IP6\<close> is an optional integer, \<open>None\<close> being the nil pointer; dereferencing it is a
  panic. Unlike the IPv4 code, \<open>Overlaps\<close> and \<open>Contains\<close> compare the textual forms of the
  masked addresses, and addresses whose shortest byte form has four bytes print as IPv4.
\<close>

section \<open>Addresses\<close>

type_synonym IP6 = int
type_synonym IP6ptr = "int option"

abbreviation deref :: "'a option \<Rightarrow> 'a go" where
  "deref \<equiv> go_of_option NilDeref"

definition FromIP16Bytes :: "byte list \<Rightarrow> IP6" where
  "FromIP16Bytes ip = int (SetBytes ip)"

definition FromIP6 :: "net_IP \<Rightarrow> IP6 go" where
  "FromIP6 ip =
     (if To16 ip = [] then Panic (ExplicitPanic ''Address is not an IPv6 address'')
      else Ok (FromIP16Bytes (To16 ip)))"

definition ParseIP6 :: "string \<Rightarrow> IP6 go" where
  "ParseIP6 s =
     (if ParseIP s = [] then Err (ErrorString ''invalid IP address format'')
      else FromIP6 (ParseIP s))"

definition ip6_Mask :: "int \<Rightarrow> int" where
  "ip6_Mask prefixLen = int (SetBytes (CIDRMask prefixLen 128))"

fun IP6_IsEmpty :: "IP6ptr \<Rightarrow> bool" where
  "IP6_IsEmpty None = True"
| "IP6_IsEmpty (Some v) = (v = 0)"

definition GetIPv6SubnetMin :: "IP6ptr \<Rightarrow> int \<Rightarrow> IP6 go" where
  "GetIPv6SubnetMin networkIP subnetSize = go_bind (deref networkIP) (\<lambda>v. Ok (v + subnetSize))"

definition GetIPv6SubnetMax :: "IP6ptr \<Rightarrow> int \<Rightarrow> IP6 go" where
  "GetIPv6SubnetMax networkIP subnetSize = go_bind (deref networkIP) (\<lambda>v. Ok (v - subnetSize))"

definition CheckIPv6Subnet :: "IP6ptr \<Rightarrow> int \<Rightarrow> bool go" where
  "CheckIPv6Subnet subnetIP msk = go_bind (deref subnetIP) (\<lambda>v. Ok (v = v AND msk))"

definition MustParseIP6 :: "string \<Rightarrow> IP6 go" where
  "MustParseIP6 s =
     (case ParseIP6 s of Err e \<Rightarrow> Panic (ExplicitPanic ''ParseIP6'') | r \<Rightarrow> r)"

definition IP6_ToIP :: "IP6 \<Rightarrow> net_IP go" where
  "IP6_ToIP v =
     (if To4 (big_Bytes (nat \<bar>v\<bar>)) \<noteq> [] then Ok (big_Bytes (nat \<bar>v\<bar>))
      else FillBytes 16 (nat \<bar>v\<bar>))"

definition IP6_String :: "IP6 \<Rightarrow> string go" where
  "IP6_String v = go_bind (IP6_ToIP v) (\<lambda>ip. Ok (IP_String ip))"

text \<open>\<open>fmt\<close> recovers from a panic of the \<open>String\<close> method it calls for the verb \<open>%s\<close>.\<close>

fun panic_text :: "gopanic \<Rightarrow> string" where
  "panic_text NilDeref = ''runtime error: invalid memory address or nil pointer dereference''"
| "panic_text IndexRange = ''runtime error: index out of range''"
| "panic_text (ExplicitPanic s) = s"

fun fmt_s :: "string go \<Rightarrow> string" where
  "fmt_s (Ok s) = s"
| "fmt_s (Err e) = []"
| "fmt_s (Panic p) = ''%!s(PANIC=String method: '' @ panic_text p @ '')''"

definition IP6_MarshalJSON :: "IP6 \<Rightarrow> string" where
  "IP6_MarshalJSON v = quoted (fmt_s (IP6_String v))"

definition IP6_UnmarshalJSON :: "string \<Rightarrow> IP6 go" where
  "IP6_UnmarshalJSON j = ParseIP6 (Trim j [chr_quote])"

text \<open>\<open>big.Int.Cmp\<close> on pointers: equal pointers compare equal before anything is read.\<close>

fun IP6_Cmp :: "IP6ptr \<Rightarrow> IP6ptr \<Rightarrow> int go" where
  "IP6_Cmp (Some x) (Some y) = Ok (if x < y then - 1 else if y < x then 1 else 0)"
| "IP6_Cmp None None = Ok 0"
| "IP6_Cmp x y = Panic NilDeref"

definition IP6_IsPrivate :: "IP6ptr \<Rightarrow> bool go" where
  "IP6_IsPrivate p =
     go_bind (deref p) (\<lambda>v.
       (case big_Bytes (nat \<bar>v\<bar>) of
          [] \<Rightarrow> Panic IndexRange
        | b # _ \<Rightarrow> Ok (b AND 0xfe = 0xfc)))"

section \<open>Networks\<close>

record IP6Net =
  ip6_IP :: IP6ptr
  ip6_PrefixLen :: uint

definition IP6Net_String :: "IP6Net \<Rightarrow> string go" where
  "IP6Net_String n =
     (let p = (case ip6_IP n of None \<Rightarrow> 0 | Some v \<Rightarrow> v) in
      go_bind (IP6_String p) (\<lambda>s. Ok (s @ ''/'' @ nat_dec (unat (ip6_PrefixLen n)))))"

definition IP6Net_StringSep :: "IP6Net \<Rightarrow> string \<Rightarrow> string \<Rightarrow> string go" where
  "IP6Net_StringSep n hexSep prefixSep =
     go_bind (deref (ip6_IP n)) (\<lambda>v. go_bind (IP6_String v)
       (\<lambda>s. Ok (s @ prefixSep @ nat_dec (unat (ip6_PrefixLen n)))))"

fun MapIP6ToString :: "IP6Net list \<Rightarrow> string list go" where
  "MapIP6ToString [] = Ok []"
| "MapIP6ToString (n # nws) =
     go_bind (IP6Net_String n) (\<lambda>s. go_bind (MapIP6ToString nws) (\<lambda>res. Ok (s # res)))"

definition IP6Net_Network :: "IP6Net \<Rightarrow> IP6Net go" where
  "IP6Net_Network n =
     go_bind (deref (ip6_IP n)) (\<lambda>v. go_bind (IP6_ToIP v) (\<lambda>ip.
       go_bind (FromIP6 (IP_Mask ip (CIDRMask (sint (ip6_PrefixLen n)) 128))) (\<lambda>w.
         Ok \<lparr>ip6_IP = Some w, ip6_PrefixLen = ip6_PrefixLen n\<rparr>)))"

definition IP6Net_Next :: "IP6Net \<Rightarrow> IP6Net go" where
  "IP6Net_Next n =
     go_bind (deref (ip6_IP n)) (\<lambda>v.
       Ok \<lparr>ip6_IP = Some (v + push_bit (unat (128 - ip6_PrefixLen n)) 1),
           ip6_PrefixLen = ip6_PrefixLen n\<rparr>)"

definition IP6Net_IncrementIP :: "IP6Net \<Rightarrow> IP6Net go" where
  "IP6Net_IncrementIP n = go_bind (deref (ip6_IP n)) (\<lambda>v. Ok (n\<lparr>ip6_IP := Some (v + 1)\<rparr>))"

definition FromIP6Net :: "IPNet \<Rightarrow> IP6Net go" where
  "FromIP6Net n =
     go_bind (FromIP6 (ipn_IP n)) (\<lambda>v.
       Ok \<lparr>ip6_IP = Some v, ip6_PrefixLen = of_nat (fst (mask_Size (ipn_Mask n)))\<rparr>)"

definition IP6Net_ToIPNet :: "IP6Net \<Rightarrow> IPNet go" where
  "IP6Net_ToIPNet n =
     go_bind (deref (ip6_IP n)) (\<lambda>v. go_bind (IP6_ToIP v) (\<lambda>ip.
       Ok \<lparr>ipn_IP = ip, ipn_Mask = CIDRMask (sint (ip6_PrefixLen n)) 128\<rparr>))"

definition IP6Net_Mask :: "IP6Net \<Rightarrow> int" where
  "IP6Net_Mask n = int (SetBytes (CIDRMask (sint (ip6_PrefixLen n)) 128))"

definition same_string :: "IP6 \<Rightarrow> IP6 \<Rightarrow> bool go" where
  "same_string x y = go_bind (IP6_String x) (\<lambda>s. go_bind (IP6_String y) (\<lambda>t. Ok (s = t)))"

definition IP6Net_Overlaps :: "IP6Net \<Rightarrow> IP6Net \<Rightarrow> bool go" where
  "IP6Net_Overlaps n other =
     (let m = (if ip6_PrefixLen n < ip6_PrefixLen other then IP6Net_Mask n else IP6Net_Mask other) in
      go_bind (deref (ip6_IP n)) (\<lambda>v. go_bind (IP6_String (v AND m)) (\<lambda>s.
      go_bind (deref (ip6_IP other)) (\<lambda>w. go_bind (IP6_String (w AND m)) (\<lambda>t. Ok (s = t))))))"

definition IP6Net_Equal :: "IP6Net \<Rightarrow> IP6Net \<Rightarrow> bool go" where
  "IP6Net_Equal n other =
     go_bind (IP6_Cmp (ip6_IP n) (ip6_IP other)) (\<lambda>c.
       Ok (c = 0 \<and> ip6_PrefixLen n = ip6_PrefixLen other))"

definition IP6Net_Contains :: "IP6Net \<Rightarrow> IP6ptr \<Rightarrow> bool go" where
  "IP6Net_Contains n ip =
     go_bind (deref (ip6_IP n)) (\<lambda>v. go_bind (deref ip) (\<lambda>w.
       same_string (v AND IP6Net_Mask n) (w AND IP6Net_Mask n)))"

definition IP6Net_ContainsCIDR :: "IP6Net \<Rightarrow> IP6Net \<Rightarrow> bool go" where
  "IP6Net_ContainsCIDR n other =
     (if IP6Net_Mask n \<le> IP6Net_Mask other then IP6Net_Contains n (ip6_IP other) else Ok False)"

definition IP6Net_Empty :: "IP6Net \<Rightarrow> bool" where
  "IP6Net_Empty n \<longleftrightarrow> IP6_IsEmpty (ip6_IP n) \<and> ip6_PrefixLen n = 0"

definition IP6Net_MarshalJSON :: "IP6Net \<Rightarrow> string" where
  "IP6Net_MarshalJSON n = quoted (fmt_s (IP6Net_String n))"

definition IP6Net_UnmarshalJSON :: "string \<Rightarrow> IP6Net go" where
  "IP6Net_UnmarshalJSON j =
     (case ParseCIDR (Trim j [chr_quote]) of
        None \<Rightarrow> Err (ErrorString ''invalid CIDR address'')
      | Some (_, val) \<Rightarrow> FromIP6Net val)"

abbreviation empty_IP6Net :: IP6Net where
  "empty_IP6Net \<equiv> \<lparr>ip6_IP = None, ip6_PrefixLen = 0\<rparr>"

lemmas [go_eval] =
  FromIP16Bytes_def FromIP6_def ParseIP6_def ip6_Mask_def GetIPv6SubnetMin_def GetIPv6SubnetMax_def
  CheckIPv6Subnet_def IP6_ToIP_def IP6_String_def IP6_MarshalJSON_def IP6_UnmarshalJSON_def
  IP6_IsPrivate_def IP6Net_String_def IP6Net_StringSep_def IP6Net_Network_def IP6Net_Next_def
  IP6Net_IncrementIP_def FromIP6Net_def IP6Net_ToIPNet_def IP6Net_Mask_def same_string_def
  IP6Net_Overlaps_def IP6Net_Equal_def IP6Net_Contains_def IP6Net_ContainsCIDR_def
  IP6Net_Empty_def IP6Net_MarshalJSON_def IP6Net_UnmarshalJSON_def

section \<open>Masks and blocks\<close>

text \<open>Addresses that fit the sixteen bytes, and networks over them.\<close>

definition ip6_ok :: "IP6 \<Rightarrow> bool" where
  "ip6_ok v \<longleftrightarrow> 0 \<le> v \<and> v < 2 ^ 128"

definition ip6_wf :: "IP6Net \<Rightarrow> bool" where
  "ip6_wf n \<longleftrightarrow> ip6_PrefixLen n \<le> 128 \<and> (case ip6_IP n of None \<Rightarrow> False | Some v \<Rightarrow> ip6_ok v)"

definition ip6_bits :: "IP6Net \<Rightarrow> nat" where
  "ip6_bits n = 128 - unat (ip6_PrefixLen n)"

lemma ip6_wfE:
  assumes "ip6_wf n"
  obtains v where "ip6_IP n = Some v" "ip6_ok v" "ip6_PrefixLen n \<le> 128"
  using assms by (auto simp: ip6_wf_def split: option.splits)

lemma sint_prefix: "p \<le> (128 :: uint) \<Longrightarrow> sint p = int (unat p)"
proof -
  assume p: "p \<le> 128"
  then have "uint p \<le> 128" by (simp add: word_le_def)
  moreover have "0 \<le> uint p" by simp
  moreover have "- (2 ^ 63) \<le> (0 :: int)" "(128 :: int) < 2 ^ 63" by simp_all
  ultimately have "- (2 ^ 63) \<le> uint p" "uint p < 2 ^ 63" by linarith+
  then have "sint p = uint p" unfolding sint_uint by (intro signed_take_bit_int_eq_self) simp_all
  then show ?thesis by simp
qed

lemma int_AND_block:
  fixes v :: int
  assumes "0 \<le> v" "v < 2 ^ l" "k \<le> l"
  shows "v AND (2 ^ l - 2 ^ k) = v div 2 ^ k * 2 ^ k"
proof -
  have m: "(2 ^ l - 2 ^ k :: int) = push_bit k (mask (l - k))"
    using assms(3) by (simp add: push_bit_eq_mult mask_eq_exp_minus_1 algebra_simps flip: power_add)
  have v: "take_bit l v = v" using assms by (simp add: take_bit_int_eq_self)
  have hi: "bit v i \<Longrightarrow> i < l" for i using v by (metis bit_take_bit_iff)
  have "v AND push_bit k (mask (l - k)) = push_bit k (drop_bit k v)"
    by (rule bit_eqI) (use hi in \<open>auto simp: bit_simps diff_less_mono\<close>)
  then show ?thesis by (simp add: m push_bit_eq_mult drop_bit_eq_div)
qed

lemma SetBytes_CIDRMask:
  assumes "p \<le> 128"
  shows "int (SetBytes (CIDRMask (int p) 128)) = 2 ^ 128 - 2 ^ (128 - p)"
proof -
  have q: "\<forall>r \<in> set upto_32. int (SetBytes (CIDRMask (int r) 128)) = 2 ^ 128 - 2 ^ (128 - r)"
    "\<forall>r \<in> set upto_32. int (SetBytes (CIDRMask (int (32 + r)) 128)) = 2 ^ 128 - 2 ^ (128 - (32 + r))"
    "\<forall>r \<in> set upto_32. int (SetBytes (CIDRMask (int (64 + r)) 128)) = 2 ^ 128 - 2 ^ (128 - (64 + r))"
    "\<forall>r \<in> set upto_32. int (SetBytes (CIDRMask (int (96 + r)) 128)) = 2 ^ 128 - 2 ^ (128 - (96 + r))"
    by (simp_all add: upto_32_def go_eval)
  have "p \<le> 32 \<or> (\<exists>r\<le>32. p = 32 + r) \<or> (\<exists>r\<le>32. p = 64 + r) \<or> (\<exists>r\<le>32. p = 96 + r)"
    using assms by presburger
  with q show ?thesis using in_upto_32 by blast
qed
lemma IP6Net_Mask_val:
  "ip6_PrefixLen n \<le> 128 \<Longrightarrow> IP6Net_Mask n = 2 ^ 128 - 2 ^ ip6_bits n"
  unfolding IP6Net_Mask_def ip6_bits_def sint_prefix
  by (rule SetBytes_CIDRMask) (simp add: word_le_nat_alt)

lemma ip6_bits_le [simp]: "ip6_bits n \<le> 128"
  by (simp add: ip6_bits_def)

lemma AND_IP6Net_Mask:
  "ip6_PrefixLen n \<le> 128 \<Longrightarrow> ip6_ok v \<Longrightarrow> v AND IP6Net_Mask n = v div 2 ^ ip6_bits n * 2 ^ ip6_bits n"
  unfolding IP6Net_Mask_val ip6_ok_def by (rule int_AND_block) simp_all

lemma ip6_ok_block: "ip6_ok v \<Longrightarrow> ip6_ok (v div 2 ^ k * 2 ^ k)"
proof -
  assume v: "ip6_ok v"
  then have "0 \<le> v div 2 ^ k * 2 ^ k" by (simp add: ip6_ok_def pos_imp_zdiv_nonneg_iff)
  moreover have "v div 2 ^ k * 2 ^ k \<le> v" by (simp flip: minus_mod_eq_div_mult)
  ultimately show ?thesis using v by (simp add: ip6_ok_def)
qed

lemma IP6_ToIP_total:
  assumes "ip6_ok v"
  shows "\<exists>ip. IP6_ToIP v = Ok ip \<and> (length ip = 4 \<or> length ip = 16)"
proof -
  have "nat \<bar>v\<bar> < 256 ^ 16" using assms by (simp add: ip6_ok_def nat_less_iff)
  then show ?thesis
    by (auto simp: IP6_ToIP_def FillBytes_def To4_def split: if_splits)
qed

lemma IP6_String_total: "ip6_ok v \<Longrightarrow> \<exists>s. IP6_String v = Ok s"
  using IP6_ToIP_total [of v] by (auto simp: IP6_String_def)

text \<open>
  On well-formed networks \<open>Overlaps\<close>, \<open>Contains\<close> and \<open>Equal\<close> answer without a panic; the
  comparison of texts can only err by reporting a common address too often.
\<close>

lemma IP6Net_Overlaps_total:
  assumes "ip6_wf n" "ip6_wf m"
  shows "\<exists>b. IP6Net_Overlaps n m = Ok b \<and>
           (the (ip6_IP n) div 2 ^ max (ip6_bits n) (ip6_bits m)
            = the (ip6_IP m) div 2 ^ max (ip6_bits n) (ip6_bits m) \<longrightarrow> b)"
proof -
  obtain v where v: "ip6_IP n = Some v" "ip6_ok v" "ip6_PrefixLen n \<le> 128" using assms(1) by (rule ip6_wfE)
  obtain w where w: "ip6_IP m = Some w" "ip6_ok w" "ip6_PrefixLen m \<le> 128" using assms(2) by (rule ip6_wfE)
  define x where "x = (if ip6_PrefixLen n < ip6_PrefixLen m then n else m)"
  have x: "ip6_PrefixLen x \<le> 128" "ip6_bits x = max (ip6_bits n) (ip6_bits m)"
    using v(3) w(3) by (auto simp: x_def ip6_bits_def max_def word_less_nat_alt word_le_nat_alt)
  have mask: "IP6Net_Mask x = (if ip6_PrefixLen n < ip6_PrefixLen m then IP6Net_Mask n else IP6Net_Mask m)"
    by (simp add: x_def)
  obtain s t where "IP6_String (v AND IP6Net_Mask x) = Ok s" "IP6_String (w AND IP6Net_Mask x) = Ok t"
    using IP6_String_total ip6_ok_block v(2) w(2) by (metis AND_IP6Net_Mask [OF x(1)])
  moreover have "v AND IP6Net_Mask x = w AND IP6Net_Mask x" if "v div 2 ^ ip6_bits x = w div 2 ^ ip6_bits x"
    using that v(2) w(2) by (simp add: AND_IP6Net_Mask [OF x(1)])
  ultimately show ?thesis
    using v(1) w(1) x(2) by (auto simp: IP6Net_Overlaps_def Let_def simp flip: mask)
qed

lemma IP6Net_Equal_total:
  "ip6_wf n \<Longrightarrow> ip6_wf m \<Longrightarrow> IP6Net_Equal n m = Ok (n = m)"
  by (cases n, cases m) (auto simp: IP6Net_Equal_def elim!: ip6_wfE)

section \<open>What decoded networks satisfy\<close>

lemma parse4_length: "parse4 f v k s = Some r \<Longrightarrow> length f \<le> 3 \<Longrightarrow> length r = 4"
  by (induction f v k s rule: parse4.induct) (auto split: if_splits)

lemma parse6_length:
  "parse6 bs e s = Some (bs', e', s') \<Longrightarrow> even (length bs) \<Longrightarrow> length bs \<le> 16 \<Longrightarrow> length bs' \<le> 16"
proof (induction "16 - length bs" arbitrary: bs e s rule: less_induct)
  case less
  show ?case
  proof (cases "length bs < 16")
    case True
    then have two: "length bs + 2 \<le> 16" using less.prems(2) by presburger
    have IH: "parse6 (bs @ group_bytes g) E S = Some (bs', e', s') \<Longrightarrow> length bs' \<le> 16" for g E S
      using less.hyps [of "bs @ group_bytes g" E S] less.prems(2) True two by simp
    show ?thesis
      using less.prems(1) True two
      by (subst (asm) parse6.simps)
        (auto split: option.splits if_splits list.splits dest: IH dest!: parse4_length)
  next
    case False
    with less.prems show ?thesis by (subst (asm) parse6.simps) auto
  qed
qed

lemma ParseAddr_length: "ParseAddr s = Some bs \<Longrightarrow> length bs = 4 \<or> length bs = 16"
proof -
  have v6: "length r = 16" if "parse_IPv6 t = Some r" for t r
    using that unfolding parse_IPv6_def Let_def
    by (auto split: if_splits option.splits prod.splits dest!: parse6_length)
  assume "ParseAddr s = Some bs"
  then show ?thesis
    unfolding ParseAddr_def by (auto split: list.splits if_splits dest: parse4_length v6)
qed

lemma ParseCIDR_cases:
  assumes "ParseCIDR s = Some (ip, val)"
  obtains (v4) bs n where "length bs = 4" "n \<le> 32"
      "val = \<lparr>ipn_IP = map2 (AND) bs (CIDRMask (int n) 32), ipn_Mask = CIDRMask (int n) 32\<rparr>"
    | (v6) bs n where "length bs = 16" "n \<le> 128"
      "val = \<lparr>ipn_IP = map2 (AND) bs (CIDRMask (int n) 128), ipn_Mask = CIDRMask (int n) 128\<rparr>"
proof -
  obtain addr msk bs where a: "CutChar s chr_slash = Some (addr, msk)" "ParseAddr addr = Some bs"
    "dec_val msk \<le> 8 * length bs"
    "val = \<lparr>ipn_IP = IP_Mask (if length bs = 4 then v4InV6Prefix @ bs else bs) (CIDRMask (int (dec_val msk)) (8 * length bs)),
       ipn_Mask = CIDRMask (int (dec_val msk)) (8 * length bs)\<rparr>"
    using assms unfolding ParseCIDR_def Let_def by (auto split: option.splits if_splits)
  from ParseAddr_length [OF a(2)] show ?thesis
  proof
    assume l: "length bs = 4"
    have "length (CIDRMask (int (dec_val msk)) 32) = 4" using a(3) l by (simp add: CIDRMask_def)
    then have "IP_Mask (v4InV6Prefix @ bs) (CIDRMask (int (dec_val msk)) 32)
        = map2 (AND) bs (CIDRMask (int (dec_val msk)) 32)"
      using l by (simp add: IP_Mask_def v4InV6Prefix_def)
    with l a(3,4) show ?thesis by (intro v4) simp_all
  next
    assume l: "length bs = 16"
    have "length (CIDRMask (int (dec_val msk)) 128) = 16" using a(3) l by (simp add: CIDRMask_def)
    then have "IP_Mask bs (CIDRMask (int (dec_val msk)) 128)
        = map2 (AND) bs (CIDRMask (int (dec_val msk)) 128)"
      using l by (simp add: IP_Mask_def)
    with l a(3,4) show ?thesis by (intro v6) simp_all
  qed
qed

lemma mask_Size_128:
  assumes "p \<le> 128"
  shows "mask_Size (CIDRMask (int p) 128) = (p, 128)"
proof -
  have q: "\<forall>r \<in> set upto_32. mask_Size (CIDRMask (int r) 128) = (r, 128)"
    "\<forall>r \<in> set upto_32. mask_Size (CIDRMask (int (32 + r)) 128) = (32 + r, 128)"
    "\<forall>r \<in> set upto_32. mask_Size (CIDRMask (int (64 + r)) 128) = (64 + r, 128)"
    "\<forall>r \<in> set upto_32. mask_Size (CIDRMask (int (96 + r)) 128) = (96 + r, 128)"
    by (simp_all add: upto_32_def go_eval)
  have "p \<le> 32 \<or> (\<exists>r\<le>32. p = 32 + r) \<or> (\<exists>r\<le>32. p = 64 + r) \<or> (\<exists>r\<le>32. p = 96 + r)"
    using assms by presburger
  with q show ?thesis using in_upto_32 by blast
qed

lemma CIDRMask_128_low: "n \<le> 32 \<Longrightarrow> CIDRMask (int n) 128 ! 10 = 0"
proof -
  assume "n \<le> 32"
  have "\<forall>r \<in> set upto_32. CIDRMask (int r) 128 ! 10 = 0" by (simp add: upto_32_def go_eval)
  with in_upto_32 [OF \<open>n \<le> 32\<close>] show ?thesis by blast
qed

lemma FromIPNet_four:
  assumes "length bs = 4" "n \<le> 32"
  shows "\<exists>x. FromIPNet \<lparr>ipn_IP = map2 (AND) bs (CIDRMask (int n) 32), ipn_Mask = CIDRMask (int n) 32\<rparr>
           = Ok \<lparr>ip4_IP = x AND push_bit (32 - n) 0xFFFFFFFF, ip4_PrefixLen = of_nat n\<rparr>"
proof -
  obtain a b c d where bs: "bs = [a, b, c, d]"
    using assms(1) by (auto simp: numeral_eq_Suc length_Suc_conv)
  obtain e f g h where m: "CIDRMask (int n) 32 = [e, f, g, h]" "mask_Size [e, f, g, h] = (n, 32)"
    "octets_word e f g h = push_bit (32 - n) 0xFFFFFFFF"
    using CIDRMask_32 [OF assms(2)] by blast
  have "FromIPNet \<lparr>ipn_IP = map2 (AND) bs [e, f, g, h], ipn_Mask = [e, f, g, h]\<rparr>
     = Ok \<lparr>ip4_IP = octets_word a b c d AND octets_word e f g h, ip4_PrefixLen = of_nat n\<rparr>"
    by (simp add: FromIPNet_def bs FromIP_four octets_word_AND m(2))
  then show ?thesis unfolding m(1,3) by blast
qed

lemma IP4Net_UnmarshalJSON_aligned:
  assumes "IP4Net_UnmarshalJSON j = Ok n"
  shows "ip4_PrefixLen n \<le> 128 \<and> (ip4_PrefixLen n \<le> 32 \<longrightarrow> ip4_aligned n)"
proof -
  obtain ip val where v: "ParseCIDR (Trim j [chr_quote]) = Some (ip, val)" "To4 (ipn_IP val) \<noteq> []"
    "FromIPNet val = Ok n"
    using assms by (auto simp: IP4Net_UnmarshalJSON_def split: option.splits if_splits)
  from v(1) show ?thesis
  proof (cases rule: ParseCIDR_cases)
    case (v4 bs p)
    obtain x where n: "n = \<lparr>ip4_IP = x AND push_bit (32 - p) 0xFFFFFFFF, ip4_PrefixLen = of_nat p\<rparr>"
      using FromIPNet_four [OF v4(1,2)] v(3) v4(3) by auto
    have u: "unat (of_nat p :: uint) = p" using v4(2) by (simp add: unat_of_nat)
    then have p: "(of_nat p :: uint) \<le> 32" using v4(2) by (simp add: word_le_nat_alt)
    then have "(of_nat p :: uint) \<le> 128" by (simp add: word_le_nat_alt)
    moreover have "IP4Net_Mask n = push_bit (32 - p) 0xFFFFFFFF"
      using shift_count [OF p] u by (simp add: n IP4Net_Mask_def)
    then have "ip4_aligned n" unfolding ip4_aligned_def IP4Net_Network_def by (simp add: n and.assoc)
    ultimately show ?thesis by (simp add: n)
  next
    case (v6 bs p)
    have len: "length (CIDRMask (int p) 128) = 16" using v6(2) by (simp add: CIDRMask_def)
    have pl: "ip4_PrefixLen n = of_nat p"
      using v(3) v6(2,3) by (auto simp: FromIPNet_def mask_Size_128 split: go.splits)
    have u: "unat (of_nat p :: uint) = p" using v6(2) by (simp add: unat_of_nat)
    have "\<not> p \<le> 32"
    proof
      assume "p \<le> 32"
      then have "map2 (AND) bs (CIDRMask (int p) 128) ! 10 = 0"
        using v6(1) len by (simp add: CIDRMask_128_low)
      moreover have "length (map2 (AND) bs (CIDRMask (int p) 128)) = 16" using v6(1) len by simp
      moreover have "map2 (AND) bs (CIDRMask (int p) 128) ! 10 = v4InV6Prefix ! 10"
        if "take 12 (map2 (AND) bs (CIDRMask (int p) 128)) = v4InV6Prefix"
        using nth_take [of 10 12 "map2 (AND) bs (CIDRMask (int p) 128)"] that by simp
      ultimately show False
        using v(2) v6(3) by (auto simp: To4_def v4InV6Prefix_def split: if_splits)
    qed
    then show ?thesis using v6(2) u by (simp add: pl word_le_nat_alt)
  qed
qed

lemma SetBytes_bound: "SetBytes bs < 256 ^ length bs"
proof -
  have "foldl (\<lambda>v b. 256 * v + unat b) v bs < (v + 1) * 256 ^ length bs" for v
  proof (induction bs arbitrary: v)
    case (Cons b bs)
    have "256 * v + unat b + 1 \<le> 256 * (v + 1)" using unat_byte_le [of b] by simp
    then have "(256 * v + unat b + 1) * 256 ^ length bs \<le> (256 * (v + 1)) * 256 ^ length bs"
      by (rule mult_right_mono) simp
    with less_le_trans [OF Cons.IH [of "256 * v + unat b"]]
    have "foldl (\<lambda>v b. 256 * v + unat b) (256 * v + unat b) bs < 256 * (v + 1) * 256 ^ length bs" .
    then show ?case by (simp only: foldl_Cons length_Cons power_Suc ac_simps)
  qed simp
  from this [of 0] show ?thesis by (simp add: SetBytes_def)
qed

lemma FromIP6_ok: "FromIP6 ip = Ok v \<Longrightarrow> ip6_ok v"
proof -
  assume "FromIP6 ip = Ok v"
  then have v: "v = int (SetBytes (To16 ip))" "To16 ip \<noteq> []"
    by (auto simp: FromIP6_def FromIP16Bytes_def split: if_splits)
  then have "length (To16 ip) = 16" by (auto simp: To16_def v4InV6Prefix_def split: if_splits)
  then have "SetBytes (To16 ip) < 2 ^ 128" using SetBytes_bound [of "To16 ip"] by simp
  then have "int (SetBytes (To16 ip)) < int (2 ^ 128)" by (rule of_nat_less_iff [THEN iffD2])
  then show ?thesis by (simp add: v(1) ip6_ok_def)
qed

lemma IP6Net_UnmarshalJSON_wf:
  assumes "IP6Net_UnmarshalJSON j = Ok n"
  shows "ip6_wf n"
proof -
  obtain ip val v where v: "ParseCIDR (Trim j [chr_quote]) = Some (ip, val)"
    "FromIP6 (ipn_IP val) = Ok v"
    "n = \<lparr>ip6_IP = Some v, ip6_PrefixLen = of_nat (fst (mask_Size (ipn_Mask val)))\<rparr>"
    using assms by (auto simp: IP6Net_UnmarshalJSON_def FromIP6Net_def go_simps split: option.splits)
  from v(1) have "fst (mask_Size (ipn_Mask val)) \<le> 128"
  proof (cases rule: ParseCIDR_cases)
    case (v4 bs p)
    then show ?thesis using CIDRMask_32 [of p] by auto
  next
    case (v6 bs p)
    then show ?thesis by (simp add: mask_Size_128)
  qed
  then have "(of_nat (fst (mask_Size (ipn_Mask val))) :: uint) \<le> 128"
    by (simp add: word_le_nat_alt unat_of_nat)
  with FromIP6_ok [OF v(2)] show ?thesis by (simp add: v(3) ip6_wf_def)
qed

section \<open>Round trip of the textual form\<close>

text \<open>
  Addresses that print in IPv6 form: those whose shortest byte form is not four bytes long
  and that are not IPv4-mapped.
\<close>

definition ip6_plain :: "IP6 \<Rightarrow> bool" where
  "ip6_plain v \<longleftrightarrow> ip6_ok v \<and> To4 (big_Bytes (nat v)) = [] \<and> To4 (bytes_be 16 (nat v)) = []"

lemma SetBytes_snoc: "SetBytes (bs @ [b]) = 256 * SetBytes bs + unat b"
  by (simp add: SetBytes_def)

lemma unat_of_nat_byte: "unat (of_nat (v mod 256) :: byte) = v mod 256"
  by (simp add: unat_of_nat)

lemma SetBytes_bytes_be: "v < 256 ^ k \<Longrightarrow> SetBytes (bytes_be k v) = v"
proof (induction k v rule: bytes_be.induct)
  case (2 k v)
  have "v div 256 < 256 ^ k" using 2(2) by (simp add: less_mult_imp_div_less)
  with 2(1) show ?case by (simp add: SetBytes_snoc unat_of_nat_byte)
qed (simp add: SetBytes_def)

lemma SetBytes_big_Bytes: "SetBytes (big_Bytes v) = v"
proof (induction v rule: big_Bytes.induct)
  case (1 v)
  show ?case
  proof (cases "v = 0")
    case True
    then show ?thesis by (simp add: big_Bytes.simps [of 0] SetBytes_def)
  next
    case False
    with 1 show ?thesis by (simp add: big_Bytes.simps [of v] SetBytes_snoc unat_of_nat_byte)
  qed
qed

lemma SetBytes_mapped: "take 12 bs = v4InV6Prefix \<Longrightarrow> length bs = 16 \<Longrightarrow> SetBytes bs < 2 ^ 48"
proof -
  assume t: "take 12 bs = v4InV6Prefix" and l: "length bs = 16"
  have four: "length r = 4 \<Longrightarrow> \<exists>a b c d. r = [a, b, c, d]" for r :: "byte list"
    by (auto simp: numeral_eq_Suc length_Suc_conv)
  obtain a b c d where d: "drop 12 bs = [a, b, c, d]" using four [of "drop 12 bs"] l by auto
  have "bs = take 12 bs @ drop 12 bs" by simp
  then have "bs = v4InV6Prefix @ [a, b, c, d]" by (simp only: t d)
  then have "SetBytes bs = 256 * (256 * (256 * (256 * SetBytes v4InV6Prefix + unat a) + unat b) + unat c) + unat d"
    by (simp add: SetBytes_def)
  moreover have "SetBytes v4InV6Prefix = 0xFFFF" by (simp add: go_eval)
  ultimately show ?thesis
    using unat_byte_le [of a] unat_byte_le [of b] unat_byte_le [of c] unat_byte_le [of d] by simp
qed

lemma To4_small: "To4 bs \<noteq> [] \<Longrightarrow> SetBytes bs < 2 ^ 48"
  using SetBytes_bound [of bs] SetBytes_mapped [of bs] by (auto simp: To4_def split: if_splits)

lemma ip6_plain_high: "2 ^ 48 \<le> v \<Longrightarrow> v < 2 ^ 128 \<Longrightarrow> ip6_plain v"
proof -
  assume v: "2 ^ 48 \<le> v" "v < 2 ^ 128"
  then have n: "2 ^ 48 \<le> nat v" "nat v < 256 ^ 16" by (simp_all add: nat_less_iff le_nat_iff)
  have "To4 (big_Bytes (nat v)) = []" using To4_small [of "big_Bytes (nat v)"] n(1) by (auto simp: SetBytes_big_Bytes)
  moreover have "To4 (bytes_be 16 (nat v)) = []"
    using To4_small [of "bytes_be 16 (nat v)"] n by (auto simp: SetBytes_bytes_be)
  ultimately show ?thesis using v by (simp add: ip6_plain_def ip6_ok_def)
qed

lemma ip6_plain_zero: "ip6_plain 0"
  by (simp add: ip6_plain_def ip6_ok_def go_eval)

lemma IP6_ToIP_plain: "ip6_plain v \<Longrightarrow> IP6_ToIP v = Ok (bytes_be 16 (nat v))"
proof -
  assume p: "ip6_plain v"
  then have "nat v < 256 ^ 16" "\<bar>v\<bar> = v" by (simp_all add: ip6_plain_def ip6_ok_def nat_less_iff)
  with p show ?thesis by (simp add: IP6_ToIP_def FillBytes_def ip6_plain_def)
qed

lemma IP6_String_plain: "ip6_plain v \<Longrightarrow> IP6_String v = Ok (string6 (ip_groups (bytes_be 16 (nat v))))"
proof -
  assume p: "ip6_plain v"
  have "bytes_be 16 (nat v) \<noteq> []" using length_bytes_be [of 16 "nat v"] by (metis list.size(3) zero_neq_numeral)
  with p show ?thesis by (simp add: IP6_String_def IP6_ToIP_plain IP_String_def ip6_plain_def)
qed

lemma ParseIP6_String:
  assumes "ip6_plain v"
  shows "\<exists>s. IP6_String v = Ok s \<and> ParseIP6 s = Ok v \<and> ParseIP s = bytes_be 16 (nat v) \<and>
    (\<forall>c \<in> set s. hex_digit c \<noteq> None \<or> c = chr_colon) \<and> s \<noteq> []"
proof -
  let ?s = "string6 (ip_groups (bytes_be 16 (nat v)))"
  have v: "nat v < 256 ^ 16" "0 \<le> v" using assms by (simp_all add: ip6_plain_def ip6_ok_def nat_less_iff)
  have ne: "bytes_be 16 (nat v) \<noteq> []" using length_bytes_be [of 16 "nat v"] by (metis list.size(3) zero_neq_numeral)
  have pa: "ParseAddr ?s = Some (bytes_be 16 (nat v))" by (rule ParseAddr_string6) simp
  then have pi: "ParseIP ?s = bytes_be 16 (nat v)" by (simp add: ParseIP_def)
  then have "ParseIP6 ?s = Ok (int (SetBytes (bytes_be 16 (nat v))))"
    using ne by (simp add: ParseIP6_def FromIP6_def To16_def FromIP16Bytes_def)
  then have "ParseIP6 ?s = Ok v" using v by (simp add: SetBytes_bytes_be)
  moreover have "?s \<noteq> []" using pa by (auto simp: ParseAddr_def)
  ultimately show ?thesis using IP6_String_plain [OF assms] pi string6_chars by blast
qed

lemma IP6_String_plain_inject:
  "ip6_plain v \<Longrightarrow> ip6_plain w \<Longrightarrow> IP6_String v = IP6_String w \<longleftrightarrow> v = w"
  using ParseIP6_String by (metis go.inject(1))
lemma masked_plain:
  assumes "2 ^ 48 \<le> v" "v < 2 ^ 128" "k \<le> 128"
  shows "ip6_plain (v div 2 ^ k * 2 ^ k)"
proof -
  have ok: "ip6_ok (v div 2 ^ k * 2 ^ k)" using assms by (intro ip6_ok_block) (simp add: ip6_ok_def)
  consider "v div 2 ^ k = 0" | "48 \<le> k" "1 \<le> v div 2 ^ k" | "k < 48"
    using assms(1) pos_imp_zdiv_nonneg_iff [of "2 ^ k" v] by fastforce
  then have "v div 2 ^ k * 2 ^ k = 0 \<or> 2 ^ 48 \<le> v div 2 ^ k * 2 ^ k"
  proof cases
    case 2
    have "(2::int) ^ 48 \<le> 2 ^ k" using 2(1) by (rule power_increasing) simp
    also have "\<dots> \<le> v div 2 ^ k * 2 ^ k" using 2(2) by simp
    finally show ?thesis ..
  next
    case 3
    have e: "(2::int) ^ 48 = 2 ^ (48 - k) * 2 ^ k" using 3 by (simp flip: power_add)
    have "2 ^ (48 - k) * 2 ^ k div 2 ^ k \<le> v div 2 ^ k"
      using assms(1) unfolding e by (rule zdiv_mono1) simp
    then have "2 ^ (48 - k) \<le> v div 2 ^ k" by simp
    then have "2 ^ 48 \<le> v div 2 ^ k * 2 ^ k" unfolding e by (rule mult_right_mono) simp
    then show ?thesis ..
  qed simp
  then show ?thesis using ip6_plain_zero ip6_plain_high ok by (auto simp: ip6_ok_def)
qed

definition ip6_addrs :: "IP6Net \<Rightarrow> IP6 set" where
  "ip6_addrs n = {w. ip6_ok w \<and> (case ip6_IP n of None \<Rightarrow> False | Some v \<Rightarrow> v div 2 ^ ip6_bits n = w div 2 ^ ip6_bits n)}"

lemma int_div_coarser:
  "(k::nat) \<le> l \<Longrightarrow> x div 2 ^ k = y div 2 ^ k \<Longrightarrow> (x::int) div 2 ^ l = y div 2 ^ l"
  by (metis div_exp_eq le_add_diff_inverse)

lemma ip6_overlap_blocks:
  assumes "ip6_IP n = Some v" "ip6_ok v" "ip6_IP m = Some w" "ip6_ok w"
  shows "v div 2 ^ max (ip6_bits n) (ip6_bits m) = w div 2 ^ max (ip6_bits n) (ip6_bits m) \<longleftrightarrow>
    ip6_addrs n \<inter> ip6_addrs m \<noteq> {}"
proof
  let ?k = "max (ip6_bits n) (ip6_bits m)"
  assume eq: "v div 2 ^ ?k = w div 2 ^ ?k"
  show "ip6_addrs n \<inter> ip6_addrs m \<noteq> {}"
  proof (cases "ip6_bits n \<le> ip6_bits m")
    case True
    with eq have "v \<in> ip6_addrs n \<inter> ip6_addrs m" using assms by (simp add: ip6_addrs_def max_def)
    then show ?thesis by blast
  next
    case False
    with eq have "w \<in> ip6_addrs n \<inter> ip6_addrs m" using assms by (simp add: ip6_addrs_def max_def)
    then show ?thesis by blast
  qed
next
  let ?k = "max (ip6_bits n) (ip6_bits m)"
  assume "ip6_addrs n \<inter> ip6_addrs m \<noteq> {}"
  then obtain x where "v div 2 ^ ip6_bits n = x div 2 ^ ip6_bits n" "w div 2 ^ ip6_bits m = x div 2 ^ ip6_bits m"
    using assms by (auto simp: ip6_addrs_def)
  then have "v div 2 ^ ?k = x div 2 ^ ?k" "w div 2 ^ ?k = x div 2 ^ ?k"
    by (auto intro: int_div_coarser [OF max.cobounded1] int_div_coarser [OF max.cobounded2])
  then show "v div 2 ^ ?k = w div 2 ^ ?k" by simp
qed

section \<open>Properties\<close>

text \<open>
  C12. For IPv6 networks whose addresses lie above the IPv4-mapped range, comparing the texts
  of the masked addresses is exact: \<open>Overlaps\<close> does not panic and answers true just when the
  two networks have an address in common.
\<close>

theorem ip6_overlaps_exact:
  assumes "ip6_IP n = Some v" "2 ^ 48 \<le> v" "v < 2 ^ 128" "ip6_PrefixLen n \<le> 128"
    and "ip6_IP m = Some w" "2 ^ 48 \<le> w" "w < 2 ^ 128" "ip6_PrefixLen m \<le> 128"
  shows "IP6Net_Overlaps n m = Ok (ip6_addrs n \<inter> ip6_addrs m \<noteq> {})"
proof -
  define x where "x = (if ip6_PrefixLen n < ip6_PrefixLen m then n else m)"
  have x: "ip6_PrefixLen x \<le> 128" "ip6_bits x = max (ip6_bits n) (ip6_bits m)"
    using assms(4,8) by (auto simp: x_def ip6_bits_def max_def word_less_nat_alt word_le_nat_alt)
  have ok: "ip6_ok v" "ip6_ok w" using assms by (simp_all add: ip6_ok_def)
  have mask: "(if ip6_PrefixLen n < ip6_PrefixLen m then IP6Net_Mask n else IP6Net_Mask m) = IP6Net_Mask x"
    by (simp add: x_def)
  have pl: "ip6_plain (v AND IP6Net_Mask x)" "ip6_plain (w AND IP6Net_Mask x)"
    using masked_plain [of v "ip6_bits x"] masked_plain [of w "ip6_bits x"] assms ok x(1)
    by (simp_all add: AND_IP6Net_Mask)
  obtain s t where st: "IP6_String (v AND IP6Net_Mask x) = Ok s" "IP6_String (w AND IP6Net_Mask x) = Ok t"
    using ParseIP6_String [OF pl(1)] ParseIP6_String [OF pl(2)] by blast
  have "s = t \<longleftrightarrow> v AND IP6Net_Mask x = w AND IP6Net_Mask x"
    using IP6_String_plain_inject [OF pl] st by simp
  also have "\<dots> \<longleftrightarrow> v div 2 ^ ip6_bits x = w div 2 ^ ip6_bits x"
    using ok x(1) by (simp add: AND_IP6Net_Mask)
  also have "\<dots> \<longleftrightarrow> ip6_addrs n \<inter> ip6_addrs m \<noteq> {}"
    unfolding x(2) by (rule ip6_overlap_blocks [OF assms(1) ok(1) assms(5) ok(2)])
  finally show ?thesis
    using assms(1,5) st by (simp add: IP6Net_Overlaps_def mask)
qed

theorem ip6_overlaps_exact_witness:
  "\<exists>a. a \<in> ip6_addrs \<lparr>ip6_IP = Some 0xfd000001000000000000000000000000, ip6_PrefixLen = 32\<rparr> \<inter>
          ip6_addrs \<lparr>ip6_IP = Some 0xfd000001000200000000000000000000, ip6_PrefixLen = 48\<rparr>"
proof -
  let ?n = "\<lparr>ip6_IP = Some 0xfd000001000000000000000000000000, ip6_PrefixLen = 32\<rparr>"
  let ?m = "\<lparr>ip6_IP = Some 0xfd000001000200000000000000000000, ip6_PrefixLen = 48\<rparr>"
  have "IP6Net_Overlaps ?n ?m = Ok True" by (simp add: go_eval)
  moreover have "IP6Net_Overlaps ?n ?m = Ok (ip6_addrs ?n \<inter> ip6_addrs ?m \<noteq> {})"
    by (rule ip6_overlaps_exact [where v = "0xfd000001000000000000000000000000" and
          w = "0xfd000001000200000000000000000000"]) simp_all
  ultimately show ?thesis by auto
qed


lemma IP6_Unmarshal_Marshal:
  assumes "ip6_plain v"
  shows "IP6_UnmarshalJSON (IP6_MarshalJSON v) = Ok v"
proof -
  obtain s where s: "IP6_String v = Ok s" "ParseIP6 s = Ok v" "\<forall>c \<in> set s. hex_digit c \<noteq> None \<or> c = chr_colon"
    using ParseIP6_String [OF assms] by blast
  have "hex_digit chr_quote = None" by (simp add: hex_digit_def code_of_def)
  then have "chr_quote \<notin> set s" using s(3) by fastforce
  with s show ?thesis by (simp add: IP6_UnmarshalJSON_def IP6_MarshalJSON_def Trim_quoted)
qed



end
