(* ===== verification/Keyed_Store.thy ===== *)
theory Keyed_Store
  imports Flannel_Prelude
begin

text \<open>
  The contract shared by the collections the program keeps up to date from streams of
  events: a store of entries with a key, in which putting an entry replaces the entry with
  the same key and deleting removes it. The client lemmas describe the replay of a sequence
  of events.
\<close>

datatype ('k, 'v) store_op = Put 'v | Del 'k

locale keyed_store =
  fixes key :: "'v \<Rightarrow> 'k"
    and ok :: "'s \<Rightarrow> bool"
    and lookup :: "'s \<Rightarrow> 'k \<Rightarrow> 'v option"
    and put :: "'v \<Rightarrow> 's \<Rightarrow> 's"
    and del :: "'k \<Rightarrow> 's \<Rightarrow> 's"
  assumes ok_put: "ok s \<Longrightarrow> ok (put v s)"
    and ok_del: "ok s \<Longrightarrow> ok (del k s)"
    and lookup_put: "ok s \<Longrightarrow> lookup (put v s) k = (if k = key v then Some v else lookup s k)"
    and lookup_del: "ok s \<Longrightarrow> lookup (del k' s) k = (if k = k' then None else lookup s k)"
begin

primrec step :: "('k, 'v) store_op \<Rightarrow> 's \<Rightarrow> 's" where
  "step (Put v) s = put v s"
| "step (Del k) s = del k s"

definition replay :: "('k, 'v) store_op list \<Rightarrow> 's \<Rightarrow> 's" where
  "replay ops s = fold step ops s"

text \<open>What the last event about a key leaves there.\<close>

primrec effect :: "('k, 'v) store_op \<Rightarrow> 'k \<Rightarrow> 'v option \<Rightarrow> 'v option" where
  "effect (Put v) k r = (if k = key v then Some v else r)"
| "effect (Del k') k r = (if k = k' then None else r)"

definition touches :: "('k, 'v) store_op \<Rightarrow> 'k \<Rightarrow> bool" where
  "touches opn k = (case opn of Put v \<Rightarrow> k = key v | Del k' \<Rightarrow> k = k')"

lemma ok_step: "ok s \<Longrightarrow> ok (step opn s)"
  by (cases opn) (simp_all add: ok_put ok_del)

lemma lookup_step: "ok s \<Longrightarrow> lookup (step opn s) k = effect opn k (lookup s k)"
  by (cases opn) (simp_all add: lookup_put lookup_del)

lemma ok_replay: "ok s \<Longrightarrow> ok (replay ops s)"
  unfolding replay_def by (induction ops arbitrary: s) (simp_all add: ok_step)

lemma lookup_replay: "ok s \<Longrightarrow> lookup (replay ops s) k = fold (\<lambda>opn. effect opn k) ops (lookup s k)"
  unfolding replay_def by (induction ops arbitrary: s) (simp_all add: ok_step lookup_step)

lemma effect_touched: "touches opn k \<Longrightarrow> effect opn k r = effect opn k r'"
  by (cases opn) (simp_all add: touches_def)

lemma effect_untouched: "\<not> touches opn k \<Longrightarrow> effect opn k r = r"
  by (cases opn) (simp_all add: touches_def)

lemma fold_effect_untouched:
  "\<forall>opn \<in> set ops. \<not> touches opn k \<Longrightarrow> fold (\<lambda>opn. effect opn k) ops r = r"
  by (induction ops) (simp_all add: effect_untouched)

lemma fold_effect_touched:
  "\<exists>opn \<in> set ops. touches opn k \<Longrightarrow>
   fold (\<lambda>opn. effect opn k) ops r = fold (\<lambda>opn. effect opn k) ops r'"
proof (induction ops arbitrary: r r')
  case (Cons opn ops)
  show ?case
  proof (cases "touches opn k")
    case True
    then show ?thesis using effect_touched [of opn k r r'] by simp
  next
    case False
    with Cons.prems have "\<exists>opn \<in> set ops. touches opn k" by simp
    from Cons.IH [OF this, of "effect opn k r" "effect opn k r'"] show ?thesis by simp
  qed
qed simp

text \<open>A key the batch does not mention keeps its entry.\<close>

lemma replay_frame:
  "ok s \<Longrightarrow> \<forall>opn \<in> set ops. \<not> touches opn k \<Longrightarrow> lookup (replay ops s) k = lookup s k"
  by (simp add: lookup_replay fold_effect_untouched)

text \<open>Events are delivered at least once: a batch that arrives twice changes nothing more.\<close>

lemma replay_twice:
  assumes "ok s"
  shows "lookup (replay ops (replay ops s)) k = lookup (replay ops s) k"
proof -
  let ?f = "fold (\<lambda>opn. effect opn k) ops"
  have "?f (?f (lookup s k)) = ?f (lookup s k)"
    using fold_effect_touched [of ops k "?f (lookup s k)" "lookup s k"]
      fold_effect_untouched [of ops k] by (cases "\<exists>opn \<in> set ops. touches opn k") auto
  with assms show ?thesis by (simp add: lookup_replay ok_replay)
qed

text \<open>Two histories that end with the same batch agree on every key the batch mentions.\<close>

lemma replay_converges:
  "ok s \<Longrightarrow> ok s' \<Longrightarrow> \<exists>opn \<in> set ops. touches opn k \<Longrightarrow>
   lookup (replay ops s) k = lookup (replay ops s') k"
  by (simp add: lookup_replay fold_effect_touched [of ops k "lookup s k" "lookup s' k"])

end

section \<open>Lists with distinct keys\<close>

definition lookup_by :: "('v \<Rightarrow> 'k) \<Rightarrow> 'v list \<Rightarrow> 'k \<Rightarrow> 'v option" where
  "lookup_by key xs k = find (\<lambda>x. key x = k) xs"

definition upsert_by :: "('v \<Rightarrow> 'k) \<Rightarrow> 'v \<Rightarrow> 'v list \<Rightarrow> 'v list" where
  "upsert_by key v xs =
     (if \<exists>x \<in> set xs. key x = key v then update_first (\<lambda>x. key x = key v) v xs else xs @ [v])"

definition delete_by :: "('v \<Rightarrow> 'k) \<Rightarrow> 'k \<Rightarrow> 'v list \<Rightarrow> 'v list" where
  "delete_by key k xs = remove_first (\<lambda>x. key x = k) xs"

abbreviation distinct_by :: "('v \<Rightarrow> 'k) \<Rightarrow> 'v list \<Rightarrow> bool" where
  "distinct_by key xs \<equiv> distinct (map key xs)"

lemma lookup_by_Nil [simp]: "lookup_by key [] k = None"
  and lookup_by_Cons [simp]:
    "lookup_by key (x # xs) k = (if key x = k then Some x else lookup_by key xs k)"
  by (simp_all add: lookup_by_def)

lemma lookup_by_append:
  "lookup_by key (xs @ ys) k = (case lookup_by key xs k of None \<Rightarrow> lookup_by key ys k | r \<Rightarrow> r)"
  by (induction xs) simp_all

lemma lookup_by_None: "lookup_by key xs k = None \<longleftrightarrow> k \<notin> key ` set xs"
  by (induction xs) auto

lemma lookup_by_Some: "distinct_by key xs \<Longrightarrow> lookup_by key xs k = Some x \<longleftrightarrow> x \<in> set xs \<and> key x = k"
  by (induction xs) (auto simp: image_iff)

lemma lookup_by_key: "lookup_by key xs k = Some x \<Longrightarrow> x \<in> set xs \<and> key x = k"
  by (induction xs) (auto split: if_splits)

lemma lookup_update_first:
  "\<exists>x \<in> set xs. key x = key v \<Longrightarrow>
   lookup_by key (update_first (\<lambda>x. key x = key v) v xs) k = (if k = key v then Some v else lookup_by key xs k)"
proof (induction xs)
  case (Cons x xs)
  then show ?case by (cases "key x = key v") auto
qed simp

lemma lookup_upsert:
  "lookup_by key (upsert_by key v xs) k = (if k = key v then Some v else lookup_by key xs k)"
proof (cases "\<exists>x \<in> set xs. key x = key v")
  case True
  then show ?thesis by (simp add: upsert_by_def lookup_update_first)
next
  case False
  then have "lookup_by key xs (key v) = None" by (auto simp: lookup_by_None)
  with False show ?thesis by (auto simp: upsert_by_def lookup_by_append split: option.splits)
qed

lemma map_update_first: "map key (update_first (\<lambda>x. key x = key v) v xs) = map key xs"
  by (rule map_update_first_key) simp

lemma distinct_upsert: "distinct_by key xs \<Longrightarrow> distinct_by key (upsert_by key v xs)"
  by (auto simp: upsert_by_def map_update_first)

lemma lookup_delete:
  "distinct_by key xs \<Longrightarrow> lookup_by key (delete_by key k' xs) k = (if k = k' then None else lookup_by key xs k)"
proof (induction xs)
  case (Cons x xs)
  then show ?case
    using lookup_by_None [of key xs k'] by (auto simp: delete_by_def image_iff)
qed (simp add: delete_by_def)

lemma distinct_delete: "distinct_by key xs \<Longrightarrow> distinct_by key (delete_by key k xs)"
  unfolding delete_by_def by (rule distinct_map_remove_first)

lemma filter_same_key: "distinct_by f xs \<Longrightarrow> x \<in> set xs \<Longrightarrow> filter (\<lambda>y. f y = f x) xs = [x]"
proof (induction xs)
  case (Cons y ys)
  then have ne: "f y \<notin> f ` set ys" by simp
  show ?case
  proof (cases "y = x")
    case True
    then have "\<forall>z \<in> set ys. f z \<noteq> f x" using ne by (metis imageI)
    with True show ?thesis by (simp add: filter_empty_conv)
  next
    case False
    with Cons.prems(2) have x: "x \<in> set ys" by simp
    then have "f y \<noteq> f x" using ne by (metis imageI)
    with Cons x show ?thesis by simp
  qed
qed simp

lemma length_upsert_le: "length (upsert_by key v xs) \<le> Suc (length xs)"
  by (simp add: upsert_by_def)

lemma keyed_store_list: "keyed_store key (distinct_by key) (lookup_by key) (upsert_by key) (delete_by key)"
  by unfold_locales
    (simp_all add: distinct_upsert distinct_delete lookup_upsert lookup_delete)

lemmas [go_eval] = lookup_by_def upsert_by_def delete_by_def

end
