(* ===== verification/Lease_Watch.thy ===== *)
theory Lease_Watch
  imports IP6_Net Keyed_Store
begin

text \<open>
  \<open>pkg/lease/lease.go\<close>: leases, lease events and the watcher that keeps the leases of the
  other nodes up to date from snapshots and events. Times are nanoseconds since Go's zero time,
  so that \<open>0\<close> is the zero \<open>time.Time\<close>, and an absent \<open>json.RawMessage\<close> is \<open>None\<close>.
\<close>

section \<open>Data\<close>

datatype EventType = EventAdded | EventRemoved

record LeaseAttrs =
  la_PublicIP :: IP4
  la_PublicIPv6 :: IP6ptr
  la_BackendType :: string
  la_BackendData :: "string option"
  la_BackendV6Data :: "string option"

record Lease =
  lease_EnableIPv4 :: bool
  lease_EnableIPv6 :: bool
  lease_Subnet :: IP4Net
  lease_IPv6Subnet :: IP6Net
  lease_Attrs :: LeaseAttrs
  lease_Expiration :: int
  lease_Asof :: int

record Event =
  ev_Type :: EventType
  ev_Lease :: Lease

text \<open>
  The cursor of a watch has an interface type: the registries store a \<open>watchCursor\<close> or a
  plain index in it, and \<open>getNextIndex\<close> also accepts a string.
\<close>

datatype cursor = WatchCursor int | CursorIndex int | CursorText string

record LeaseWatchResult =
  wr_Events :: "Event list"
  wr_Snapshot :: "Lease list"
  wr_Cursor :: "cursor option"

record LeaseWatcher =
  lw_OwnLease :: "Lease option"
  lw_Leases :: "Lease list"

section \<open>Operations\<close>

text \<open>Comparing IPv6 subnets panics when exactly one of the two addresses is nil.\<close>

definition sameSubnet :: "bool \<Rightarrow> bool \<Rightarrow> Lease \<Rightarrow> Lease \<Rightarrow> bool go" where
  "sameSubnet ipv4Enabled ipv6Enabled firstLease secondLease =
     (let v4 = IP4Net_Equal (lease_Subnet firstLease) (lease_Subnet secondLease);
          v6 = IP6Net_Equal (lease_IPv6Subnet firstLease) (lease_IPv6Subnet secondLease) in
      if ipv4Enabled \<and> \<not> ipv6Enabled then Ok v4
      else if \<not> ipv4Enabled \<and> ipv6Enabled then v6
      else if ipv4Enabled \<and> ipv6Enabled then (if v4 then v6 else Ok False)
      else Ok v4)"

text \<open>The search loops: the first lease with the same subnet, with the leases around it.\<close>

fun split_same :: "Lease list \<Rightarrow> Lease \<Rightarrow> (Lease list \<times> Lease \<times> Lease list) option go" where
  "split_same [] nl = Ok None"
| "split_same (l # ls) nl =
     go_bind (sameSubnet (lease_EnableIPv4 l) (lease_EnableIPv6 l) l nl) (\<lambda>same.
       if same then Ok (Some ([], l, ls))
       else go_bind (split_same ls nl) (\<lambda>r.
              Ok (map_option (\<lambda>(before, x, after). (l # before, x, after)) r)))"

definition own_lease :: "LeaseWatcher \<Rightarrow> Lease \<Rightarrow> bool go" where
  "own_lease lw l =
     go_bind (deref (lw_OwnLease lw)) (\<lambda>own.
       sameSubnet (lease_EnableIPv4 l) (lease_EnableIPv6 l) own l)"

fun reset_loop :: "LeaseWatcher \<Rightarrow> Lease list \<Rightarrow> Event list \<Rightarrow> (LeaseWatcher \<times> Event list) go" where
  "reset_loop lw [] batch = Ok (lw, batch)"
| "reset_loop lw (nl # leases) batch =
     go_bind (own_lease lw nl) (\<lambda>own.
       if own then reset_loop lw leases batch
       else go_bind (split_same (lw_Leases lw) nl) (\<lambda>r.
         (case r of
            Some (before, _, after) \<Rightarrow> reset_loop (lw\<lparr>lw_Leases := before @ after\<rparr>) leases batch
          | None \<Rightarrow> reset_loop lw leases (batch @ [\<lparr>ev_Type = EventAdded, ev_Lease = nl\<rparr>]))))"

definition lw_Reset :: "LeaseWatcher \<Rightarrow> Lease list \<Rightarrow> (LeaseWatcher \<times> Event list) go" where
  "lw_Reset lw leases =
     go_bind (reset_loop lw leases []) (\<lambda>(lw', batch).
       Ok (lw'\<lparr>lw_Leases := leases\<rparr>,
           batch @ map (\<lambda>l. \<lparr>ev_Type = EventRemoved, ev_Lease = l\<rparr>) (lw_Leases lw')))"

definition lw_add :: "LeaseWatcher \<Rightarrow> Lease \<Rightarrow> (LeaseWatcher \<times> Event) go" where
  "lw_add lw l =
     go_bind (split_same (lw_Leases lw) l) (\<lambda>r.
       Ok (lw\<lparr>lw_Leases := (case r of
                              Some (before, _, after) \<Rightarrow> before @ l # after
                            | None \<Rightarrow> lw_Leases lw @ [l])\<rparr>,
           \<lparr>ev_Type = EventAdded, ev_Lease = l\<rparr>))"

definition lw_remove :: "LeaseWatcher \<Rightarrow> Lease \<Rightarrow> (LeaseWatcher \<times> Event) go" where
  "lw_remove lw l =
     go_bind (split_same (lw_Leases lw) l) (\<lambda>r.
       Ok (case r of
             Some (before, x, after) \<Rightarrow>
               (lw\<lparr>lw_Leases := before @ after\<rparr>, \<lparr>ev_Type = EventRemoved, ev_Lease = x\<rparr>)
           | None \<Rightarrow> (lw, \<lparr>ev_Type = EventRemoved, ev_Lease = l\<rparr>)))"

fun update_loop :: "LeaseWatcher \<Rightarrow> Event list \<Rightarrow> Event list \<Rightarrow> (LeaseWatcher \<times> Event list) go" where
  "update_loop lw [] batch = Ok (lw, batch)"
| "update_loop lw (e # events) batch =
     go_bind (own_lease lw (ev_Lease e)) (\<lambda>own.
       if own then update_loop lw events batch
       else go_bind (case ev_Type e of EventAdded \<Rightarrow> lw_add lw (ev_Lease e)
                                     | EventRemoved \<Rightarrow> lw_remove lw (ev_Lease e))
              (\<lambda>(lw', ev). update_loop lw' events (batch @ [ev])))"

definition lw_Update :: "LeaseWatcher \<Rightarrow> Event list \<Rightarrow> (LeaseWatcher \<times> Event list) go" where
  "lw_Update lw events = update_loop lw events []"

lemmas [go_eval] =
  sameSubnet_def own_lease_def lw_Reset_def lw_add_def lw_remove_def lw_Update_def

section \<open>The watched leases as a keyed store\<close>

text \<open>
  Leases of one deployment agree on the enabled families; a lease is then identified by the
  subnets of those families. Leases stored by etcd have both flags unset and are identified
  by the IPv4 subnet.
\<close>

definition lease_key :: "bool \<Rightarrow> bool \<Rightarrow> Lease \<Rightarrow> IP4Net option \<times> IP6Net option" where
  "lease_key v4 v6 l =
     (if v4 \<or> \<not> v6 then Some (lease_Subnet l) else None, if v6 then Some (lease_IPv6Subnet l) else None)"

definition lease_ok :: "bool \<Rightarrow> bool \<Rightarrow> Lease \<Rightarrow> bool" where
  "lease_ok v4 v6 l \<longleftrightarrow>
     lease_EnableIPv4 l = v4 \<and> lease_EnableIPv6 l = v6 \<and> (v6 \<longrightarrow> ip6_wf (lease_IPv6Subnet l))"

definition lw_ok :: "bool \<Rightarrow> bool \<Rightarrow> LeaseWatcher \<Rightarrow> bool" where
  "lw_ok v4 v6 lw \<longleftrightarrow>
     (case lw_OwnLease lw of None \<Rightarrow> False | Some own \<Rightarrow> lease_ok v4 v6 own) \<and>
     (\<forall>l \<in> set (lw_Leases lw). lease_ok v4 v6 l) \<and> distinct_by (lease_key v4 v6) (lw_Leases lw)"

interpretation lws: keyed_store "lease_key v4 v6" "distinct_by (lease_key v4 v6)"
  "lookup_by (lease_key v4 v6)" "upsert_by (lease_key v4 v6)" "delete_by (lease_key v4 v6)" for v4 v6
  by (rule keyed_store_list)

lemma sameSubnet_key:
  assumes "lease_ok v4 v6 l" "lease_ok v4 v6 m"
  shows "sameSubnet v4 v6 l m = Ok (lease_key v4 v6 l = lease_key v4 v6 m)"
proof -
  have "IP4Net_Equal x y \<longleftrightarrow> x = y" for x y by (cases x, cases y) (simp add: IP4Net_Equal_def)
  with assms show ?thesis
    by (auto simp: sameSubnet_def lease_key_def lease_ok_def IP6Net_Equal_total Let_def)
qed

lemma split_same_key:
  assumes "\<forall>l \<in> set ls. lease_ok v4 v6 l" "lease_ok v4 v6 nl"
  shows "\<exists>r. split_same ls nl = Ok r \<and>
     (case r of
        None \<Rightarrow> lease_key v4 v6 nl \<notin> lease_key v4 v6 ` set ls
      | Some (b, x, a) \<Rightarrow> ls = b @ x # a \<and> lease_key v4 v6 x = lease_key v4 v6 nl \<and>
          lease_key v4 v6 nl \<notin> lease_key v4 v6 ` set b)"
  using assms(1)
proof (induction ls)
  case (Cons l ls)
  then obtain r where r: "split_same ls nl = Ok r"
    "case r of None \<Rightarrow> lease_key v4 v6 nl \<notin> lease_key v4 v6 ` set ls
      | Some (b, x, a) \<Rightarrow> ls = b @ x # a \<and> lease_key v4 v6 x = lease_key v4 v6 nl \<and>
          lease_key v4 v6 nl \<notin> lease_key v4 v6 ` set b" by auto
  have "sameSubnet (lease_EnableIPv4 l) (lease_EnableIPv6 l) l nl = Ok (lease_key v4 v6 l = lease_key v4 v6 nl)"
    using Cons.prems assms(2) sameSubnet_key [of v4 v6 l nl] by (simp add: lease_ok_def)
  with r show ?case
    by (cases "lease_key v4 v6 l = lease_key v4 v6 nl") (auto split: option.splits)
qed simp

lemma split_same_None:
  assumes "\<forall>l \<in> set ls. lease_ok v4 v6 l" "lease_ok v4 v6 nl" "lease_key v4 v6 nl \<notin> lease_key v4 v6 ` set ls"
  shows "split_same ls nl = Ok None"
proof -
  obtain r where "split_same ls nl = Ok r"
    "case r of None \<Rightarrow> True | Some (b, x, a) \<Rightarrow> ls = b @ x # a \<and> lease_key v4 v6 x = lease_key v4 v6 nl"
    using split_same_key [OF assms(1,2)] by (auto split: option.splits)
  with assms(3) show ?thesis by (cases r) auto
qed

lemma split_same_Some:
  assumes "\<forall>l \<in> set ls. lease_ok v4 v6 l" "lease_ok v4 v6 nl" "lease_key v4 v6 nl \<in> lease_key v4 v6 ` set ls"
  obtains b x a where "split_same ls nl = Ok (Some (b, x, a))" "ls = b @ x # a"
    "lease_key v4 v6 x = lease_key v4 v6 nl" "lease_key v4 v6 nl \<notin> lease_key v4 v6 ` set b"
  using split_same_key [OF assms(1,2)] assms(3) by (auto split: option.splits)

lemma update_first_split:
  "\<forall>y \<in> set b. \<not> p y \<Longrightarrow> p x \<Longrightarrow> update_first p v (b @ x # a) = b @ v # a"
  by (induction b) auto

lemma remove_first_split:
  "\<forall>y \<in> set b. \<not> p y \<Longrightarrow> p x \<Longrightarrow> remove_first p (b @ x # a) = b @ a"
  by (induction b) auto

lemma lw_add_upsert:
  assumes "lw_ok v4 v6 lw" "lease_ok v4 v6 l"
  shows "lw_add lw l = Ok (lw\<lparr>lw_Leases := upsert_by (lease_key v4 v6) l (lw_Leases lw)\<rparr>,
                           \<lparr>ev_Type = EventAdded, ev_Lease = l\<rparr>)"
proof (cases "lease_key v4 v6 l \<in> lease_key v4 v6 ` set (lw_Leases lw)")
  case True
  have ok: "\<forall>l \<in> set (lw_Leases lw). lease_ok v4 v6 l" using assms(1) by (simp add: lw_ok_def)
  obtain b x a where s: "split_same (lw_Leases lw) l = Ok (Some (b, x, a))" "lw_Leases lw = b @ x # a"
    "lease_key v4 v6 x = lease_key v4 v6 l" "lease_key v4 v6 l \<notin> lease_key v4 v6 ` set b"
    by (rule split_same_Some [OF ok assms(2) True])
  then have "\<forall>y \<in> set b. lease_key v4 v6 y \<noteq> lease_key v4 v6 l" by (metis imageI)
  with s show ?thesis by (simp add: lw_add_def upsert_by_def update_first_split)
next
  case False
  have ok: "\<forall>l \<in> set (lw_Leases lw). lease_ok v4 v6 l" using assms(1) by (simp add: lw_ok_def)
  from False have "\<not> (\<exists>x \<in> set (lw_Leases lw). lease_key v4 v6 x = lease_key v4 v6 l)" by (metis imageI)
  then show ?thesis by (simp add: lw_add_def upsert_by_def split_same_None [OF ok assms(2) False])
qed

lemma lw_remove_delete:
  assumes "lw_ok v4 v6 lw" "lease_ok v4 v6 l"
  shows "lw_remove lw l = Ok (lw\<lparr>lw_Leases := delete_by (lease_key v4 v6) (lease_key v4 v6 l) (lw_Leases lw)\<rparr>,
           \<lparr>ev_Type = EventRemoved,
            ev_Lease = (case lookup_by (lease_key v4 v6) (lw_Leases lw) (lease_key v4 v6 l) of
                          None \<Rightarrow> l | Some x \<Rightarrow> x)\<rparr>)"
proof (cases "lease_key v4 v6 l \<in> lease_key v4 v6 ` set (lw_Leases lw)")
  case True
  have ok: "\<forall>l \<in> set (lw_Leases lw). lease_ok v4 v6 l" using assms(1) by (simp add: lw_ok_def)
  obtain b x a where s: "split_same (lw_Leases lw) l = Ok (Some (b, x, a))" "lw_Leases lw = b @ x # a"
    "lease_key v4 v6 x = lease_key v4 v6 l" "lease_key v4 v6 l \<notin> lease_key v4 v6 ` set b"
    by (rule split_same_Some [OF ok assms(2) True])
  then have "\<forall>y \<in> set b. lease_key v4 v6 y \<noteq> lease_key v4 v6 l" by (metis imageI)
  moreover have "lookup_by (lease_key v4 v6) b (lease_key v4 v6 l) = None" using s(4) by (simp add: lookup_by_None)
  ultimately show ?thesis
    using s by (simp add: lw_remove_def delete_by_def remove_first_split lookup_by_append)
next
  case False
  have ok: "\<forall>l \<in> set (lw_Leases lw). lease_ok v4 v6 l" using assms(1) by (simp add: lw_ok_def)
  from False have "\<forall>x \<in> set (lw_Leases lw). lease_key v4 v6 x \<noteq> lease_key v4 v6 l" by (metis imageI)
  moreover have "lookup_by (lease_key v4 v6) (lw_Leases lw) (lease_key v4 v6 l) = None"
    using False by (simp add: lookup_by_None)
  ultimately show ?thesis
    by (simp add: lw_remove_def delete_by_def split_same_None [OF ok assms(2) False])
qed

definition own_key :: "bool \<Rightarrow> bool \<Rightarrow> LeaseWatcher \<Rightarrow> IP4Net option \<times> IP6Net option" where
  "own_key v4 v6 lw = lease_key v4 v6 (the (lw_OwnLease lw))"

definition event_op :: "bool \<Rightarrow> bool \<Rightarrow> Event \<Rightarrow> (IP4Net option \<times> IP6Net option, Lease) store_op" where
  "event_op v4 v6 e =
     (case ev_Type e of EventAdded \<Rightarrow> Put (ev_Lease e) | EventRemoved \<Rightarrow> Del (lease_key v4 v6 (ev_Lease e)))"

abbreviation event_key :: "bool \<Rightarrow> bool \<Rightarrow> Event \<Rightarrow> IP4Net option \<times> IP6Net option" where
  "event_key v4 v6 e \<equiv> lease_key v4 v6 (ev_Lease e)"

abbreviation event_sig :: "bool \<Rightarrow> bool \<Rightarrow> Event \<Rightarrow> EventType \<times> (IP4Net option \<times> IP6Net option)" where
  "event_sig v4 v6 e \<equiv> (ev_Type e, event_key v4 v6 e)"

definition foreign_events :: "bool \<Rightarrow> bool \<Rightarrow> LeaseWatcher \<Rightarrow> Event list \<Rightarrow> Event list" where
  "foreign_events v4 v6 lw events = filter (\<lambda>e. event_key v4 v6 e \<noteq> own_key v4 v6 lw) events"

lemma own_lease_key:
  "lw_ok v4 v6 lw \<Longrightarrow> lease_ok v4 v6 l \<Longrightarrow> own_lease lw l = Ok (lease_key v4 v6 l = own_key v4 v6 lw)"
  using sameSubnet_key [of v4 v6 "the (lw_OwnLease lw)" l]
  by (auto simp: own_lease_def lw_ok_def own_key_def lease_ok_def split: option.splits)

lemma own_key_update [simp]: "own_key v4 v6 (lw\<lparr>lw_Leases := ls\<rparr>) = own_key v4 v6 lw"
  by (simp add: own_key_def)

lemma lw_ok_update:
  "lw_ok v4 v6 lw \<Longrightarrow> \<forall>l \<in> set ls. lease_ok v4 v6 l \<Longrightarrow> distinct_by (lease_key v4 v6) ls \<Longrightarrow>
   lw_ok v4 v6 (lw\<lparr>lw_Leases := ls\<rparr>)"
  by (simp add: lw_ok_def)

lemma set_update_first_subset: "set (update_first p y xs) \<subseteq> insert y (set xs)"
  by (induction xs) auto

lemma set_upsert_subset: "set (upsert_by f v xs) \<subseteq> insert v (set xs)"
  using set_update_first_subset [of "\<lambda>x. f x = f v" v xs] by (auto simp: upsert_by_def)

lemma lw_ok_step:
  assumes "lw_ok v4 v6 lw" "lease_ok v4 v6 (ev_Lease e)"
  shows "lw_ok v4 v6 (lw\<lparr>lw_Leases := lws.step v4 v6 (event_op v4 v6 e) (lw_Leases lw)\<rparr>)"
proof (rule lw_ok_update [OF assms(1)])
  show "\<forall>l \<in> set (lws.step v4 v6 (event_op v4 v6 e) (lw_Leases lw)). lease_ok v4 v6 l"
    using assms set_upsert_subset [of "lease_key v4 v6" "ev_Lease e" "lw_Leases lw"]
      set_remove_first_subset [of "\<lambda>l. lease_key v4 v6 l = event_key v4 v6 e" "lw_Leases lw"]
    by (auto simp: event_op_def lw_ok_def delete_by_def split: EventType.splits)
  show "distinct_by (lease_key v4 v6) (lws.step v4 v6 (event_op v4 v6 e) (lw_Leases lw))"
    using assms(1) by (intro lws.ok_step) (simp add: lw_ok_def)
qed

lemma lw_ok_replay:
  "lw_ok v4 v6 lw \<Longrightarrow> \<forall>e \<in> set events. lease_ok v4 v6 (ev_Lease e) \<Longrightarrow>
   lw_ok v4 v6 (lw\<lparr>lw_Leases := lws.replay v4 v6 (map (event_op v4 v6) events) (lw_Leases lw)\<rparr>)"
proof (induction events arbitrary: lw)
  case (Cons e events)
  from Cons.IH [OF lw_ok_step [OF Cons.prems(1), of e]] Cons.prems(2) show ?case
    by (simp add: lws.replay_def)
qed (simp add: lws.replay_def)

lemma update_loop_replay:
  assumes "lw_ok v4 v6 lw" "\<forall>e \<in> set events. lease_ok v4 v6 (ev_Lease e)"
  shows "\<exists>evs. update_loop lw events batch =
           Ok (lw\<lparr>lw_Leases := lws.replay v4 v6 (map (event_op v4 v6) (foreign_events v4 v6 lw events)) (lw_Leases lw)\<rparr>,
               batch @ evs) \<and>
         map (event_sig v4 v6) evs = map (event_sig v4 v6) (foreign_events v4 v6 lw events)"
  using assms
proof (induction events arbitrary: lw batch)
  case Nil
  then show ?case by (simp add: foreign_events_def lws.replay_def)
next
  case (Cons e events)
  then have ok: "lease_ok v4 v6 (ev_Lease e)" by simp
  note own = own_lease_key [OF Cons.prems(1) ok]
  show ?case
  proof (cases "event_key v4 v6 e = own_key v4 v6 lw")
    case True
    with own Cons show ?thesis by (simp add: foreign_events_def)
  next
    case False
    let ?lw = "lw\<lparr>lw_Leases := lws.step v4 v6 (event_op v4 v6 e) (lw_Leases lw)\<rparr>"
    obtain ev where ev: "(case ev_Type e of EventAdded \<Rightarrow> lw_add lw (ev_Lease e)
        | EventRemoved \<Rightarrow> lw_remove lw (ev_Lease e)) = Ok (?lw, ev)"
      "ev_Type ev = ev_Type e" "event_key v4 v6 ev = event_key v4 v6 e"
      using lw_add_upsert [OF Cons.prems(1) ok] lw_remove_delete [OF Cons.prems(1) ok]
        lookup_by_key [of "lease_key v4 v6" "lw_Leases lw" "event_key v4 v6 e"]
      by (cases "ev_Type e") (auto simp: event_op_def split: option.splits)
    obtain evs where "update_loop ?lw events (batch @ [ev]) =
           Ok (?lw\<lparr>lw_Leases := lws.replay v4 v6 (map (event_op v4 v6) (foreign_events v4 v6 ?lw events)) (lw_Leases ?lw)\<rparr>,
               (batch @ [ev]) @ evs)"
      "map (event_sig v4 v6) evs = map (event_sig v4 v6) (foreign_events v4 v6 ?lw events)"
      using Cons.IH [of ?lw "batch @ [ev]"] lw_ok_step [OF Cons.prems(1) ok] Cons.prems(2) by auto
    with False own ev show ?thesis
      by (intro exI [of _ "ev # evs"]) (simp add: foreign_events_def lws.replay_def)
  qed
qed

lemma lw_Update_replay:
  assumes "lw_ok v4 v6 lw" "\<forall>e \<in> set events. lease_ok v4 v6 (ev_Lease e)"
  obtains evs where "lw_Update lw events =
      Ok (lw\<lparr>lw_Leases := lws.replay v4 v6 (map (event_op v4 v6) (foreign_events v4 v6 lw events)) (lw_Leases lw)\<rparr>, evs)"
    "map (event_sig v4 v6) evs = map (event_sig v4 v6) (foreign_events v4 v6 lw events)"
  using update_loop_replay [OF assms, of "[]"] by (auto simp: lw_Update_def)

section \<open>Snapshots\<close>

lemma filter_remove_key:
  "distinct_by f xs \<Longrightarrow> filter (\<lambda>x. f x \<notin> K) (delete_by f k xs) = filter (\<lambda>x. f x \<notin> insert k K) xs"
  by (auto simp: delete_by_def remove_first_key intro!: filter_cong)

lemma delete_by_split:
  "f x = k \<Longrightarrow> k \<notin> f ` set b \<Longrightarrow> delete_by f k (b @ x # a) = b @ a"
  unfolding delete_by_def by (rule remove_first_split) (metis imageI, simp)

lemma key_image_delete: "distinct_by f xs \<Longrightarrow> f ` set (delete_by f k xs) = f ` set xs - {k}"
  by (auto simp: delete_by_def remove_first_key)

lemma reset_loop_diff:
  assumes "lw_ok v4 v6 lw" "\<forall>l \<in> set leases. lease_ok v4 v6 l" "distinct_by (lease_key v4 v6) leases"
  shows "reset_loop lw leases batch =
     Ok (lw\<lparr>lw_Leases := filter (\<lambda>l. lease_key v4 v6 l \<notin> lease_key v4 v6 ` set leases - {own_key v4 v6 lw}) (lw_Leases lw)\<rparr>,
         batch @ map (\<lambda>l. \<lparr>ev_Type = EventAdded, ev_Lease = l\<rparr>)
           (filter (\<lambda>l. lease_key v4 v6 l \<noteq> own_key v4 v6 lw \<and>
                        lease_key v4 v6 l \<notin> lease_key v4 v6 ` set (lw_Leases lw)) leases))"
  using assms
proof (induction leases arbitrary: lw batch)
  case Nil
  then show ?case by simp
next
  case (Cons nl leases)
  let ?k = "lease_key v4 v6"
  have ok: "lease_ok v4 v6 nl" "\<forall>l \<in> set (lw_Leases lw). lease_ok v4 v6 l" "distinct_by ?k (lw_Leases lw)"
    using Cons.prems by (simp_all add: lw_ok_def)
  have rest: "\<forall>l \<in> set leases. lease_ok v4 v6 l" "distinct_by ?k leases" "?k nl \<notin> ?k ` set leases"
    using Cons.prems by simp_all
  then have ne: "?k x \<noteq> ?k nl" if "x \<in> set leases" for x using that by (metis imageI)
  note own = own_lease_key [OF Cons.prems(1) ok(1)]
  consider (own) "?k nl = own_key v4 v6 lw"
    | (old) "?k nl \<noteq> own_key v4 v6 lw" "?k nl \<in> ?k ` set (lw_Leases lw)"
    | (new) "?k nl \<noteq> own_key v4 v6 lw" "?k nl \<notin> ?k ` set (lw_Leases lw)" by blast
  then show ?case
  proof cases
    case own
    with \<open>own_lease lw nl = _\<close> Cons.IH [OF Cons.prems(1) rest(1,2)] show ?thesis by simp
  next
    case old
    obtain b x a where s: "split_same (lw_Leases lw) nl = Ok (Some (b, x, a))" "lw_Leases lw = b @ x # a"
      "?k x = ?k nl" "?k nl \<notin> ?k ` set b"
      by (rule split_same_Some [OF ok(2,1) old(2)])
    have ba: "b @ a = delete_by ?k (?k nl) (lw_Leases lw)" using s by (simp add: delete_by_split)
    have "lw_ok v4 v6 (lw\<lparr>lw_Leases := b @ a\<rparr>)" using Cons.prems(1) s(2) by (auto simp: lw_ok_def)
    note IH = Cons.IH [OF this rest(1,2)]
    have "filter (\<lambda>l. ?k l \<noteq> own_key v4 v6 lw \<and> ?k l \<notin> ?k ` set (b @ a)) leases
        = filter (\<lambda>l. ?k l \<noteq> own_key v4 v6 lw \<and> ?k l \<notin> ?k ` set (lw_Leases lw)) leases"
      unfolding ba key_image_delete [OF ok(3)] by (rule filter_cong) (use ne in auto)
    moreover have "filter (\<lambda>l. ?k l \<notin> ?k ` set leases - {own_key v4 v6 lw}) (b @ a)
        = filter (\<lambda>l. ?k l \<notin> ?k ` set (nl # leases) - {own_key v4 v6 lw}) (lw_Leases lw)"
      unfolding ba filter_remove_key [OF ok(3)] using old(1) by (intro filter_cong) auto
    ultimately show ?thesis using IH own old s(1) by (simp del: filter_append set_append)
  next
    case new
    note IH = Cons.IH [OF Cons.prems(1) rest(1,2)]
    have "filter (\<lambda>l. ?k l \<notin> ?k ` set (nl # leases) - {own_key v4 v6 lw}) (lw_Leases lw)
      = filter (\<lambda>l. ?k l \<notin> ?k ` set leases - {own_key v4 v6 lw}) (lw_Leases lw)"
      by (rule filter_cong) (use new(2) in \<open>auto, metis imageI\<close>)
    with IH own new split_same_None [OF ok(2,1) new(2)] show ?thesis by simp
  qed
qed
lemma lw_Reset_diff:
  assumes "lw_ok v4 v6 lw" "\<forall>l \<in> set leases. lease_ok v4 v6 l" "distinct_by (lease_key v4 v6) leases"
  shows "lw_Reset lw leases =
     Ok (lw\<lparr>lw_Leases := leases\<rparr>,
         map (\<lambda>l. \<lparr>ev_Type = EventAdded, ev_Lease = l\<rparr>)
           (filter (\<lambda>l. lease_key v4 v6 l \<noteq> own_key v4 v6 lw \<and>
                        lease_key v4 v6 l \<notin> lease_key v4 v6 ` set (lw_Leases lw)) leases) @
         map (\<lambda>l. \<lparr>ev_Type = EventRemoved, ev_Lease = l\<rparr>)
           (filter (\<lambda>l. lease_key v4 v6 l \<notin> lease_key v4 v6 ` set leases - {own_key v4 v6 lw}) (lw_Leases lw)))"
  by (simp add: lw_Reset_def reset_loop_diff [OF assms])

section \<open>Properties\<close>

abbreviation (input) demo_attrs :: LeaseAttrs where
  "demo_attrs \<equiv> \<lparr>la_PublicIP = 0, la_PublicIPv6 = None, la_BackendType = ''vxlan'',
     la_BackendData = None, la_BackendV6Data = None\<rparr>"

definition demo_lease :: "IP4 \<Rightarrow> Lease" where
  "demo_lease a = \<lparr>lease_EnableIPv4 = True, lease_EnableIPv6 = False,
     lease_Subnet = \<lparr>ip4_IP = a, ip4_PrefixLen = 24\<rparr>, lease_IPv6Subnet = empty_IP6Net,
     lease_Attrs = demo_attrs, lease_Expiration = 0, lease_Asof = 0\<rparr>"

definition demo_watcher :: "Lease list \<Rightarrow> LeaseWatcher" where
  "demo_watcher ls = \<lparr>lw_OwnLease = Some (demo_lease 0x0a000100), lw_Leases = ls\<rparr>"

lemmas demo_defs = demo_lease_def demo_watcher_def lw_ok_def lease_ok_def lease_key_def own_key_def

text \<open>
  C8. \<open>Update\<close> refines a map from subnets to leases: it never panics on leases of one
  deployment, keeps the leases distinct, and afterwards every subnet holds what the last
  event about it says, the node's own subnet excepted. The events passed on are the ones
  received, in order, without those about the own subnet.
\<close>

theorem update_refines_map:
  assumes "lw_ok v4 v6 lw" "\<forall>e \<in> set events. lease_ok v4 v6 (ev_Lease e)"
  shows "\<exists>lw' evs. lw_Update lw events = Ok (lw', evs) \<and> lw_ok v4 v6 lw' \<and>
     (\<forall>k. lookup_by (lease_key v4 v6) (lw_Leases lw') k =
        fold (\<lambda>e r. if event_key v4 v6 e = k \<and> k \<noteq> own_key v4 v6 lw
                    then (case ev_Type e of EventAdded \<Rightarrow> Some (ev_Lease e) | EventRemoved \<Rightarrow> None)
                    else r)
          events (lookup_by (lease_key v4 v6) (lw_Leases lw) k)) \<and>
     map (event_sig v4 v6) evs =
     map (event_sig v4 v6) (filter (\<lambda>e. event_key v4 v6 e \<noteq> own_key v4 v6 lw) events)"
proof -
  let ?ops = "map (event_op v4 v6) (foreign_events v4 v6 lw events)"
  obtain evs where evs: "lw_Update lw events = Ok (lw\<lparr>lw_Leases := lws.replay v4 v6 ?ops (lw_Leases lw)\<rparr>, evs)"
    "map (event_sig v4 v6) evs = map (event_sig v4 v6) (foreign_events v4 v6 lw events)"
    by (rule lw_Update_replay [OF assms])
  have "lw_ok v4 v6 (lw\<lparr>lw_Leases := lws.replay v4 v6 ?ops (lw_Leases lw)\<rparr>)"
    using assms by (intro lw_ok_replay) (auto simp: foreign_events_def)
  moreover have "lookup_by (lease_key v4 v6) (lws.replay v4 v6 ?ops (lw_Leases lw)) k =
      fold (\<lambda>opn. lws.effect v4 v6 opn k) ?ops (lookup_by (lease_key v4 v6) (lw_Leases lw) k)" for k
    using assms(1) by (intro lws.lookup_replay) (simp add: lw_ok_def)
  moreover have "fold (\<lambda>opn. lws.effect v4 v6 opn k) ?ops r =
      fold (\<lambda>e r. if event_key v4 v6 e = k \<and> k \<noteq> own_key v4 v6 lw
                  then (case ev_Type e of EventAdded \<Rightarrow> Some (ev_Lease e) | EventRemoved \<Rightarrow> None)
                  else r) events r" for k r
    unfolding foreign_events_def
    by (induction events arbitrary: r) (auto simp: event_op_def split: EventType.splits)
  ultimately show ?thesis using evs by (simp add: foreign_events_def)
qed

theorem update_refines_map_witness:
  "\<exists>lw' evs. lw_Update (demo_watcher [demo_lease 0x0a000200])
      [\<lparr>ev_Type = EventAdded, ev_Lease = demo_lease 0x0a000300\<rparr>,
       \<lparr>ev_Type = EventRemoved, ev_Lease = demo_lease 0x0a000200\<rparr>] = Ok (lw', evs) \<and>
     lookup_by (lease_key True False) (lw_Leases lw') (lease_key True False (demo_lease 0x0a000200)) = None \<and>
     lookup_by (lease_key True False) (lw_Leases lw') (lease_key True False (demo_lease 0x0a000300))
       = Some (demo_lease 0x0a000300)"
proof -
  have "lw_ok True False (demo_watcher [demo_lease 0x0a000200])" by (simp add: demo_defs)
  moreover have "\<forall>e \<in> set [\<lparr>ev_Type = EventAdded, ev_Lease = demo_lease 0x0a000300\<rparr>,
       \<lparr>ev_Type = EventRemoved, ev_Lease = demo_lease 0x0a000200\<rparr>]. lease_ok True False (ev_Lease e)"
    by (simp add: demo_defs)
  ultimately show ?thesis
    using update_refines_map [of True False] by (fastforce simp: demo_defs)
qed



text \<open>
  C9. \<open>Reset\<close> with a snapshot of distinct subnets adopts the snapshot and reports the
  difference: an addition for every foreign lease whose subnet was not known, a removal for
  every known lease whose subnet is gone or is the node's own.
\<close>

theorem reset_reports_difference:
  assumes "lw_ok v4 v6 lw" "\<forall>l \<in> set leases. lease_ok v4 v6 l" "distinct_by (lease_key v4 v6) leases"
  shows "\<exists>lw' evs. lw_Reset lw leases = Ok (lw', evs) \<and> lw_ok v4 v6 lw' \<and>
     lw_Leases lw' = leases \<and> lw_OwnLease lw' = lw_OwnLease lw \<and>
     map ev_Lease (filter (\<lambda>e. ev_Type e = EventAdded) evs) =
       filter (\<lambda>l. lease_key v4 v6 l \<noteq> own_key v4 v6 lw \<and>
                    lease_key v4 v6 l \<notin> lease_key v4 v6 ` set (lw_Leases lw)) leases \<and>
     map ev_Lease (filter (\<lambda>e. ev_Type e = EventRemoved) evs) =
       filter (\<lambda>l. lease_key v4 v6 l \<notin> lease_key v4 v6 ` set leases \<or>
                    lease_key v4 v6 l = own_key v4 v6 lw) (lw_Leases lw)"
proof -
  have ok: "lw_ok v4 v6 (lw\<lparr>lw_Leases := leases\<rparr>)" by (rule lw_ok_update [OF assms])
  have ev: "filter (\<lambda>e. ev_Type e = t) (map (\<lambda>l. \<lparr>ev_Type = u, ev_Lease = l\<rparr>) xs)
      = (if t = u then map (\<lambda>l. \<lparr>ev_Type = u, ev_Lease = l\<rparr>) xs else [])" for t u xs
    by (induction xs) auto
  have "filter (\<lambda>l. lease_key v4 v6 l \<notin> lease_key v4 v6 ` set leases - {own_key v4 v6 lw}) (lw_Leases lw)
    = filter (\<lambda>l. lease_key v4 v6 l \<notin> lease_key v4 v6 ` set leases \<or>
                    lease_key v4 v6 l = own_key v4 v6 lw) (lw_Leases lw)" by (rule filter_cong) auto
  with ok lw_Reset_diff [OF assms] show ?thesis by (simp add: ev comp_def)
qed

theorem reset_reports_difference_witness:
  "\<exists>lw' evs. lw_Reset (demo_watcher [demo_lease 0x0a000200]) [demo_lease 0x0a000300] = Ok (lw', evs) \<and>
     map ev_Lease (filter (\<lambda>e. ev_Type e = EventAdded) evs) = [demo_lease 0x0a000300] \<and>
     map ev_Lease (filter (\<lambda>e. ev_Type e = EventRemoved) evs) = [demo_lease 0x0a000200]"
proof -
  have "lw_ok True False (demo_watcher [demo_lease 0x0a000200])"
    "\<forall>l \<in> set [demo_lease 0x0a000300]. lease_ok True False l"
    "distinct_by (lease_key True False) [demo_lease 0x0a000300]" by (simp_all add: demo_defs)
  from reset_reports_difference [OF this] show ?thesis by (fastforce simp: demo_defs)
qed

text \<open>
  C11. \<open>Reset\<close> copies the whole snapshot into \<open>Leases\<close>, the node's own lease included, and a
  later \<open>Reset\<close> never takes that copy out again. A second identical snapshot that
  contains the own lease therefore reports the own lease as removed, although nothing
  changed.
\<close>

theorem reset_twice_removes_own:
  assumes "lw_ok v4 v6 lw" "\<forall>l \<in> set leases. lease_ok v4 v6 l" "distinct_by (lease_key v4 v6) leases"
    and "own \<in> set leases" "lease_key v4 v6 own = own_key v4 v6 lw"
    and "lw_Reset lw leases = Ok (lw1, evs1)"
  shows "lw_Reset lw1 leases = Ok (lw1, [\<lparr>ev_Type = EventRemoved, ev_Lease = own\<rparr>])"
proof -
  have lw1: "lw1 = lw\<lparr>lw_Leases := leases\<rparr>" using lw_Reset_diff [OF assms(1-3)] assms(6) by simp
  have ok: "lw_ok v4 v6 lw1" unfolding lw1 by (rule lw_ok_update [OF assms(1-3)])
  have "filter (\<lambda>l. lease_key v4 v6 l \<notin> lease_key v4 v6 ` set leases - {own_key v4 v6 lw}) leases
      = filter (\<lambda>l. lease_key v4 v6 l = lease_key v4 v6 own) leases"
    by (rule filter_cong) (auto simp: assms(5))
  also have "\<dots> = [own]" by (rule filter_same_key [OF assms(3,4)])
  finally show ?thesis
    using lw_Reset_diff [OF ok assms(2,3)] by (simp add: lw1)
qed

theorem reset_twice_removes_own_witness:
  "lw_Reset (demo_watcher [demo_lease 0x0a000100]) [demo_lease 0x0a000100]
   = Ok (demo_watcher [demo_lease 0x0a000100], [\<lparr>ev_Type = EventRemoved, ev_Lease = demo_lease 0x0a000100\<rparr>])"
proof (rule reset_twice_removes_own)
  show "lw_ok True False (demo_watcher [])" "\<forall>l \<in> set [demo_lease 0x0a000100]. lease_ok True False l"
    "distinct_by (lease_key True False) [demo_lease 0x0a000100]"
    "demo_lease 0x0a000100 \<in> set [demo_lease 0x0a000100]"
    "lease_key True False (demo_lease 0x0a000100) = own_key True False (demo_watcher [])"
    by (simp_all add: demo_defs)
  show "lw_Reset (demo_watcher []) [demo_lease 0x0a000100] = Ok (demo_watcher [demo_lease 0x0a000100], [])"
    by (simp add: demo_lease_def demo_watcher_def go_eval)
qed

end
