(* ===== verification/Registry_Contract.thy ===== *)
theory Registry_Contract
  imports Go_Effects Lease_Watch
begin

text \<open>
  The interface \<open>Registry\<close> of \<open>pkg/subnet/etcd/registry.go\<close> as a record of operations, and the
  contract the subnet manager relies on when it runs on IPv4 alone: which subnets are taken
  before and after each operation. Operations may fail, and a failed write may or may not
  have been carried out.
\<close>

record 's Registry =
  rg_getNetworkConfig :: "('s, string) io"
  rg_getSubnets :: "('s, Lease list \<times> int) io"
  rg_getSubnet :: "IP4Net \<Rightarrow> IP6Net \<Rightarrow> ('s, Lease \<times> int) io"
  rg_createSubnet :: "IP4Net \<Rightarrow> IP6Net \<Rightarrow> LeaseAttrs \<Rightarrow> int \<Rightarrow> ('s, int) io"
  rg_updateSubnet :: "IP4Net \<Rightarrow> IP6Net \<Rightarrow> LeaseAttrs \<Rightarrow> int \<Rightarrow> int \<Rightarrow> ('s, int) io"
  rg_deleteSubnet :: "IP4Net \<Rightarrow> IP6Net \<Rightarrow> ('s, unit) io"
  rg_leasesWatchReset :: "('s, LeaseWatchResult) io"

text \<open>A lease name stores at most five bits of the prefix length.\<close>

definition nameable :: "IP4Net \<Rightarrow> bool" where
  "nameable sn \<longleftrightarrow> ip4_PrefixLen sn < 32"

locale subnet_registry =
  fixes rg :: "'s Registry"
    and ok :: "'s \<Rightarrow> bool"
    and taken :: "'s \<Rightarrow> IP4Net set"
  assumes list_keeps: "ok s \<Longrightarrow> rg_getSubnets rg s = Some (r, s') \<Longrightarrow> ok s' \<and> taken s' = taken s"
    and list_taken: "ok s \<Longrightarrow> rg_getSubnets rg s = Some (Ok (ls, i), s') \<Longrightarrow>
      \<forall>l \<in> set ls. lease_Subnet l \<in> taken s \<and> lease_IPv6Subnet l = empty_IP6Net"
    and taken_nameable: "ok s \<Longrightarrow> sn \<in> taken s \<Longrightarrow> nameable sn"
    and create_ok: "ok s \<Longrightarrow> nameable sn \<Longrightarrow> rg_createSubnet rg sn empty_IP6Net a ttl s = Some (Ok ex, s') \<Longrightarrow>
      ok s' \<and> sn \<notin> taken s \<and> taken s' = insert sn (taken s)"
    and create_err: "ok s \<Longrightarrow> nameable sn \<Longrightarrow> rg_createSubnet rg sn empty_IP6Net a ttl s = Some (Err e, s') \<Longrightarrow>
      ok s' \<and> (taken s' = taken s \<or> sn \<notin> taken s \<and> taken s' = insert sn (taken s))"
    and update_keeps: "ok s \<Longrightarrow> nameable sn \<Longrightarrow> rg_updateSubnet rg sn empty_IP6Net a ttl asof s = Some (ur, s') \<Longrightarrow>
      ok s' \<and> taken s - {sn} \<subseteq> taken s' \<and> taken s' \<subseteq> insert sn (taken s)"
    and update_ok: "ok s \<Longrightarrow> nameable sn \<Longrightarrow> rg_updateSubnet rg sn empty_IP6Net a ttl asof s = Some (Ok ex, s') \<Longrightarrow>
      sn \<in> taken s'"
    and delete_keeps: "ok s \<Longrightarrow> nameable sn \<Longrightarrow> rg_deleteSubnet rg sn empty_IP6Net s = Some (dr, s') \<Longrightarrow>
      ok s' \<and> taken s - {sn} \<subseteq> taken s' \<and> taken s' \<subseteq> taken s"
    and delete_ok: "ok s \<Longrightarrow> nameable sn \<Longrightarrow> rg_deleteSubnet rg sn empty_IP6Net s = Some (Ok u, s') \<Longrightarrow>
      sn \<notin> taken s'"

end
