(* ===== verification/Go_Json.thy ===== *)
theory Go_Json
  imports Go_Strings
begin

text \<open>
  The part of \<open>encoding/json\<close> the program uses: parsing a text into a value, and decoding
  the members of an object into the fields of a struct. Object members keep their raw text,
  which is what \<open>json.RawMessage\<close> fields and \<open>UnmarshalJSON\<close> methods receive. Field names
  match exactly or, failing that, up to the case of ASCII letters.
\<close>

section \<open>Values\<close>

datatype json =
    JNull
  | JBool bool
  | JNum string
  | JStr string
  | JArr "json list"
  | JObj "(string \<times> string \<times> json) list"

definition json_ws :: "char \<Rightarrow> bool" where
  "json_ws c \<longleftrightarrow> c = CHR '' '' \<or> c = CHR 0x09 \<or> c = CHR 0x0A \<or> c = CHR 0x0D"

definition skip_ws :: "string \<Rightarrow> string" where
  "skip_ws s = dropWhile json_ws s"

section \<open>Strings and numbers\<close>

abbreviation (input) chr_bslash :: char where "chr_bslash \<equiv> CHR 0x5C"

definition hex4 :: "char \<Rightarrow> char \<Rightarrow> char \<Rightarrow> char \<Rightarrow> nat option" where
  "hex4 a b c d =
     (case hex_digit a of None \<Rightarrow> None | Some w \<Rightarrow>
     (case hex_digit b of None \<Rightarrow> None | Some x \<Rightarrow>
     (case hex_digit c of None \<Rightarrow> None | Some y \<Rightarrow>
     (case hex_digit d of None \<Rightarrow> None | Some z \<Rightarrow> Some (4096 * w + 256 * x + 16 * y + z)))))"

definition utf8 :: "nat \<Rightarrow> string" where
  "utf8 n =
     (if n < 0x80 then [char_of n]
      else if n < 0x800 then [char_of (0xC0 + n div 64), char_of (0x80 + n mod 64)]
      else if n < 0x10000 then
        [char_of (0xE0 + n div 4096), char_of (0x80 + n div 64 mod 64), char_of (0x80 + n mod 64)]
      else
        [char_of (0xF0 + n div 262144), char_of (0x80 + n div 4096 mod 64),
         char_of (0x80 + n div 64 mod 64), char_of (0x80 + n mod 64)])"

definition simple_escape :: "char \<Rightarrow> char option" where
  "simple_escape e =
     (if e = chr_quote \<or> e = chr_bslash \<or> e = chr_slash then Some e
      else if e = CHR ''b'' then Some (CHR 0x08)
      else if e = CHR ''f'' then Some (CHR 0x0C)
      else if e = CHR ''n'' then Some (CHR 0x0A)
      else if e = CHR ''r'' then Some (CHR 0x0D)
      else if e = CHR ''t'' then Some (CHR 0x09)
      else None)"

definition prepend :: "string \<Rightarrow> (string \<times> string) option \<Rightarrow> (string \<times> string) option" where
  "prepend p r = map_option (\<lambda>(s, rest). (p @ s, rest)) r"

text \<open>
  The rest of a string literal after its opening quote: the decoded text and what follows.
  A surrogate escape pairs with the escape behind it or decodes to the replacement
  character.
\<close>

fun pstr :: "string \<Rightarrow> (string \<times> string) option" where
  "pstr [] = None"
| "pstr (c # s) =
     (if c = chr_quote then Some ([], s)
      else if c = chr_bslash then
        (case s of
           [] \<Rightarrow> None
         | e # s1 \<Rightarrow>
             if e = CHR ''u'' then
               (case s1 of
                  h1 # h2 # h3 # h4 # t \<Rightarrow>
                    (case hex4 h1 h2 h3 h4 of
                       None \<Rightarrow> None
                     | Some n \<Rightarrow>
                         if 0xD800 \<le> n \<and> n < 0xE000 then
                           (case t of
                              b # u # g1 # g2 # g3 # g4 # t1 \<Rightarrow>
                                (case hex4 g1 g2 g3 g4 of
                                   Some m \<Rightarrow>
                                     if b = chr_bslash \<and> u = CHR ''u'' \<and> n < 0xDC00 \<and>
                                        0xDC00 \<le> m \<and> m < 0xE000
                                     then prepend (utf8 (0x10000 + (n - 0xD800) * 1024 + (m - 0xDC00))) (pstr t1)
                                     else prepend (utf8 0xFFFD) (pstr t)
                                 | None \<Rightarrow> prepend (utf8 0xFFFD) (pstr t))
                            | _ \<Rightarrow> prepend (utf8 0xFFFD) (pstr t))
                         else prepend (utf8 n) (pstr t))
                | _ \<Rightarrow> None)
             else
               (case simple_escape e of
                  None \<Rightarrow> None
                | Some x \<Rightarrow> prepend [x] (pstr s1)))
      else if code_of c < 32 then None
      else prepend [c] (pstr s))"

definition num_int :: "string \<Rightarrow> (string \<times> string) option" where
  "num_int s =
     (case s of
        [] \<Rightarrow> None
      | c # r \<Rightarrow>
          if c = CHR ''0'' then Some ([c], r)
          else if is_digit c then Some (takeWhile is_digit s, dropWhile is_digit s)
          else None)"

definition num_frac :: "string \<Rightarrow> (string \<times> string) option" where
  "num_frac s =
     (case s of
        [] \<Rightarrow> Some ([], [])
      | c # r \<Rightarrow>
          if c \<noteq> chr_dot then Some ([], s)
          else if takeWhile is_digit r = [] then None
          else Some (c # takeWhile is_digit r, dropWhile is_digit r))"

definition num_exp :: "string \<Rightarrow> (string \<times> string) option" where
  "num_exp s =
     (case s of
        [] \<Rightarrow> Some ([], [])
      | c # r \<Rightarrow>
          if c \<noteq> CHR ''e'' \<and> c \<noteq> CHR ''E'' then Some ([], s)
          else
            (let sign = (case r of [] \<Rightarrow> [] | x # _ \<Rightarrow> if x = CHR ''+'' \<or> x = chr_dash then [x] else []);
                 d = drop (length sign) r in
             if takeWhile is_digit d = [] then None
             else Some (c # sign @ takeWhile is_digit d, dropWhile is_digit d)))"

definition pnum :: "string \<Rightarrow> (string \<times> string) option" where
  "pnum s =
     (let sign = (case s of [] \<Rightarrow> [] | c # _ \<Rightarrow> if c = chr_dash then [c] else []) in
      case num_int (drop (length sign) s) of
        None \<Rightarrow> None
      | Some (i, r1) \<Rightarrow>
          (case num_frac r1 of
             None \<Rightarrow> None
           | Some (f, r2) \<Rightarrow>
               (case num_exp r2 of
                  None \<Rightarrow> None
                | Some (e, r3) \<Rightarrow> Some (sign @ i @ f @ e, r3))))"

section \<open>The parser\<close>

text \<open>
  One unit of fuel is spent per value, member and element, each of which has at least one
  character: the length of the text is enough.
\<close>

fun pval :: "nat \<Rightarrow> string \<Rightarrow> (json \<times> string) option"
and parr :: "nat \<Rightarrow> string \<Rightarrow> (json list \<times> string) option"
and pobj :: "nat \<Rightarrow> string \<Rightarrow> ((string \<times> string \<times> json) list \<times> string) option" where
  "pval 0 s = None"
| "pval (Suc k) s =
     (case s of
        [] \<Rightarrow> None
      | c # r \<Rightarrow>
          if c = chr_quote then map_option (\<lambda>(t, rest). (JStr t, rest)) (pstr r)
          else if c = CHR ''{'' then
            (if take 1 (skip_ws r) = ''}'' then Some (JObj [], drop 1 (skip_ws r))
             else map_option (\<lambda>(ms, rest). (JObj ms, rest)) (pobj k (skip_ws r)))
          else if c = CHR ''['' then
            (if take 1 (skip_ws r) = '']'' then Some (JArr [], drop 1 (skip_ws r))
             else map_option (\<lambda>(vs, rest). (JArr vs, rest)) (parr k (skip_ws r)))
          else if take 4 s = ''true'' then Some (JBool True, drop 4 s)
          else if take 5 s = ''false'' then Some (JBool False, drop 5 s)
          else if take 4 s = ''null'' then Some (JNull, drop 4 s)
          else map_option (\<lambda>(t, rest). (JNum t, rest)) (pnum s))"
| "parr 0 s = None"
| "parr (Suc k) s =
     (case pval k s of
        None \<Rightarrow> None
      | Some (v, rest) \<Rightarrow>
          (case skip_ws rest of
             [] \<Rightarrow> None
           | c # r \<Rightarrow>
               if c = CHR '']'' then Some ([v], r)
               else if c = CHR '','' then
                 map_option (\<lambda>(vs, rest'). (v # vs, rest')) (parr k (skip_ws r))
               else None))"
| "pobj 0 s = None"
| "pobj (Suc k) s =
     (case s of
        [] \<Rightarrow> None
      | q # s1 \<Rightarrow>
          if q \<noteq> chr_quote then None
          else
            (case pstr s1 of
               None \<Rightarrow> None
             | Some (name, s2) \<Rightarrow>
                 (case skip_ws s2 of
                    [] \<Rightarrow> None
                  | c # s3 \<Rightarrow>
                      if c \<noteq> chr_colon then None
                      else
                        (case pval k (skip_ws s3) of
                           None \<Rightarrow> None
                         | Some (v, s4) \<Rightarrow>
                             (case skip_ws s4 of
                                [] \<Rightarrow> None
                              | d # s5 \<Rightarrow>
                                  if d = CHR ''}'' then
                                    Some ([(name, take (length (skip_ws s3) - length s4) (skip_ws s3), v)], s5)
                                  else if d = CHR '','' then
                                    map_option (\<lambda>(ms, rest).
                                        ((name, take (length (skip_ws s3) - length s4) (skip_ws s3), v) # ms, rest))
                                      (pobj k (skip_ws s5))
                                  else None)))))"

definition json_parse :: "string \<Rightarrow> json option" where
  "json_parse s =
     (case pval (Suc (length s)) (skip_ws s) of
        None \<Rightarrow> None
      | Some (v, rest) \<Rightarrow> if skip_ws rest = [] then Some v else None)"

lemma pval_numeral [go_eval]: "pval (numeral n) s = pval (Suc (pred_numeral n)) s"
  and parr_numeral [go_eval]: "parr (numeral n) s = parr (Suc (pred_numeral n)) s"
  and pobj_numeral [go_eval]: "pobj (numeral n) s = pobj (Suc (pred_numeral n)) s"
  by (simp_all only: numeral_eq_Suc)

section \<open>Decoding into Go values\<close>

definition json_error :: goerror where
  "json_error = ErrorString ''json: cannot unmarshal value''"

definition json_syntax_error :: goerror where
  "json_syntax_error = ErrorString ''json: invalid syntax''"

fun dec_bool :: "bool \<Rightarrow> json \<Rightarrow> bool go" where
  "dec_bool old (JBool b) = Ok b"
| "dec_bool old JNull = Ok old"
| "dec_bool old v = Err json_error"

fun dec_string :: "string \<Rightarrow> json \<Rightarrow> string go" where
  "dec_string old (JStr t) = Ok t"
| "dec_string old JNull = Ok old"
| "dec_string old v = Err json_error"

text \<open>\<open>strconv.ParseUint\<close> and \<open>strconv.ParseInt\<close> in base ten, with the width in bits.\<close>

definition ParseUint :: "nat \<Rightarrow> string \<Rightarrow> nat option" where
  "ParseUint w s =
     (if s \<noteq> [] \<and> (\<forall>c \<in> set s. is_digit c) \<and> dec_val s < 2 ^ w then Some (dec_val s) else None)"

definition ParseInt :: "nat \<Rightarrow> string \<Rightarrow> int option" where
  "ParseInt w s =
     (let neg = (take 1 s = ''-''); d = (if neg \<or> take 1 s = ''+'' then drop 1 s else s) in
      if d \<noteq> [] \<and> (\<forall>c \<in> set d. is_digit c) then
        (if neg then (if dec_val d \<le> 2 ^ (w - 1) then Some (- int (dec_val d)) else None)
         else (if dec_val d < 2 ^ (w - 1) then Some (int (dec_val d)) else None))
      else None)"

fun dec_uint :: "nat \<Rightarrow> nat \<Rightarrow> json \<Rightarrow> nat go" where
  "dec_uint w old (JNum t) = (case ParseUint w t of None \<Rightarrow> Err json_error | Some n \<Rightarrow> Ok n)"
| "dec_uint w old JNull = Ok old"
| "dec_uint w old v = Err json_error"

fun dec_int :: "nat \<Rightarrow> int \<Rightarrow> json \<Rightarrow> int go" where
  "dec_int w old (JNum t) = (case ParseInt w t of None \<Rightarrow> Err json_error | Some n \<Rightarrow> Ok n)"
| "dec_int w old JNull = Ok old"
| "dec_int w old v = Err json_error"

text \<open>The field a member name denotes: the exact name first, then the first one up to case.\<close>

definition field_of :: "string list \<Rightarrow> string \<Rightarrow> string option" where
  "field_of names k = (if k \<in> set names then Some k else find (\<lambda>n. ToLower n = ToLower k) names)"

text \<open>
  Decoding an object into a struct: members are stored in the order of the text, unknown
  ones are skipped and the first failing member fails the whole.
\<close>

fun dec_members ::
  "string list \<Rightarrow> (string \<Rightarrow> string \<Rightarrow> json \<Rightarrow> 'c \<Rightarrow> 'c go) \<Rightarrow> (string \<times> string \<times> json) list \<Rightarrow> 'c \<Rightarrow> 'c go" where
  "dec_members names setf [] c = Ok c"
| "dec_members names setf ((k, raw, v) # ms) c =
     (case field_of names k of
        None \<Rightarrow> dec_members names setf ms c
      | Some f \<Rightarrow> go_bind (setf f raw v c) (dec_members names setf ms))"

fun dec_struct ::
  "string list \<Rightarrow> (string \<Rightarrow> string \<Rightarrow> json \<Rightarrow> 'c \<Rightarrow> 'c go) \<Rightarrow> json \<Rightarrow> 'c \<Rightarrow> 'c go" where
  "dec_struct names setf (JObj ms) c = dec_members names setf ms c"
| "dec_struct names setf JNull c = Ok c"
| "dec_struct names setf v c = Err json_error"

definition json_Unmarshal ::
  "string list \<Rightarrow> (string \<Rightarrow> string \<Rightarrow> json \<Rightarrow> 'c \<Rightarrow> 'c go) \<Rightarrow> string \<Rightarrow> 'c \<Rightarrow> 'c go" where
  "json_Unmarshal names setf s c =
     (case json_parse s of None \<Rightarrow> Err json_syntax_error | Some v \<Rightarrow> dec_struct names setf v c)"

text \<open>What every field decoder keeps, the decoder of the struct keeps.\<close>

lemma dec_members_inv:
  assumes step: "\<And>f raw v c c'. P c \<Longrightarrow> setf f raw v c = Ok c' \<Longrightarrow> P c'"
  shows "P c \<Longrightarrow> dec_members names setf ms c = Ok c' \<Longrightarrow> P c'"
proof (induction ms arbitrary: c)
  case (Cons m ms)
  obtain k raw v where m: "m = (k, raw, v)" by (cases m)
  show ?case
  proof (cases "field_of names k")
    case None
    with Cons m show ?thesis by simp
  next
    case (Some f)
    then obtain c1 where "setf f raw v c = Ok c1" "dec_members names setf ms c1 = Ok c'"
      using Cons.prems(2) by (auto simp: m go_bind_Ok_iff)
    with Cons.prems(1) show ?thesis by (metis Cons.IH step)
  qed
qed simp

lemma json_Unmarshal_inv:
  assumes step: "\<And>f raw v c c'. P c \<Longrightarrow> setf f raw v c = Ok c' \<Longrightarrow> P c'"
    and "P c" "json_Unmarshal names setf s c = Ok c'"
  shows "P c'"
proof -
  obtain v where "dec_struct names setf v c = Ok c'"
    using assms(3) by (auto simp: json_Unmarshal_def split: option.splits)
  with assms(2) show ?thesis
    by (cases v) (auto intro: dec_members_inv [where setf = setf and P = P, OF step])
qed

lemma dec_members_no_panic:
  assumes "\<And>f raw v c. \<not> panics (setf f raw v c)"
  shows "\<not> panics (dec_members names setf ms c)"
proof (induction ms arbitrary: c)
  case (Cons m ms)
  obtain k raw v where m: "m = (k, raw, v)" by (cases m)
  show ?case
  proof (cases "field_of names k")
    case (Some f)
    then show ?thesis using assms [of f raw v c] Cons.IH by (cases "setf f raw v c") (simp_all add: m)
  qed (simp add: m Cons.IH)
qed simp

lemma json_Unmarshal_no_panic:
  assumes "\<And>f raw v c. \<not> panics (setf f raw v c)"
  shows "\<not> panics (json_Unmarshal names setf s c)"
proof -
  have "\<not> panics (dec_struct names setf v c)" for v
    by (cases v) (simp_all add: dec_members_no_panic [OF assms])
  then show ?thesis by (simp add: json_Unmarshal_def split: option.split)
qed

lemma dec_no_panic [simp]:
  "\<not> panics (dec_bool b v)" "\<not> panics (dec_string t v)" "\<not> panics (dec_uint w n v)" "\<not> panics (dec_int w i v)"
  by (cases v; simp split: option.split)+

lemmas [go_eval] =
  json_ws_def skip_ws_def hex4_def simple_escape_def prepend_def num_int_def num_frac_def num_exp_def
  pnum_def json_parse_def ParseUint_def ParseInt_def field_of_def json_Unmarshal_def

section \<open>Encoding\<close>

text \<open>
  \<open>json.Marshal\<close> of a string, with the characters that are special in HTML escaped, and of a
  \<open>json.RawMessage\<close>, which is checked and stripped of the white space between its tokens.
  Strings are sequences of UTF-8 bytes; bytes of non-ASCII characters are copied.
\<close>

definition html_char :: "char \<Rightarrow> bool" where
  "html_char c \<longleftrightarrow> c = CHR ''<'' \<or> c = CHR ''>'' \<or> c = CHR ''&''"

definition json_u00 :: "char \<Rightarrow> string" where
  "json_u00 c = [chr_bslash, CHR ''u'', CHR ''0'', CHR ''0'', hex_char (code_of c div 16), hex_char (code_of c mod 16)]"

definition json_char :: "char \<Rightarrow> string" where
  "json_char c =
     (if c = chr_quote \<or> c = chr_bslash then [chr_bslash, c]
      else if c = CHR 0x08 then [chr_bslash, CHR ''b'']
      else if c = CHR 0x0C then [chr_bslash, CHR ''f'']
      else if c = CHR 0x0A then [chr_bslash, CHR ''n'']
      else if c = CHR 0x0D then [chr_bslash, CHR ''r'']
      else if c = CHR 0x09 then [chr_bslash, CHR ''t'']
      else if code_of c < 32 \<or> html_char c then json_u00 c
      else [c])"

definition json_quote :: "string \<Rightarrow> string" where
  "json_quote s = chr_quote # concat (map json_char s) @ [chr_quote]"

fun json_compact :: "bool \<Rightarrow> string \<Rightarrow> string" where
  "json_compact inside [] = []"
| "json_compact inside (c # s) =
     (if html_char c then json_u00 c @ json_compact inside s
      else if \<not> inside then
        (if json_ws c then json_compact False s else c # json_compact (c = chr_quote) s)
      else if c = chr_bslash then
        c # (case s of [] \<Rightarrow> [] | e # s' \<Rightarrow> e # json_compact True s')
      else c # json_compact (c \<noteq> chr_quote) s)"

definition RawMessage_Marshal :: "string \<Rightarrow> string go" where
  "RawMessage_Marshal raw =
     (case json_parse raw of None \<Rightarrow> Err json_syntax_error | Some _ \<Rightarrow> Ok (json_compact False raw))"

text \<open>An object of members that are already encoded.\<close>

definition json_member :: "string \<Rightarrow> string \<Rightarrow> string" where
  "json_member name val = json_quote name @ '':'' @ val"

definition json_object :: "(string \<times> string) list \<Rightarrow> string" where
  "json_object ms = ''{'' @ JoinStr '','' (map (\<lambda>(n, v). json_member n v) ms) @ ''}''"

lemmas [go_eval] = html_char_def json_u00_def json_char_def json_quote_def RawMessage_Marshal_def
  json_member_def json_object_def

text \<open>Reading an encoded string gives the string.\<close>

lemma utf8_ascii: "code_of c < 128 \<Longrightarrow> utf8 (code_of c) = [c]"
  by (simp add: utf8_def code_of_def)

lemma hex4_u00:
  assumes "code_of c < 128"
  shows "hex4 (CHR ''0'') (CHR ''0'') (hex_char (code_of c div 16)) (hex_char (code_of c mod 16)) = Some (code_of c)"
proof -
  have z: "hex_digit (CHR ''0'') = Some 0" by (simp add: hex_digit_def code_of_def)
  have "hex_digit (hex_char (code_of c div 16)) = Some (code_of c div 16)"
    "hex_digit (hex_char (code_of c mod 16)) = Some (code_of c mod 16)"
    using assms by (auto intro!: hex_digit_hex_char)
  then show ?thesis by (simp add: hex4_def z)
qed

lemma pstr_u00: "code_of c < 128 \<Longrightarrow> pstr (json_u00 c @ s) = prepend [c] (pstr s)"
  using hex4_u00 [of c] by (simp add: json_u00_def utf8_ascii)

lemma pstr_json_char: "pstr (json_char c @ s) = prepend [c] (pstr s)"
proof -
  have "code_of c < 128" if "html_char c" using that by (auto simp: html_char_def code_of_def)
  then show ?thesis
    by (auto simp: json_char_def pstr_u00 simple_escape_def)
qed

lemma pstr_json_quote: "pstr (concat (map json_char s) @ chr_quote # rest) = Some (s, rest)"
  by (induction s) (simp_all add: pstr_json_char prepend_def)


text \<open>More fuel does not change what is read.\<close>

lemma fuel_mono:
  "pval k s = Some r1 \<Longrightarrow> pval (Suc k) s = Some r1"
  "parr k s = Some r2 \<Longrightarrow> parr (Suc k) s = Some r2"
  "pobj k s = Some r3 \<Longrightarrow> pobj (Suc k) s = Some r3"
proof (induction k s and k s and k s arbitrary: r1 and r2 and r3 rule: pval_parr_pobj.induct)
  case (2 k s)
  then show ?case
    unfolding pval.simps(2) [of k s] pval.simps(2) [of "Suc k" s]
    by (auto simp del: pval.simps parr.simps pobj.simps split: list.splits if_splits)
next
  case (4 k s)
  then show ?case
    unfolding parr.simps(2) [of k s] parr.simps(2) [of "Suc k" s]
    by (auto simp del: pval.simps parr.simps pobj.simps split: list.splits if_splits option.splits)
next
  case (6 k s)
  then show ?case
    unfolding pobj.simps(2) [of k s] pobj.simps(2) [of "Suc k" s]
    by (auto simp del: pval.simps parr.simps pobj.simps split: list.splits if_splits option.splits)
qed simp_all


lemma fuel_le: "k \<le> k' \<Longrightarrow> pval k s = Some r \<Longrightarrow> pval k' s = Some r"
  and fuel_obj_le: "k \<le> k' \<Longrightarrow> pobj k s = Some r' \<Longrightarrow> pobj k' s = Some r'"
  by (induction k' rule: nat_induct_at_least; use fuel_mono in blast)+

text \<open>
  \<open>json_reads raw v\<close>: wherever a value may end, the parser reads the text \<open>raw\<close> as \<open>v\<close> and
  stops behind it.
\<close>

definition value_end :: "string \<Rightarrow> bool" where
  "value_end rest \<longleftrightarrow> rest = [] \<or> hd rest \<in> set '',]}''"

definition json_reads :: "string \<Rightarrow> json \<Rightarrow> bool" where
  "json_reads raw v \<longleftrightarrow>
     raw \<noteq> [] \<and> \<not> json_ws (hd raw) \<and>
     (\<forall>rest. value_end rest \<longrightarrow> pval (length raw) (raw @ rest) = Some (v, rest))"

lemma skip_ws_idle: "s = [] \<or> \<not> json_ws (hd s) \<Longrightarrow> skip_ws s = s"
  by (cases s) (auto simp: skip_ws_def)

lemma json_parse_reads:
  assumes "json_reads raw v" shows "json_parse raw = Some v"
proof -
  have "pval (length raw) (raw @ []) = Some (v, [])"
    using assms by (simp add: json_reads_def value_end_def)
  then have "pval (Suc (length raw)) raw = Some (v, [])" using fuel_mono(1) by simp
  with assms show ?thesis
    by (simp add: json_parse_def json_reads_def skip_ws_idle skip_ws_def [of "[]"] del: pval.simps)
qed

lemma json_reads_quote: "json_reads (json_quote s) (JStr s)"
  by (simp add: json_reads_def json_quote_def json_ws_def pstr_json_quote)

lemma json_reads_null: "json_reads ''null'' JNull"
  by (simp add: json_reads_def json_ws_def eval_nat_numeral)

lemma json_reads_bool: "json_reads ''true'' (JBool True)" "json_reads ''false'' (JBool False)"
  by (simp_all add: json_reads_def json_ws_def eval_nat_numeral)

lemma pnum_nat_dec:
  assumes "value_end rest" shows "pnum (nat_dec n @ rest) = Some (nat_dec n, rest)"
proof -
  obtain c r where cr: "nat_dec n = c # r" by (cases "nat_dec n") auto
  have dig: "\<forall>x \<in> set (nat_dec n). is_digit x" by (auto dest: nat_dec_digits)
  then have c: "is_digit c" "c \<noteq> chr_dash" by (auto simp: cr is_digit_def code_of_def)
  have stop: "rest = [] \<or> (\<not> is_digit (hd rest) \<and> hd rest \<noteq> chr_dot \<and> hd rest \<noteq> CHR ''e'' \<and> hd rest \<noteq> CHR ''E'')"
    using assms by (auto simp: value_end_def is_digit_def code_of_def)
  have run: "takeWhile is_digit (nat_dec n @ rest) = nat_dec n" "dropWhile is_digit (nat_dec n @ rest) = rest"
    using dig stop by (cases rest; simp)+
  have int: "num_int (nat_dec n @ rest) = Some (nat_dec n, rest)"
  proof (cases "c = CHR ''0''")
    case True
    then have "hd (nat_dec n) = digit_char 0" by (simp add: cr digit_char_def char_of_def)
    then have "n = 0" using hd_nat_dec by blast
    then have "r = []" using cr by (simp add: nat_dec.simps)
    with True cr show ?thesis by (simp add: num_int_def)
  next
    case False
    with c run cr show ?thesis by (simp add: num_int_def)
  qed
  have "num_frac rest = Some ([], rest)" "num_exp rest = Some ([], rest)"
    using stop by (auto simp: num_frac_def num_exp_def split: list.split)
  with int c show ?thesis by (simp add: pnum_def cr)
qed

lemma json_reads_nat: "json_reads (nat_dec n) (JNum (nat_dec n))"
proof -
  obtain c r where cr: "nat_dec n = c # r" by (cases "nat_dec n") auto
  then have c: "is_digit c" using nat_dec_digits [of c n] by simp
  then have nc: "c \<noteq> chr_quote" "c \<noteq> CHR ''{''" "c \<noteq> CHR ''[''" "c \<noteq> CHR ''t''" "c \<noteq> CHR ''f''" "c \<noteq> CHR ''n''"
    "\<not> json_ws c"
    by (auto simp: is_digit_def code_of_def json_ws_def)
  have "pval (Suc k) (nat_dec n @ rest) = Some (JNum (nat_dec n), rest)" if "value_end rest" for k rest
    using pnum_nat_dec [OF that, of n] nc by (simp add: cr numeral_eq_Suc)
  then have "pval (length (nat_dec n)) (nat_dec n @ rest) = Some (JNum (nat_dec n), rest)" if "value_end rest" for rest
    using that by (metis cr length_Cons)
  with nc cr show ?thesis by (simp add: json_reads_def)
qed

definition members_text :: "(string \<times> string \<times> json) list \<Rightarrow> string" where
  "members_text ms = JoinStr '','' (map (\<lambda>(n, raw, v). json_member n raw) ms)"

lemma members_text_Cons:
  "ms \<noteq> [] \<Longrightarrow> members_text ((n, raw, v) # ms) = json_member n raw @ '','' @ members_text ms"
  by (cases ms) (auto simp: members_text_def JoinStr_def)

lemma members_text_single [simp]: "members_text [(n, raw, v)] = json_member n raw"
  by (simp add: members_text_def JoinStr_def)

lemma members_text_start: "ms \<noteq> [] \<Longrightarrow> \<exists>t. members_text ms = chr_quote # t"
  by (cases ms) (auto simp: members_text_def JoinStr_def json_member_def json_quote_def)

lemma pobj_member:
  assumes "json_reads raw v" "length raw \<le> k" "value_end (d # tail)"
  shows "pobj (Suc k) (json_member n raw @ d # tail) =
     (if d = CHR ''}'' then Some ([(n, raw, v)], tail)
      else if d = CHR '','' then map_option (\<lambda>(ms, rest). ((n, raw, v) # ms, rest)) (pobj k (skip_ws tail))
      else None)"
proof -
  have p: "pval k (raw @ d # tail) = Some (v, d # tail)"
    by (rule fuel_le [OF assms(2)]) (use assms(1,3) in \<open>simp add: json_reads_def\<close>)
  have q: "pstr (concat (map json_char n) @ chr_quote # chr_colon # raw @ d # tail) = Some (n, chr_colon # raw @ d # tail)"
    by (rule pstr_json_quote)
  have "skip_ws (raw @ r) = raw @ r" for r using assms(1) by (intro skip_ws_idle) (auto simp: json_reads_def)
  moreover have "skip_ws (chr_colon # raw @ d # tail) = chr_colon # raw @ d # tail" "skip_ws (d # tail) = d # tail"
    using assms(3) by (auto intro!: skip_ws_idle simp: json_ws_def value_end_def)
  ultimately show ?thesis using p q by (simp add: json_member_def json_quote_def del: pval.simps)
qed

lemma pobj_members:
  "ms \<noteq> [] \<Longrightarrow> \<forall>(n, raw, v) \<in> set ms. json_reads raw v \<Longrightarrow>
   pobj (length (members_text ms)) (members_text ms @ CHR ''}'' # rest) = Some (ms, rest)"
proof (induction ms)
  case (Cons m ms)
  obtain n raw v where m: "m = (n, raw, v)" by (cases m)
  with Cons.prems have r: "json_reads raw v" by simp
  have len: "Suc (length raw) \<le> length (json_member n raw)" by (simp add: json_member_def json_quote_def)
  show ?case
  proof (cases "ms = []")
    case True
    have "pobj (Suc (length raw)) (json_member n raw @ CHR ''}'' # rest) = Some ([(n, raw, v)], rest)"
      using pobj_member [OF r order_refl, of "CHR ''}''" rest n] by (simp add: value_end_def del: pobj.simps)
    with True m show ?thesis using fuel_obj_le [OF len] by simp
  next
    case False
    let ?t = "members_text ms @ CHR ''}'' # rest"
    have sk: "skip_ws ?t = ?t"
      using members_text_start [OF False] by (auto intro!: skip_ws_idle simp: json_ws_def)
    have ih: "pobj (length (members_text ms)) ?t = Some (ms, rest)" using Cons False by simp
    let ?k = "length raw + length (members_text ms)"
    have "pobj ?k ?t = Some (ms, rest)" by (rule fuel_obj_le [OF _ ih]) simp
    then have "pobj (Suc ?k) (json_member n raw @ CHR '','' # ?t) = Some (m # ms, rest)"
      using pobj_member [OF r, of ?k "CHR '',''" ?t n] by (simp add: value_end_def sk m del: pobj.simps)
    moreover have "members_text (m # ms) @ CHR ''}'' # rest = json_member n raw @ CHR '','' # ?t"
      using False by (simp add: m members_text_Cons)
    moreover have "Suc ?k \<le> length (members_text (m # ms))" using False len by (simp add: m members_text_Cons)
    ultimately show ?thesis using fuel_obj_le by metis
  qed
qed simp

lemma json_reads_object:
  assumes "ms \<noteq> []" "\<forall>(n, raw, v) \<in> set ms. json_reads raw v"
  shows "json_reads (json_object (map (\<lambda>(n, raw, v). (n, raw)) ms)) (JObj ms)"
proof -
  have obj: "json_object (map (\<lambda>(n, raw, v). (n, raw)) ms) = CHR ''{'' # members_text ms @ ''}''"
    by (simp add: json_object_def members_text_def comp_def split_def)
  obtain t where t: "members_text ms = chr_quote # t" using members_text_start [OF assms(1)] by blast
  have "pval (Suc (Suc (length (members_text ms)))) (CHR ''{'' # members_text ms @ CHR ''}'' # rest) = Some (JObj ms, rest)" for rest
  proof -
    have "pobj (Suc (length (members_text ms))) (members_text ms @ CHR ''}'' # rest) = Some (ms, rest)"
      by (rule fuel_obj_le [OF _ pobj_members [OF assms]]) simp
    moreover have "skip_ws (members_text ms @ CHR ''}'' # rest) = members_text ms @ CHR ''}'' # rest"
      by (rule skip_ws_idle) (simp add: t json_ws_def)
    ultimately show ?thesis by (simp add: t del: pobj.simps)
  qed
  then show ?thesis by (simp add: json_reads_def obj json_ws_def del: pval.simps)
qed

end
