(* ===== verification/Subnet_Config.thy ===== *)
theory Subnet_Config
  imports IP6_Net Go_Json
begin

text \<open>
  \<open>pkg/subnet/config.go\<close>: the network configuration, its decoding from JSON and the checks
  and defaults that \<open>CheckNetworkConfig\<close> applies.
\<close>

record Config =
  cfg_EnableIPv4 :: bool
  cfg_EnableIPv6 :: bool
  cfg_EnableNFTables :: bool
  cfg_Network :: IP4Net
  cfg_IPv6Network :: IP6Net
  cfg_SubnetMin :: IP4
  cfg_SubnetMax :: IP4
  cfg_IPv6SubnetMin :: IP6ptr
  cfg_IPv6SubnetMax :: IP6ptr
  cfg_SubnetLen :: uint
  cfg_IPv6SubnetLen :: uint
  cfg_BackendType :: string
  cfg_Backend :: string

definition new_Config :: Config where
  "new_Config =
     \<lparr>cfg_EnableIPv4 = False, cfg_EnableIPv6 = False, cfg_EnableNFTables = False,
      cfg_Network = empty_IP4Net, cfg_IPv6Network = empty_IP6Net, cfg_SubnetMin = 0,
      cfg_SubnetMax = 0, cfg_IPv6SubnetMin = None, cfg_IPv6SubnetMax = None, cfg_SubnetLen = 0,
      cfg_IPv6SubnetLen = 0, cfg_BackendType = [], cfg_Backend = []\<rparr>"

section \<open>Decoding\<close>

definition backend_type_set :: "string \<Rightarrow> string \<Rightarrow> json \<Rightarrow> string \<Rightarrow> string go" where
  "backend_type_set f raw v bt = dec_string bt v"

definition parseBackendType :: "string \<Rightarrow> string go" where
  "parseBackendType be =
     (if be = [] then Ok ''udp''
      else (case json_Unmarshal [''Type''] backend_type_set be [] of
              Err e \<Rightarrow> Err (Wrapped ''error decoding Backend property of config'' e)
            | r \<Rightarrow> r))"

definition config_fields :: "string list" where
  "config_fields =
     [''EnableIPv4'', ''EnableIPv6'', ''EnableNFTables'', ''Network'', ''IPv6Network'', ''SubnetMin'',
      ''SubnetMax'', ''IPv6SubnetMin'', ''IPv6SubnetMax'', ''SubnetLen'', ''IPv6SubnetLen'', ''Backend'']"

text \<open>A JSON null resets a pointer field; any other value goes to the field's decoder.\<close>

definition dec_IP6ptr :: "string \<Rightarrow> json \<Rightarrow> IP6ptr go" where
  "dec_IP6ptr raw v =
     (if v = JNull then Ok None else go_bind (IP6_UnmarshalJSON raw) (\<lambda>x. Ok (Some x)))"

definition config_set :: "string \<Rightarrow> string \<Rightarrow> json \<Rightarrow> Config \<Rightarrow> Config go" where
  "config_set f raw v c =
     (if f = ''EnableIPv4'' then
        go_bind (dec_bool (cfg_EnableIPv4 c) v) (\<lambda>b. Ok (c\<lparr>cfg_EnableIPv4 := b\<rparr>))
      else if f = ''EnableIPv6'' then
        go_bind (dec_bool (cfg_EnableIPv6 c) v) (\<lambda>b. Ok (c\<lparr>cfg_EnableIPv6 := b\<rparr>))
      else if f = ''EnableNFTables'' then
        go_bind (dec_bool (cfg_EnableNFTables c) v) (\<lambda>b. Ok (c\<lparr>cfg_EnableNFTables := b\<rparr>))
      else if f = ''Network'' then
        go_bind (IP4Net_UnmarshalJSON raw) (\<lambda>n. Ok (c\<lparr>cfg_Network := n\<rparr>))
      else if f = ''IPv6Network'' then
        go_bind (IP6Net_UnmarshalJSON raw) (\<lambda>n. Ok (c\<lparr>cfg_IPv6Network := n\<rparr>))
      else if f = ''SubnetMin'' then
        go_bind (IP4_UnmarshalJSON raw) (\<lambda>a. Ok (c\<lparr>cfg_SubnetMin := a\<rparr>))
      else if f = ''SubnetMax'' then
        go_bind (IP4_UnmarshalJSON raw) (\<lambda>a. Ok (c\<lparr>cfg_SubnetMax := a\<rparr>))
      else if f = ''IPv6SubnetMin'' then
        go_bind (dec_IP6ptr raw v) (\<lambda>a. Ok (c\<lparr>cfg_IPv6SubnetMin := a\<rparr>))
      else if f = ''IPv6SubnetMax'' then
        go_bind (dec_IP6ptr raw v) (\<lambda>a. Ok (c\<lparr>cfg_IPv6SubnetMax := a\<rparr>))
      else if f = ''SubnetLen'' then
        go_bind (dec_uint 64 (unat (cfg_SubnetLen c)) v) (\<lambda>n. Ok (c\<lparr>cfg_SubnetLen := of_nat n\<rparr>))
      else if f = ''IPv6SubnetLen'' then
        go_bind (dec_uint 64 (unat (cfg_IPv6SubnetLen c)) v) (\<lambda>n. Ok (c\<lparr>cfg_IPv6SubnetLen := of_nat n\<rparr>))
      else Ok (c\<lparr>cfg_Backend := raw\<rparr>))"

definition ParseConfig :: "string \<Rightarrow> Config go" where
  "ParseConfig s =
     go_bind (json_Unmarshal config_fields config_set s (new_Config\<lparr>cfg_EnableIPv4 := True\<rparr>)) (\<lambda>cfg.
       go_bind (parseBackendType (cfg_Backend cfg)) (\<lambda>bt. Ok (cfg\<lparr>cfg_BackendType := bt\<rparr>)))"

section \<open>Checking\<close>

text \<open>The IPv4 half of \<open>CheckNetworkConfig\<close>: the subnet length, then the range.\<close>

definition check_SubnetLen :: "Config \<Rightarrow> uint go" where
  "check_SubnetLen config =
     (let len = cfg_SubnetLen config; p = ip4_PrefixLen (cfg_Network config) in
      if len > 0 then
        (if len > 30 then Err (ErrorString ''SubnetLen must be less than /31'')
         else if len < p + 2 then
           Err (ErrorString ''network must be able to accommodate at least four subnets'')
         else Ok len)
      else if p > 28 then
        Err (ErrorString ''network is too small. Minimum useful network prefix is /28'')
      else if p \<le> 22 then Ok 24
      else Ok (p + 2))"

definition subnet_size :: "uint \<Rightarrow> IP4" where
  "subnet_size len = push_bit (unat (32 - len)) 1"

definition default_SubnetMin :: "Config \<Rightarrow> uint \<Rightarrow> IP4 go" where
  "default_SubnetMin config len =
     (if cfg_SubnetMin config = 0 then Ok (ip4_IP (cfg_Network config) + subnet_size len)
      else if \<not> IP4Net_Contains (cfg_Network config) (cfg_SubnetMin config) then
        Err (ErrorString ''SubnetMin is not in the range of the Network'')
      else Ok (cfg_SubnetMin config))"

definition default_SubnetMax :: "Config \<Rightarrow> uint \<Rightarrow> IP4 go" where
  "default_SubnetMax config len =
     (if cfg_SubnetMax config = 0 then Ok (ip4_IP (IP4Net_Next (cfg_Network config)) - subnet_size len)
      else if \<not> IP4Net_Contains (cfg_Network config) (cfg_SubnetMax config) then
        Err (ErrorString ''SubnetMax is not in the range of the Network'')
      else Ok (cfg_SubnetMax config))"

definition on_boundary :: "uint \<Rightarrow> IP4 \<Rightarrow> bool" where
  "on_boundary len a \<longleftrightarrow> a = a AND push_bit (unat (32 - len)) 0xFFFFFFFF"

definition check_IPv4 :: "Config \<Rightarrow> Config go" where
  "check_IPv4 config =
     (if IP4Net_Empty (cfg_Network config) then
        Err (ErrorString ''please define a correct Network parameter in the flannel config'')
      else go_bind (check_SubnetLen config) (\<lambda>len.
        go_bind (default_SubnetMin config len) (\<lambda>smin.
        go_bind (default_SubnetMax config len) (\<lambda>smax.
        if \<not> on_boundary len smin then
          Err (ErrorString ''SubnetMin is not on a SubnetLen boundary'')
        else if \<not> on_boundary len smax then
          Err (ErrorString ''SubnetMax is not on a SubnetLen boundary'')
        else Ok (config\<lparr>cfg_SubnetLen := len, cfg_SubnetMin := smin, cfg_SubnetMax := smax\<rparr>)))))"

definition check_IPv6SubnetLen :: "Config \<Rightarrow> uint go" where
  "check_IPv6SubnetLen config =
     (let len = cfg_IPv6SubnetLen config; p = ip6_PrefixLen (cfg_IPv6Network config) in
      if len > 0 then
        (if len > 126 then Err (ErrorString ''SubnetLen must be less than /127'')
         else if len < p + 2 then
           Err (ErrorString ''network must be able to accommodate at least four subnets'')
         else Ok len)
      else if p > 124 then
        Err (ErrorString ''IPv6Network is too small. Minimum useful network prefix is /124'')
      else if p \<le> 62 then Ok 64
      else Ok (p + 2))"

definition default_IPv6SubnetMin :: "Config \<Rightarrow> int \<Rightarrow> IP6 go" where
  "default_IPv6SubnetMin config subnetSize =
     (case cfg_IPv6SubnetMin config of
        Some v \<Rightarrow>
          if v = 0 then GetIPv6SubnetMin (ip6_IP (cfg_IPv6Network config)) subnetSize
          else go_bind (IP6Net_Contains (cfg_IPv6Network config) (Some v)) (\<lambda>inside.
                 if inside then Ok v
                 else Err (ErrorString ''IPv6SubnetMin is not in the range of the IPv6Network''))
      | None \<Rightarrow> GetIPv6SubnetMin (ip6_IP (cfg_IPv6Network config)) subnetSize)"

definition default_IPv6SubnetMax :: "Config \<Rightarrow> int \<Rightarrow> IP6 go" where
  "default_IPv6SubnetMax config subnetSize =
     (let above = go_bind (IP6Net_Next (cfg_IPv6Network config)) (\<lambda>n. GetIPv6SubnetMax (ip6_IP n) subnetSize) in
      case cfg_IPv6SubnetMax config of
        Some v \<Rightarrow>
          if v = 0 then above
          else go_bind (IP6Net_Contains (cfg_IPv6Network config) (Some v)) (\<lambda>inside.
                 if inside then Ok v
                 else Err (ErrorString ''IPv6SubnetMax is not in the range of the IPv6Network''))
      | None \<Rightarrow> above)"

definition check_IPv6 :: "Config \<Rightarrow> Config go" where
  "check_IPv6 config =
     (if IP6Net_Empty (cfg_IPv6Network config) then
        Err (ErrorString ''please define a correct IPv6Network parameter in the flannel config'')
      else go_bind (check_IPv6SubnetLen config) (\<lambda>len.
        go_bind (default_IPv6SubnetMin config (push_bit (unat (128 - len)) 1)) (\<lambda>smin.
        go_bind (default_IPv6SubnetMax config (push_bit (unat (128 - len)) 1)) (\<lambda>smax.
        go_bind (CheckIPv6Subnet (Some smin) (ip6_Mask (sint len))) (\<lambda>okmin.
        if \<not> okmin then Err (ErrorString ''IPv6SubnetMin is not on a SubnetLen boundary'')
        else go_bind (CheckIPv6Subnet (Some smax) (ip6_Mask (sint len))) (\<lambda>okmax.
        if \<not> okmax then Err (ErrorString ''IPv6SubnetMax is not on a SubnetLen boundary'')
        else Ok (config\<lparr>cfg_IPv6SubnetLen := len, cfg_IPv6SubnetMin := Some smin,
                        cfg_IPv6SubnetMax := Some smax\<rparr>)))))))"

definition CheckNetworkConfig :: "Config \<Rightarrow> Config go" where
  "CheckNetworkConfig config =
     go_bind (if cfg_EnableIPv4 config then check_IPv4 config else Ok config) (\<lambda>c.
       if cfg_EnableIPv6 config then check_IPv6 c else Ok c)"

lemmas [go_eval] =
  new_Config_def backend_type_set_def parseBackendType_def config_fields_def dec_IP6ptr_def
  config_set_def ParseConfig_def check_SubnetLen_def subnet_size_def default_SubnetMin_def default_SubnetMax_def on_boundary_def check_IPv4_def check_IPv6SubnetLen_def
  default_IPv6SubnetMin_def default_IPv6SubnetMax_def check_IPv6_def CheckNetworkConfig_def

section \<open>What a decoded configuration satisfies\<close>

definition ptr_ok :: "IP6ptr \<Rightarrow> bool" where
  "ptr_ok p = (case p of None \<Rightarrow> True | Some v \<Rightarrow> ip6_ok v)"

definition config_decoded :: "Config \<Rightarrow> bool" where
  "config_decoded c \<longleftrightarrow>
     ip4_PrefixLen (cfg_Network c) \<le> 128 \<and>
     (ip4_PrefixLen (cfg_Network c) \<le> 32 \<longrightarrow> ip4_aligned (cfg_Network c)) \<and>
     (cfg_IPv6Network c = empty_IP6Net \<or> ip6_wf (cfg_IPv6Network c)) \<and>
     ptr_ok (cfg_IPv6SubnetMin c) \<and> ptr_ok (cfg_IPv6SubnetMax c)"

lemma ParseIP_cases: "ParseIP s = [] \<or> length (ParseIP s) = 16"
  using ParseAddr_length [of s] by (auto simp: ParseIP_def v4InV6Prefix_def split: option.splits)

lemma FromIP_no_panic: "To4 ip \<noteq> [] \<Longrightarrow> \<exists>x. FromIP ip = Ok x"
  by (auto simp: FromIP_def FromBytes_def To4_def split: if_splits)

lemma FromIP6_no_panic: "length ip = 4 \<or> length ip = 16 \<Longrightarrow> \<exists>v. FromIP6 ip = Ok v"
  by (auto simp: FromIP6_def To16_def v4InV6Prefix_def)

lemma IP4_UnmarshalJSON_no_panic [simp]: "\<not> panics (IP4_UnmarshalJSON j)"
  using FromIP_no_panic [of "ParseIP (Trim j [chr_quote])"]
  by (auto simp: IP4_UnmarshalJSON_def ParseIP4_def)

lemma IP6_UnmarshalJSON_no_panic [simp]: "\<not> panics (IP6_UnmarshalJSON j)"
  using FromIP6_no_panic [of "ParseIP (Trim j [chr_quote])"] ParseIP_cases [of "Trim j [chr_quote]"]
  by (auto simp: IP6_UnmarshalJSON_def ParseIP6_def)

lemma IP4Net_UnmarshalJSON_no_panic [simp]: "\<not> panics (IP4Net_UnmarshalJSON j)"
proof -
  have "\<not> panics (FromIPNet val)" if "To4 (ipn_IP val) \<noteq> []" for val
    using FromIP_no_panic [OF that] by (auto simp: FromIPNet_def)
  then show ?thesis by (auto simp: IP4Net_UnmarshalJSON_def split: option.split)
qed

lemma IP6Net_UnmarshalJSON_no_panic [simp]: "\<not> panics (IP6Net_UnmarshalJSON j)"
proof -
  have "\<not> panics (FromIP6Net val)" if "ParseCIDR s = Some (ip, val)" for s ip val
  proof -
    have "length (ipn_IP val) = 4 \<or> length (ipn_IP val) = 16"
      using that by (cases rule: ParseCIDR_cases) (auto simp: CIDRMask_def)
    from FromIP6_no_panic [OF this] show ?thesis by (auto simp: FromIP6Net_def)
  qed
  then show ?thesis by (auto simp: IP6Net_UnmarshalJSON_def split: option.split)
qed

lemma dec_IP6ptr_no_panic [simp]: "\<not> panics (dec_IP6ptr raw v)"
  by (simp add: dec_IP6ptr_def)

lemma config_set_no_panic: "\<not> panics (config_set f raw v c)"
  by (simp add: config_set_def)

lemma IP6_UnmarshalJSON_ok: "IP6_UnmarshalJSON j = Ok v \<Longrightarrow> ip6_ok v"
  by (auto simp: IP6_UnmarshalJSON_def ParseIP6_def split: if_splits intro: FromIP6_ok)

lemma dec_IP6ptr_ok: "dec_IP6ptr raw v = Ok p \<Longrightarrow> ptr_ok p"
  by (auto simp: dec_IP6ptr_def ptr_ok_def go_simps split: if_splits intro: IP6_UnmarshalJSON_ok)

lemma config_set_decoded:
  assumes "config_decoded c" "config_set f raw v c = Ok c'"
  shows "config_decoded c'"
proof -
  note net = IP4Net_UnmarshalJSON_aligned IP6Net_UnmarshalJSON_wf dec_IP6ptr_ok
  show ?thesis
    using assms unfolding config_set_def
    by (auto simp: config_decoded_def go_bind_Ok_iff split: if_splits dest: net)
qed

lemma ParseConfig_decoded: "ParseConfig s = Ok c \<Longrightarrow> config_decoded c"
proof -
  assume "ParseConfig s = Ok c"
  then obtain c0 bt where c: "json_Unmarshal config_fields config_set s (new_Config\<lparr>cfg_EnableIPv4 := True\<rparr>) = Ok c0"
    "c = c0\<lparr>cfg_BackendType := bt\<rparr>" by (auto simp: ParseConfig_def go_simps)
  have init: "config_decoded (new_Config\<lparr>cfg_EnableIPv4 := True\<rparr>)"
    by (simp add: config_decoded_def new_Config_def ptr_ok_def ip4_aligned_def IP4Net_Network_def)
  have "config_decoded c0"
    by (rule json_Unmarshal_inv [where P = config_decoded, OF _ init c(1)]) (rule config_set_decoded)
  then show ?thesis by (simp add: c(2) config_decoded_def)
qed

lemma parseBackendType_no_panic: "\<not> panics (parseBackendType be)"
proof -
  have "\<not> panics (json_Unmarshal [''Type''] backend_type_set be [])"
    by (rule json_Unmarshal_no_panic) (simp add: backend_type_set_def)
  then show ?thesis by (auto simp: parseBackendType_def split: go.split)
qed

lemma ParseConfig_no_panic: "\<not> panics (ParseConfig s)"
  by (auto simp: ParseConfig_def json_Unmarshal_no_panic [OF config_set_no_panic] parseBackendType_no_panic)

section \<open>What the check guarantees\<close>

lemma IP6Net_Contains_total:
  assumes "ip6_wf n" "ip6_ok w"
  shows "\<exists>b. IP6Net_Contains n (Some w) = Ok b"
proof -
  obtain v where v: "ip6_IP n = Some v" "ip6_ok v" "ip6_PrefixLen n \<le> 128" using assms(1) by (rule ip6_wfE)
  have "\<exists>s. IP6_String (x AND IP6Net_Mask n) = Ok s" if "ip6_ok x" for x
    using that v(3) by (simp add: AND_IP6Net_Mask IP6_String_total ip6_ok_block)
  from this [OF v(2)] this [OF assms(2)] obtain s t
    where "IP6_String (v AND IP6Net_Mask n) = Ok s" "IP6_String (w AND IP6Net_Mask n) = Ok t" by blast
  then show ?thesis by (simp add: IP6Net_Contains_def same_string_def v(1))
qed

lemma check_IPv6_no_panic:
  assumes "config_decoded c"
  shows "\<not> panics (check_IPv6 c)"
proof (cases "IP6Net_Empty (cfg_IPv6Network c)")
  case False
  then have wf: "ip6_wf (cfg_IPv6Network c)"
    using assms by (auto simp: config_decoded_def IP6Net_Empty_def)
  then obtain v where v: "ip6_IP (cfg_IPv6Network c) = Some v" by (rule ip6_wfE)
  have "\<not> panics (check_IPv6SubnetLen c)" by (simp add: check_IPv6SubnetLen_def Let_def)
  moreover have inside: "\<not> panics (IP6Net_Contains (cfg_IPv6Network c) (Some w))" if "ip6_ok w" for w
    using IP6Net_Contains_total [OF wf that] by auto
  moreover have "\<not> panics (default_IPv6SubnetMin c m)" for m
  proof (cases "cfg_IPv6SubnetMin c")
    case (Some w)
    then have "ip6_ok w" using assms by (simp add: config_decoded_def ptr_ok_def)
    with Some v inside show ?thesis by (simp add: default_IPv6SubnetMin_def GetIPv6SubnetMin_def)
  qed (simp add: default_IPv6SubnetMin_def GetIPv6SubnetMin_def v)
  moreover have "\<not> panics (default_IPv6SubnetMax c m)" for m
  proof (cases "cfg_IPv6SubnetMax c")
    case (Some w)
    then have "ip6_ok w" using assms by (simp add: config_decoded_def ptr_ok_def)
    with Some v inside show ?thesis
      by (simp add: default_IPv6SubnetMax_def GetIPv6SubnetMax_def IP6Net_Next_def)
  qed (simp add: default_IPv6SubnetMax_def GetIPv6SubnetMax_def IP6Net_Next_def v)
  moreover have "\<not> panics (CheckIPv6Subnet (Some x) m)" for x m by (simp add: CheckIPv6Subnet_def)
  ultimately show ?thesis using False by (simp add: check_IPv6_def)
qed (simp add: check_IPv6_def)

lemma check_IPv4_result:
  assumes "check_IPv4 c = Ok c'"
  obtains len smin smax where
    "check_SubnetLen c = Ok len" "default_SubnetMin c len = Ok smin" "default_SubnetMax c len = Ok smax"
    "on_boundary len smin" "on_boundary len smax"
    "c' = c\<lparr>cfg_SubnetLen := len, cfg_SubnetMin := smin, cfg_SubnetMax := smax\<rparr>"
  using assms unfolding check_IPv4_def by (auto simp: go_bind_Ok_iff split: if_splits)

lemma check_IPv4_no_panic: "\<not> panics (check_IPv4 c)"
proof -
  have "\<not> panics (check_SubnetLen c)" by (simp add: check_SubnetLen_def Let_def)
  moreover have "\<not> panics (default_SubnetMin c len)" "\<not> panics (default_SubnetMax c len)" for len
    by (simp_all add: default_SubnetMin_def default_SubnetMax_def)
  ultimately show ?thesis by (simp add: check_IPv4_def)
qed

lemma check_IPv4_decoded: "config_decoded c \<Longrightarrow> check_IPv4 c = Ok c' \<Longrightarrow> config_decoded c'"
  by (erule check_IPv4_result) (simp add: config_decoded_def)

lemma CheckNetworkConfig_no_panic: "config_decoded c \<Longrightarrow> \<not> panics (CheckNetworkConfig c)"
  by (simp add: CheckNetworkConfig_def check_IPv4_no_panic) (metis check_IPv4_decoded check_IPv6_no_panic go.inject(1))

lemma check_SubnetLen_bounds:
  assumes "check_SubnetLen c = Ok len" "ip4_PrefixLen (cfg_Network c) \<le> 128"
  shows "unat (ip4_PrefixLen (cfg_Network c)) + 2 \<le> unat len \<and> unat len \<le> 30"
proof -
  let ?p = "ip4_PrefixLen (cfg_Network c)"
  have p2: "unat (?p + 2) = unat ?p + 2"
  proof -
    have "unat ?p \<le> 128" using assms(2) by (simp add: word_le_nat_alt)
    then show ?thesis by (subst unat_add_lem [THEN iffD1]) simp_all
  qed
  consider "len = cfg_SubnetLen c" "\<not> len > 30" "\<not> len < ?p + 2" | "len = 24" "?p \<le> 22"
    | "len = ?p + 2" "\<not> ?p > 28"
    using assms(1) unfolding check_SubnetLen_def Let_def by (auto split: if_splits)
  then show ?thesis
    by cases (use p2 in \<open>simp_all add: word_less_nat_alt word_le_nat_alt\<close>)
qed

lemma subnet_size_word: "len \<le> 32 \<Longrightarrow> subnet_size len = of_nat (2 ^ (32 - unat len))"
  by (simp add: subnet_size_def shift_count push_bit_eq_mult)

lemma on_boundary_aligned:
  "len \<le> 32 \<Longrightarrow> on_boundary len a \<longleftrightarrow> ip4_aligned \<lparr>ip4_IP = a, ip4_PrefixLen = len\<rparr>"
  by (auto simp: on_boundary_def ip4_aligned_def IP4Net_Network_def IP4Net_Mask_def)

text \<open>The default bounds are the second and the last subnet of the network.\<close>

lemma default_SubnetMin_in:
  assumes n: "ip4_wf (cfg_Network c)" "ip4_aligned (cfg_Network c)"
    and len: "unat (ip4_PrefixLen (cfg_Network c)) + 2 \<le> unat len" "unat len \<le> 30"
    and "default_SubnetMin c len = Ok smin"
  shows "IP4Net_Contains (cfg_Network c) smin"
proof (cases "cfg_SubnetMin c = 0")
  case True
  let ?n = "cfg_Network c"
  let ?k = "ip4_bits ?n" and ?l = "32 - unat len" and ?x = "unat (ip4_IP ?n)"
  have l: "len \<le> 32" using len(2) by (simp add: word_le_nat_alt)
  have kl: "?l < ?k" using len by (simp add: ip4_bits_def)
  then have lt: "(2::nat) ^ ?l < 2 ^ ?k" by simp
  have base: "ip4_base ?n = ?x" by (rule aligned_base [OF n])
  have smin: "smin = ip4_IP ?n + of_nat (2 ^ ?l)"
    using assms(5) True by (simp add: default_SubnetMin_def subnet_size_word [OF l])
  have "unat smin = ?x + 2 ^ ?l"
    unfolding smin unat_add_of_nat_32 using ip4_base_bound [of ?n] base lt by (intro mod_less) linarith
  then have "?x \<le> unat smin" "unat smin < ?x + 2 ^ ?k" using lt by linarith+
  then have "smin \<in> ip4_addrs ?n" using base by (simp add: ip4_addrs_def)
  then show ?thesis using n(1) by (simp add: Contains_div in_ip4_addrs_div)
next
  case False
  then show ?thesis using assms(5) by (auto simp: default_SubnetMin_def split: if_splits)
qed

lemma default_SubnetMax_in:
  assumes n: "ip4_wf (cfg_Network c)" "ip4_aligned (cfg_Network c)"
    and len: "unat (ip4_PrefixLen (cfg_Network c)) + 2 \<le> unat len" "unat len \<le> 30"
    and "default_SubnetMax c len = Ok smax"
  shows "IP4Net_Contains (cfg_Network c) smax"
proof (cases "cfg_SubnetMax c = 0")
  case True
  let ?n = "cfg_Network c"
  let ?k = "ip4_bits ?n" and ?l = "32 - unat len" and ?x = "unat (ip4_IP ?n)"
  have l: "len \<le> 32" using len(2) by (simp add: word_le_nat_alt)
  have kl: "?l < ?k" using len by (simp add: ip4_bits_def)
  then have lt: "(2::nat) ^ ?l < 2 ^ ?k" by simp
  have base: "ip4_base ?n = ?x" by (rule aligned_base [OF n])
  have "smax = ip4_IP ?n + of_nat (2 ^ ?k) - of_nat (2 ^ ?l)"
    using assms(5) True by (simp add: default_SubnetMax_def subnet_size_word [OF l] Next_step_word [OF n(1)])
  then have smax: "smax = ip4_IP ?n + of_nat (2 ^ ?k - 2 ^ ?l)"
    using lt by (simp add: of_nat_diff)
  have pos: "(0::nat) < 2 ^ ?l" by simp
  then have "unat smax = ?x + (2 ^ ?k - 2 ^ ?l)"
    unfolding smax unat_add_of_nat_32 using ip4_base_bound [of ?n] base lt by (intro mod_less) linarith
  then have "?x \<le> unat smax" "unat smax < ?x + 2 ^ ?k" using lt pos by linarith+
  then have "smax \<in> ip4_addrs ?n" using base by (simp add: ip4_addrs_def)
  then show ?thesis using n(1) by (simp add: Contains_div in_ip4_addrs_div)
next
  case False
  then show ?thesis using assms(5) by (auto simp: default_SubnetMax_def split: if_splits)
qed

lemma checked_IPv4:
  assumes "config_decoded c" "check_IPv4 c = Ok c'"
  shows "ip4_wf (cfg_Network c') \<and> ip4_aligned (cfg_Network c') \<and>
     unat (ip4_PrefixLen (cfg_Network c')) + 2 \<le> unat (cfg_SubnetLen c') \<and> unat (cfg_SubnetLen c') \<le> 30 \<and>
     ip4_aligned \<lparr>ip4_IP = cfg_SubnetMin c', ip4_PrefixLen = cfg_SubnetLen c'\<rparr> \<and>
     ip4_aligned \<lparr>ip4_IP = cfg_SubnetMax c', ip4_PrefixLen = cfg_SubnetLen c'\<rparr> \<and>
     IP4Net_Contains (cfg_Network c') (cfg_SubnetMin c') \<and> IP4Net_Contains (cfg_Network c') (cfg_SubnetMax c')"
proof -
  obtain len smin smax where r:
    "check_SubnetLen c = Ok len" "default_SubnetMin c len = Ok smin" "default_SubnetMax c len = Ok smax"
    "on_boundary len smin" "on_boundary len smax"
    "c' = c\<lparr>cfg_SubnetLen := len, cfg_SubnetMin := smin, cfg_SubnetMax := smax\<rparr>"
    using assms(2) by (rule check_IPv4_result)
  have b: "unat (ip4_PrefixLen (cfg_Network c)) + 2 \<le> unat len" "unat len \<le> 30"
    using check_SubnetLen_bounds [OF r(1)] assms(1) by (simp_all add: config_decoded_def)
  then have wf: "ip4_wf (cfg_Network c)" by (simp add: ip4_wf_def word_le_nat_alt)
  then have al: "ip4_aligned (cfg_Network c)" using assms(1) by (simp add: config_decoded_def ip4_wf_def)
  have "len \<le> 32" using b(2) by (simp add: word_le_nat_alt)
  with r(4,5) wf al b default_SubnetMin_in [OF wf al b r(2)] default_SubnetMax_in [OF wf al b r(3)]
  show ?thesis by (simp add: r(6) on_boundary_aligned)
qed

lemma checked_IPv6_kept: "check_IPv6 c = Ok c' \<Longrightarrow>
  cfg_Network c' = cfg_Network c \<and> cfg_SubnetLen c' = cfg_SubnetLen c \<and> cfg_SubnetMin c' = cfg_SubnetMin c \<and>
  cfg_SubnetMax c' = cfg_SubnetMax c \<and> cfg_EnableIPv4 c' = cfg_EnableIPv4 c"
  unfolding check_IPv6_def by (auto simp: go_bind_Ok_iff split: if_splits)

lemma checked_config:
  assumes "config_decoded c" "CheckNetworkConfig c = Ok c'" "cfg_EnableIPv4 c'"
  shows "ip4_wf (cfg_Network c') \<and> ip4_aligned (cfg_Network c') \<and>
     unat (ip4_PrefixLen (cfg_Network c')) + 2 \<le> unat (cfg_SubnetLen c') \<and> unat (cfg_SubnetLen c') \<le> 30 \<and>
     ip4_aligned \<lparr>ip4_IP = cfg_SubnetMin c', ip4_PrefixLen = cfg_SubnetLen c'\<rparr> \<and>
     ip4_aligned \<lparr>ip4_IP = cfg_SubnetMax c', ip4_PrefixLen = cfg_SubnetLen c'\<rparr> \<and>
     IP4Net_Contains (cfg_Network c') (cfg_SubnetMin c') \<and> IP4Net_Contains (cfg_Network c') (cfg_SubnetMax c')"
proof -
  obtain c1 where c1: "(if cfg_EnableIPv4 c then check_IPv4 c else Ok c) = Ok c1"
    "(if cfg_EnableIPv6 c then check_IPv6 c1 else Ok c1) = Ok c'"
    using assms(2) by (auto simp: CheckNetworkConfig_def go_bind_Ok_iff)
  have keep: "cfg_Network c' = cfg_Network c1 \<and> cfg_SubnetLen c' = cfg_SubnetLen c1 \<and>
      cfg_SubnetMin c' = cfg_SubnetMin c1 \<and> cfg_SubnetMax c' = cfg_SubnetMax c1 \<and> cfg_EnableIPv4 c' = cfg_EnableIPv4 c1"
    using c1(2) checked_IPv6_kept [of c1 c'] by (auto split: if_splits)
  have "cfg_EnableIPv4 c" using c1(1) keep assms(3) by (auto split: if_splits)
  then have "check_IPv4 c = Ok c1" using c1(1) by simp
  from checked_IPv4 [OF assms(1) this] keep show ?thesis by simp
qed

section \<open>Properties\<close>

definition demo_config :: string where
  "demo_config = ''{\"Network\": \"10.3.0.0/16\", \"Backend\": {\"Type\": \"vxlan\"}}''"

text \<open>
  C7. No configuration text makes the program panic: decoding it and checking the result
  returns a configuration or an error.
\<close>

theorem config_text_never_panics:
  "\<not> panics (go_bind (ParseConfig s) CheckNetworkConfig)"
  using ParseConfig_decoded CheckNetworkConfig_no_panic ParseConfig_no_panic by auto

text \<open>
  C6. A configuration text that is accepted with IPv4 enabled describes a usable pool: the
  network is aligned and holds at least four subnets of at least four addresses, and the
  first and last subnet of the pool are aligned to the subnet length and lie completely
  inside the network.
\<close>

theorem accepted_config_pool:
  assumes "go_bind (ParseConfig s) CheckNetworkConfig = Ok c" "cfg_EnableIPv4 c"
  shows "IP4Net_Network (cfg_Network c) = cfg_Network c \<and>
     unat (ip4_PrefixLen (cfg_Network c)) + 2 \<le> unat (cfg_SubnetLen c) \<and> unat (cfg_SubnetLen c) \<le> 30 \<and>
     (\<forall>a \<in> {cfg_SubnetMin c, cfg_SubnetMax c}.
        IP4Net_Network \<lparr>ip4_IP = a, ip4_PrefixLen = cfg_SubnetLen c\<rparr> = \<lparr>ip4_IP = a, ip4_PrefixLen = cfg_SubnetLen c\<rparr> \<and>
        IP4Net_ContainsCIDR (cfg_Network c) \<lparr>ip4_IP = a, ip4_PrefixLen = cfg_SubnetLen c\<rparr>)"
proof -
  obtain c0 where "ParseConfig s = Ok c0" "CheckNetworkConfig c0 = Ok c"
    using assms(1) by (auto simp: go_bind_Ok_iff)
  note k = checked_config [OF ParseConfig_decoded [OF this(1)] this(2) assms(2)]
  have "IP4Net_ContainsCIDR (cfg_Network c) \<lparr>ip4_IP = a, ip4_PrefixLen = cfg_SubnetLen c\<rparr>"
    if "IP4Net_Contains (cfg_Network c) a" for a
  proof -
    have "ip4_wf \<lparr>ip4_IP = a, ip4_PrefixLen = cfg_SubnetLen c\<rparr>"
      using k by (simp add: ip4_wf_def word_le_nat_alt)
    from Mask_le_iff [OF _ this, of "cfg_Network c"] k that show ?thesis
      by (simp add: IP4Net_ContainsCIDR_def ip4_bits_def diff_le_mono2)
  qed
  with k show ?thesis by (auto simp: ip4_aligned_def)
qed

theorem accepted_config_pool_witness:
  "\<exists>c. go_bind (ParseConfig demo_config) CheckNetworkConfig = Ok c \<and>
     IP4Net_ContainsCIDR (cfg_Network c) \<lparr>ip4_IP = cfg_SubnetMin c, ip4_PrefixLen = cfg_SubnetLen c\<rparr> \<and>
     cfg_SubnetMin c = 0x0a030100 \<and> unat (cfg_SubnetLen c) \<le> 30"
proof -
  obtain c where c: "go_bind (ParseConfig demo_config) CheckNetworkConfig = Ok c" "cfg_EnableIPv4 c"
    "cfg_SubnetMin c = 0x0a030100"
    by (simp add: demo_config_def go_eval)
  from accepted_config_pool [OF c(1,2)] c show ?thesis by blast
qed

end
