(* ===== verification/Lease_Json.thy ===== *)
theory Lease_Json
  imports Lease_Watch Subnet_Config
begin

text \<open>
  The JSON form of \<open>LeaseAttrs\<close> (\<open>pkg/lease/lease.go\<close>), which is the value stored in etcd for
  a lease, and the text \<open>LeaseAttrs.String\<close> prints.
\<close>

section \<open>Operations\<close>

abbreviation empty_attrs :: LeaseAttrs where
  "empty_attrs \<equiv> \<lparr>la_PublicIP = 0, la_PublicIPv6 = None, la_BackendType = [], la_BackendData = None,
                  la_BackendV6Data = None\<rparr>"

definition attrs_fields :: "string list" where
  "attrs_fields = [''PublicIP'', ''PublicIPv6'', ''BackendType'', ''BackendData'', ''BackendV6Data'']"

definition attrs_set :: "string \<Rightarrow> string \<Rightarrow> json \<Rightarrow> LeaseAttrs \<Rightarrow> LeaseAttrs go" where
  "attrs_set f raw v a =
     (if f = ''PublicIP'' then go_bind (IP4_UnmarshalJSON raw) (\<lambda>x. Ok (a\<lparr>la_PublicIP := x\<rparr>))
      else if f = ''PublicIPv6'' then go_bind (dec_IP6ptr raw v) (\<lambda>x. Ok (a\<lparr>la_PublicIPv6 := x\<rparr>))
      else if f = ''BackendType'' then go_bind (dec_string (la_BackendType a) v) (\<lambda>x. Ok (a\<lparr>la_BackendType := x\<rparr>))
      else if f = ''BackendData'' then Ok (a\<lparr>la_BackendData := Some raw\<rparr>)
      else Ok (a\<lparr>la_BackendV6Data := Some raw\<rparr>))"

definition LeaseAttrs_Unmarshal :: "string \<Rightarrow> LeaseAttrs go" where
  "LeaseAttrs_Unmarshal s = json_Unmarshal attrs_fields attrs_set s empty_attrs"

definition IP6ptr_Marshal :: "IP6ptr \<Rightarrow> string" where
  "IP6ptr_Marshal p = (case p of None \<Rightarrow> ''null'' | Some v \<Rightarrow> IP6_MarshalJSON v)"

text \<open>\<open>omitempty\<close> leaves out an empty string and an empty \<open>json.RawMessage\<close>.\<close>

definition raw_member :: "string \<Rightarrow> string option \<Rightarrow> (string \<times> string) list go" where
  "raw_member name d =
     (case d of
        None \<Rightarrow> Ok []
      | Some raw \<Rightarrow> if raw = [] then Ok [] else go_bind (RawMessage_Marshal raw) (\<lambda>t. Ok [(name, t)]))"

definition LeaseAttrs_Marshal :: "LeaseAttrs \<Rightarrow> string go" where
  "LeaseAttrs_Marshal a =
     go_bind (raw_member ''BackendData'' (la_BackendData a)) (\<lambda>d.
     go_bind (raw_member ''BackendV6Data'' (la_BackendV6Data a)) (\<lambda>d6.
       Ok (json_object
         ([(''PublicIP'', IP4_MarshalJSON (la_PublicIP a)), (''PublicIPv6'', IP6ptr_Marshal (la_PublicIPv6 a))] @
          (if la_BackendType a = [] then [] else [(''BackendType'', json_quote (la_BackendType a))]) @ d @ d6))))"

definition raw_text :: "string option \<Rightarrow> string" where
  "raw_text d =
     (case d of
        None \<Rightarrow> ''(nil)''
      | Some raw \<Rightarrow> (case RawMessage_Marshal raw of Ok j \<Rightarrow> j | _ \<Rightarrow> ''(nil)''))"

definition LeaseAttrs_String :: "LeaseAttrs \<Rightarrow> string go" where
  "LeaseAttrs_String a =
     go_bind (case la_PublicIPv6 a of None \<Rightarrow> Ok ''(nil)'' | Some v \<Rightarrow> IP6_String v) (\<lambda>v6.
       Ok (''BackendType: '' @ la_BackendType a @ '', PublicIP: '' @ IP4_String (la_PublicIP a) @ '', '' @
           ''PublicIPv6: '' @ v6 @ '', '' @
           ''BackendData: '' @ raw_text (la_BackendData a) @ '', '' @
           ''BackendV6Data: '' @ raw_text (la_BackendV6Data a)))"

lemmas [go_eval] =
  attrs_fields_def attrs_set_def LeaseAttrs_Unmarshal_def IP6ptr_Marshal_def raw_member_def
  LeaseAttrs_Marshal_def raw_text_def LeaseAttrs_String_def

section \<open>The stored attributes are read back\<close>

definition raw_ok :: "string option \<Rightarrow> bool" where
  "raw_ok d \<longleftrightarrow>
     (case d of None \<Rightarrow> True | Some raw \<Rightarrow> (\<exists>v. json_reads raw v) \<and> json_compact False raw = raw)"

definition attrs_ok :: "LeaseAttrs \<Rightarrow> bool" where
  "attrs_ok a \<longleftrightarrow>
     (case la_PublicIPv6 a of None \<Rightarrow> True | Some v \<Rightarrow> ip6_plain v) \<and>
     raw_ok (la_BackendData a) \<and> raw_ok (la_BackendV6Data a)"

lemma json_reads_quoted:
  assumes "\<forall>c \<in> set s. json_char c = [c]"
  shows "json_reads (quoted s) (JStr s)"
proof -
  from assms have "concat (map json_char s) = s" by (induction s) auto
  then have "quoted s = json_quote s" by (simp add: quoted_def json_quote_def)
  then show ?thesis using json_reads_quote [of s] by simp
qed

lemma json_char_plain:
  assumes "32 \<le> code_of c" "code_of c \<notin> {34, 38, 60, 62, 92}"
  shows "json_char c = [c]"
proof -
  have "c \<noteq> chr_quote" "c \<noteq> chr_bslash" "c \<noteq> CHR 0x08" "c \<noteq> CHR 0x0C" "c \<noteq> CHR 0x0A" "c \<noteq> CHR 0x0D"
    "c \<noteq> CHR 0x09" "\<not> html_char c"
    using assms by (auto simp: code_of_def html_char_def)
  with assms(1) show ?thesis by (simp add: json_char_def)
qed

lemma json_reads_IP4: "json_reads (IP4_MarshalJSON ip) (JStr (IP4_String ip))"
  unfolding IP4_MarshalJSON_def
proof (rule json_reads_quoted, rule ballI, rule json_char_plain)
  fix c assume "c \<in> set (IP4_String ip)"
  then have "is_digit c \<or> code_of c = 46" using IP4_String_chars [of c ip] by (auto simp: code_of_def)
  then show "32 \<le> code_of c" "code_of c \<notin> {34, 38, 60, 62, 92}" by (auto simp: is_digit_def)
qed

lemma hex_digit_code: "hex_digit c \<noteq> None \<Longrightarrow>
    (48 \<le> code_of c \<and> code_of c \<le> 57) \<or> (97 \<le> code_of c \<and> code_of c \<le> 102) \<or> (65 \<le> code_of c \<and> code_of c \<le> 70)"
  by (simp add: hex_digit_def Let_def split: if_splits)

lemma json_reads_IP6:
  assumes "ip6_plain v"
  shows "\<exists>s. json_reads (IP6_MarshalJSON v) (JStr s)"
proof -
  have "json_char c = [c]" if "c \<in> set (string6 ws)" for c ws
  proof (rule json_char_plain)
    have "hex_digit c \<noteq> None \<or> code_of c = 58" using string6_chars [OF that] by (auto simp: code_of_def)
    then show "32 \<le> code_of c" "code_of c \<notin> {34, 38, 60, 62, 92}" using hex_digit_code [of c] by auto
  qed
  then have "json_reads (quoted (string6 ws)) (JStr (string6 ws))" for ws by (intro json_reads_quoted ballI)
  with assms show ?thesis by (auto simp: IP6_MarshalJSON_def IP6_String_plain)
qed

lemma IP6ptr_round_trip:
  assumes "case p of None \<Rightarrow> True | Some v \<Rightarrow> ip6_plain v"
  shows "\<exists>v. json_reads (IP6ptr_Marshal p) v \<and> dec_IP6ptr (IP6ptr_Marshal p) v = Ok p"
proof (cases p)
  case None
  then show ?thesis using json_reads_null by (auto simp: IP6ptr_Marshal_def dec_IP6ptr_def)
next
  case (Some v)
  with assms obtain s where "json_reads (IP6_MarshalJSON v) (JStr s)" using json_reads_IP6 by auto
  with Some assms show ?thesis
    by (auto simp: IP6ptr_Marshal_def dec_IP6ptr_def IP6_Unmarshal_Marshal)
qed

lemma raw_member_ok:
  assumes "raw_ok d"
  shows "(d = None \<and> raw_member name d = Ok []) \<or>
    (\<exists>raw v. d = Some raw \<and> json_reads raw v \<and> raw_member name d = Ok [(name, raw)])"
proof (cases d)
  case (Some raw)
  with assms obtain v where "json_reads raw v" "json_compact False raw = raw" by (auto simp: raw_ok_def)
  moreover from this have "json_parse raw = Some v" "raw \<noteq> []" by (simp_all add: json_parse_reads json_reads_def)
  ultimately show ?thesis using Some by (auto simp: raw_member_def RawMessage_Marshal_def)
qed (simp add: raw_member_def)

lemma IP4_Unmarshal_Marshal [simp]: "IP4_UnmarshalJSON (IP4_MarshalJSON ip) = Ok ip"
proof -
  have "chr_quote \<notin> set (IP4_String ip)" using IP4_String_chars [of chr_quote ip] by (auto simp: is_digit_def code_of_def)
  then show ?thesis by (simp add: IP4_UnmarshalJSON_def IP4_MarshalJSON_def Trim_quoted)
qed

text \<open>The decoder meets the members of the encoded object in order.\<close>

lemma attrs_of_members:
  assumes "json_reads raw6 v6" "dec_IP6ptr raw6 v6 = Ok p"
    and "bt = [] \<and> tm = [] \<or> bt \<noteq> [] \<and> tm = [(''BackendType'', json_quote bt, JStr bt)]"
    and "d = None \<and> dm = [] \<or> (\<exists>raw v. d = Some raw \<and> json_reads raw v \<and> dm = [(''BackendData'', raw, v)])"
    and "e = None \<and> em = [] \<or> (\<exists>raw v. e = Some raw \<and> json_reads raw v \<and> em = [(''BackendV6Data'', raw, v)])"
    and ms: "ms = (''PublicIP'', IP4_MarshalJSON ip, JStr (IP4_String ip)) # (''PublicIPv6'', raw6, v6) # tm @ dm @ em"
  shows "LeaseAttrs_Unmarshal (json_object (map (\<lambda>(n, raw, v). (n, raw)) ms)) =
     Ok \<lparr>la_PublicIP = ip, la_PublicIPv6 = p, la_BackendType = bt, la_BackendData = d, la_BackendV6Data = e\<rparr>"
proof -
  have "json_parse (json_object (map (\<lambda>(n, raw, v). (n, raw)) ms)) = Some (JObj ms)"
    by (rule json_parse_reads, rule json_reads_object)
       (use assms json_reads_IP4 json_reads_quote in \<open>auto simp: ms\<close>)
  then show ?thesis
    using assms(2-5)
    by (auto simp: LeaseAttrs_Unmarshal_def json_Unmarshal_def ms field_of_def attrs_fields_def attrs_set_def)
qed

lemma attrs_round_trip:
  assumes "attrs_ok a"
  shows "\<exists>s. LeaseAttrs_Marshal a = Ok s \<and> LeaseAttrs_Unmarshal s = Ok a"
proof -
  obtain v6 where v6: "json_reads (IP6ptr_Marshal (la_PublicIPv6 a)) v6"
    "dec_IP6ptr (IP6ptr_Marshal (la_PublicIPv6 a)) v6 = Ok (la_PublicIPv6 a)"
    using assms IP6ptr_round_trip by (auto simp: attrs_ok_def)
  define tm where "tm = (if la_BackendType a = [] then []
      else [(''BackendType'', json_quote (la_BackendType a), JStr (la_BackendType a))])"
  have raw: "\<exists>dm. (d = None \<and> dm = [] \<or> (\<exists>raw v. d = Some raw \<and> json_reads raw v \<and> dm = [(name, raw, v)])) \<and>
      raw_member name d = Ok (map (\<lambda>(n, raw, v). (n, raw)) dm)" if "raw_ok d" for d name
    using raw_member_ok [OF that, of name] by (elim disjE exE conjE) auto
  obtain dm where dm: "la_BackendData a = None \<and> dm = [] \<or>
      (\<exists>raw v. la_BackendData a = Some raw \<and> json_reads raw v \<and> dm = [(''BackendData'', raw, v)])"
    "raw_member ''BackendData'' (la_BackendData a) = Ok (map (\<lambda>(n, raw, v). (n, raw)) dm)"
    using assms raw [of "la_BackendData a" "''BackendData''"] by (auto simp: attrs_ok_def)
  obtain em where em: "la_BackendV6Data a = None \<and> em = [] \<or>
      (\<exists>raw v. la_BackendV6Data a = Some raw \<and> json_reads raw v \<and> em = [(''BackendV6Data'', raw, v)])"
    "raw_member ''BackendV6Data'' (la_BackendV6Data a) = Ok (map (\<lambda>(n, raw, v). (n, raw)) em)"
    using assms raw [of "la_BackendV6Data a" "''BackendV6Data''"] by (auto simp: attrs_ok_def)
  note read = attrs_of_members [OF v6 _ dm(1) em(1) refl, of "la_BackendType a" tm "la_PublicIP a"]
  show ?thesis using read by (auto simp: LeaseAttrs_Marshal_def dm(2) em(2) tm_def)
qed

end
