(* ===== verification/Go_Regexp.thy ===== *)
theory Go_Regexp
  imports Go_Strings
begin

text \<open>
  Go's \<open>regexp\<close> for the expressions the program compiles: leftmost-first matching with
  numbered submatches. \<open>ms\<close> lists the ways an expression matches a prefix of the text, in the
  order in which a backtracking search tries them; the first one is the match.
\<close>

datatype rx =
    RSet "char list"
  | RNotSet "char list"
  | RSeq "rx list"
  | ROpt rx
  | RPlus rx
  | RStar rx
  | RAlt rx rx
  | RGroup nat rx
  | REnd

type_synonym caps = "(nat \<times> string) list"
type_synonym mstate = "string \<times> caps"

text \<open>Greedy repetition: every round consumes something, so the length of the text is enough.\<close>

fun rx_iter :: "nat \<Rightarrow> (mstate \<Rightarrow> mstate list) \<Rightarrow> mstate \<Rightarrow> mstate list" where
  "rx_iter 0 f st = []"
| "rx_iter (Suc k) f st =
     concat (map (\<lambda>st'. if length (fst st') < length (fst st) then rx_iter k f st' @ [st'] else [st']) (f st))"

fun ms :: "rx \<Rightarrow> mstate \<Rightarrow> mstate list" and ms_seq :: "rx list \<Rightarrow> mstate \<Rightarrow> mstate list" where
  "ms (RSet cs) (s, c) = (case s of [] \<Rightarrow> [] | x # r \<Rightarrow> if x \<in> set cs then [(r, c)] else [])"
| "ms (RNotSet cs) (s, c) = (case s of [] \<Rightarrow> [] | x # r \<Rightarrow> if x \<in> set cs then [] else [(r, c)])"
| "ms (RSeq rs) st = ms_seq rs st"
| "ms (ROpt r) st = ms r st @ [st]"
| "ms (RPlus r) st = rx_iter (Suc (length (fst st))) (ms r) st"
| "ms (RStar r) st = rx_iter (Suc (length (fst st))) (ms r) st @ [st]"
| "ms (RAlt r q) st = ms r st @ ms q st"
| "ms (RGroup i r) st =
     map (\<lambda>(s', c'). (s', (i, take (length (fst st) - length s') (fst st)) # c')) (ms r st)"
| "ms REnd (s, c) = (if s = [] then [(s, c)] else [])"
| "ms_seq [] st = [st]"
| "ms_seq (r # rs) st = concat (map (ms_seq rs) (ms r st))"

text \<open>The submatches of the leftmost match, if there is one.\<close>

fun rx_find :: "rx \<Rightarrow> string \<Rightarrow> caps option" where
  "rx_find r s =
     (case ms r (s, []) of
        (_, c) # _ \<Rightarrow> Some c
      | [] \<Rightarrow> (case s of [] \<Rightarrow> None | _ # t \<Rightarrow> rx_find r t))"

declare rx_find.simps [simp del]

definition submatch :: "nat \<Rightarrow> caps \<Rightarrow> string" where
  "submatch i c = (case map_of c i of None \<Rightarrow> [] | Some t \<Rightarrow> t)"

definition rx_digits :: "char list" where "rx_digits = ''0123456789''"

definition rx_newline :: "char list" where "rx_newline = [CHR 0x0A]"

text \<open>The dot matches every character but a newline.\<close>

abbreviation rx_any :: rx where "rx_any \<equiv> RNotSet rx_newline"
abbreviation rx_digit :: rx where "rx_digit \<equiv> RSet rx_digits"

lemma rx_iter_numeral [go_eval]: "rx_iter (numeral k) f st = rx_iter (Suc (pred_numeral k)) f st"
  by (simp only: numeral_eq_Suc)

lemmas [go_eval] = rx_find.simps submatch_def rx_digits_def rx_newline_def

section \<open>The match that is tried first\<close>

lemma ms_plus_set:
  assumes "ds \<noteq> []" "set ds \<subseteq> set cs" "rest = [] \<or> hd rest \<notin> set cs"
  shows "\<exists>others. ms (RPlus (RSet cs)) (ds @ rest, c) = (rest, c) # others"
proof -
  have stop: "ms (RSet cs) (rest, c) = []" using assms(3) by (cases rest) auto
  have "\<exists>others. rx_iter (Suc k) (ms (RSet cs)) (ds @ rest, c) = (rest, c) # others" if "length ds \<le> k" for k
    using assms(1,2) that
  proof (induction ds arbitrary: k)
    case (Cons d ds)
    then have d: "d \<in> set cs" by simp
    obtain k' where k: "k = Suc k'" using Cons.prems(3) by (cases k) auto
    show ?case
    proof (cases "ds = []")
      case True
      with d stop show ?thesis by (simp add: k)
    next
      case False
      with Cons.IH [of k'] Cons.prems obtain others
        where "rx_iter (Suc k') (ms (RSet cs)) (ds @ rest, c) = (rest, c) # others" by (auto simp: k)
      with d show ?thesis by (simp add: k del: rx_iter.simps) (simp add: k rx_iter.simps(2) [of "Suc k'"] del: rx_iter.simps)
    qed
  qed simp
  from this [of "length ds + length rest"] show ?thesis by simp
qed

lemma ms_seq_first:
  "ms r st = st1 # o1 \<Longrightarrow> ms_seq rs st1 = st2 # o2 \<Longrightarrow> \<exists>others. ms_seq (r # rs) st = st2 # others"
  by simp

lemma ms_group_first:
  "ms r (m @ s', c) = (s', c') # o1 \<Longrightarrow> \<exists>others. ms (RGroup i r) (m @ s', c) = (s', (i, m) # c') # others"
  by simp

lemma rx_find_first: "ms r (s, []) = (s', c) # others \<Longrightarrow> rx_find r s = Some c"
  by (simp add: rx_find.simps)

lemma rx_find_skip:
  "(\<And>q p. pre = q @ p \<Longrightarrow> p \<noteq> [] \<Longrightarrow> ms r (p @ s, []) = []) \<Longrightarrow> rx_find r (pre @ s) = rx_find r s"
proof (induction pre)
  case (Cons x pre)
  have "ms r ((x # pre) @ s, []) = []" using Cons.prems [of "[]" "x # pre"] by simp
  moreover have "rx_find r (pre @ s) = rx_find r s"
    by (rule Cons.IH) (use Cons.prems in \<open>metis append_Cons\<close>)
  ultimately show ?case by (simp add: rx_find.simps [of r "x # pre @ s"])
qed simp

section \<open>What a match consumes\<close>

text \<open>
  An upper bound for the number of characters outside a given set that a match can consume;
  repetitions must not consume any.
\<close>

fun rx_cost :: "(char \<Rightarrow> bool) \<Rightarrow> rx \<Rightarrow> nat" where
  "rx_cost F (RSet cs) = (if \<exists>x \<in> set cs. F x then 1 else 0)"
| "rx_cost F (RNotSet cs) = 1"
| "rx_cost F (RSeq rs) = sum_list (map (rx_cost F) rs)"
| "rx_cost F (ROpt r) = rx_cost F r"
| "rx_cost F (RPlus r) = rx_cost F r"
| "rx_cost F (RStar r) = rx_cost F r"
| "rx_cost F (RAlt r q) = max (rx_cost F r) (rx_cost F q)"
| "rx_cost F (RGroup i r) = rx_cost F r"
| "rx_cost F REnd = 0"

fun rx_bounded :: "(char \<Rightarrow> bool) \<Rightarrow> rx \<Rightarrow> bool" where
  "rx_bounded F (RSet cs) = True"
| "rx_bounded F (RNotSet cs) = True"
| "rx_bounded F (RSeq rs) = (\<forall>r \<in> set rs. rx_bounded F r)"
| "rx_bounded F (ROpt r) = rx_bounded F r"
| "rx_bounded F (RPlus r) = (rx_bounded F r \<and> rx_cost F r = 0)"
| "rx_bounded F (RStar r) = (rx_bounded F r \<and> rx_cost F r = 0)"
| "rx_bounded F (RAlt r q) = (rx_bounded F r \<and> rx_bounded F q)"
| "rx_bounded F (RGroup i r) = rx_bounded F r"
| "rx_bounded F REnd = True"

definition consumes :: "(char \<Rightarrow> bool) \<Rightarrow> nat \<Rightarrow> string \<Rightarrow> string \<Rightarrow> bool" where
  "consumes F n s s' \<longleftrightarrow> (\<exists>m. s = m @ s' \<and> length (filter F m) \<le> n)"

lemma consumes_refl [simp]: "consumes F n s s"
  by (simp add: consumes_def)

lemma consumes_trans: "consumes F n s t \<Longrightarrow> consumes F k t u \<Longrightarrow> consumes F (n + k) s u"
  unfolding consumes_def by (elim exE conjE) (intro exI [of _ "_ @ _"], auto)

lemma consumes_mono: "consumes F n s t \<Longrightarrow> n \<le> k \<Longrightarrow> consumes F k s t"
  by (auto simp: consumes_def)

lemma rx_iter_consumes:
  assumes f: "\<And>st st'. st' \<in> set (f st) \<Longrightarrow> consumes F 0 (fst st) (fst st')"
  shows "st' \<in> set (rx_iter k f st) \<Longrightarrow> consumes F 0 (fst st) (fst st')"
proof (induction k arbitrary: st)
  case (Suc k)
  then obtain st1 where st1: "st1 \<in> set (f st)" "st' = st1 \<or> st' \<in> set (rx_iter k f st1)"
    by (auto split: if_splits; metis prod.collapse)
  then show ?case using f [OF st1(1)] Suc.IH [of st1] consumes_trans [of F 0 "fst st" "fst st1" 0 "fst st'"] by auto
qed simp

lemma ms_seq_consumes:
  assumes "\<And>r st st'. r \<in> set rs \<Longrightarrow> st' \<in> set (ms r st) \<Longrightarrow> consumes F (rx_cost F r) (fst st) (fst st')"
  shows "st' \<in> set (ms_seq rs st) \<Longrightarrow> consumes F (sum_list (map (rx_cost F) rs)) (fst st) (fst st')"
  using assms
proof (induction rs arbitrary: st)
  case (Cons r rs)
  then obtain st1 where "st1 \<in> set (ms r st)" "st' \<in> set (ms_seq rs st1)" by auto
  moreover from this(1) have "consumes F (rx_cost F r) (fst st) (fst st1)" by (intro Cons.prems(2)) simp_all
  moreover have "consumes F (sum_list (map (rx_cost F) rs)) (fst st1) (fst st')"
    by (rule Cons.IH [OF calculation(2)]) (use Cons.prems(2) in simp)
  ultimately show ?case using consumes_trans by fastforce
qed simp

lemma ms_consumes:
  "rx_bounded F r \<Longrightarrow> st' \<in> set (ms r st) \<Longrightarrow> consumes F (rx_cost F r) (fst st) (fst st')"
proof (induction r arbitrary: st st')
  case (RSet cs)
  then show ?case by (cases st) (auto simp: consumes_def split: list.splits if_splits)
next
  case (RNotSet cs)
  then show ?case by (cases st) (auto simp: consumes_def split: list.splits if_splits)
next
  case (RSeq rs)
  then show ?case using ms_seq_consumes [of rs F st' st] by simp
next
  case (RPlus r)
  then have "consumes F 0 (fst x) (fst y)" if "y \<in> set (ms r x)" for x y
    using that by fastforce
  with RPlus show ?case using rx_iter_consumes [of "ms r" F st' "Suc (length (fst st))" st] by (simp del: rx_iter.simps)
next
  case (RStar r)
  then have "consumes F 0 (fst x) (fst y)" if "y \<in> set (ms r x)" for x y
    using that by fastforce
  with RStar show ?case
    using rx_iter_consumes [of "ms r" F st' "Suc (length (fst st))" st] by (auto simp del: rx_iter.simps)
next
  case (RAlt r q)
  then consider "st' \<in> set (ms r st)" | "st' \<in> set (ms q st)" by auto
  then show ?case
  proof cases
    case 1
    then show ?thesis using RAlt.prems(1) by (intro consumes_mono [OF RAlt.IH(1)]) simp_all
  next
    case 2
    then show ?thesis using RAlt.prems(1) by (intro consumes_mono [OF RAlt.IH(2)]) simp_all
  qed
next
  case (RGroup i r)
  then obtain s1 c1 where "(s1, c1) \<in> set (ms r st)" "fst st' = s1" by auto
  with RGroup.IH [of "(s1, c1)" st] RGroup.prems(1) show ?case by simp
next
  case REnd
  then show ?case by (cases st) (auto split: if_splits)
qed auto

lemma ms_seq_end: "(s', c') \<in> set (ms_seq (rs @ [REnd]) st) \<Longrightarrow> s' = []"
  by (induction rs arbitrary: st) (auto split: if_splits)

text \<open>An expression anchored at the end does not match a text with too many foreign characters.\<close>

lemma ms_too_foreign:
  assumes "rx_bounded F (RSeq (rs @ [REnd]))" "rx_cost F (RSeq (rs @ [REnd])) < length (filter F s)"
  shows "ms (RSeq (rs @ [REnd])) (s, c) = []"
proof (rule ccontr)
  assume "ms (RSeq (rs @ [REnd])) (s, c) \<noteq> []"
  then obtain s' c' where st: "(s', c') \<in> set (ms (RSeq (rs @ [REnd])) (s, c))"
    by (metis list.set_intros(1) neq_Nil_conv surj_pair)
  then have "s' = []" using ms_seq_end [of s' c' rs "(s, c)"] by simp
  with ms_consumes [OF assms(1) st] assms(2) show False by (auto simp: consumes_def)
qed

lemma ms_digits_start:
  "rs \<noteq> [] \<Longrightarrow> hd rs = RGroup i (RSeq (RPlus (RSet cs) # qs)) \<Longrightarrow> s = [] \<or> hd s \<notin> set cs \<Longrightarrow>
   ms (RSeq rs) (s, c) = []"
  by (cases rs; cases s) auto

end
