(* ===== verification/Subnet_Key.thy ===== *)
theory Subnet_Key
  imports Subnet_Config Lease_Watch Go_Regexp
begin

text \<open>
  \<open>pkg/subnet/subnet.go\<close>: the names under which leases are stored, the subnet file and the
  loops that turn watch results into events.
\<close>

section \<open>Names of leases\<close>

definition rx_hex :: "char list" where "rx_hex = ''abcdef0123456789:''"

definition subnetRegex :: rx where
  "subnetRegex = RSeq
     [RGroup 1 (RSeq [RPlus rx_digit, RSet ''.'', RPlus rx_digit, rx_any, RPlus rx_digit, rx_any, RPlus rx_digit]),
      RSet ''-'', RGroup 2 (RPlus rx_digit),
      ROpt (RSeq [RSet ''&'', RGroup 3 (RPlus (RSet rx_hex)), RSet ''-'', RGroup 4 (RPlus rx_digit)]),
      REnd]"

definition ParseSubnetKey :: "string \<Rightarrow> IP4Net option \<times> IP6Net option" where
  "ParseSubnetKey s =
     (case rx_find subnetRegex s of
        None \<Rightarrow> (None, None)
      | Some parts \<Rightarrow>
          let snIp = To4 (ParseIP (submatch 1 parts)) in
          (case ParseUint 5 (submatch 2 parts) of
             None \<Rightarrow> (None, None)
           | Some prefixLen \<Rightarrow>
               (case FromIP snIp of
                  Ok a \<Rightarrow>
                    let sn4 = \<lparr>ip4_IP = a, ip4_PrefixLen = of_nat prefixLen\<rparr> in
                    if submatch 3 parts = [] then (Some sn4, None)
                    else
                      (case ParseUint 7 (submatch 4 parts) of
                         None \<Rightarrow> (None, None)
                       | Some prefixLen6 \<Rightarrow>
                           (case FromIP6 (To16 (ParseIP (submatch 3 parts))) of
                              Ok b \<Rightarrow> (Some sn4, Some \<lparr>ip6_IP = Some b, ip6_PrefixLen = of_nat prefixLen6\<rparr>)
                            | _ \<Rightarrow> (None, None)))
                | _ \<Rightarrow> (None, None))))"

definition MakeSubnetKey :: "IP4Net \<Rightarrow> IP6Net \<Rightarrow> string go" where
  "MakeSubnetKey sn sn6 =
     (if IP6Net_Empty sn6 then Ok (IP4Net_StringSep sn ''.'' ''-'')
      else go_bind (IP6Net_StringSep sn6 '':'' ''-'') (\<lambda>s6. Ok (IP4Net_StringSep sn ''.'' ''-'' @ ''&'' @ s6)))"

section \<open>The subnet file\<close>

text \<open>The bytes \<open>WriteSubnetFile\<close> writes.\<close>

definition subnet_file_text ::
  "Config \<Rightarrow> bool \<Rightarrow> IP4Net \<Rightarrow> IP6Net \<Rightarrow> int \<Rightarrow> string go" where
  "subnet_file_text config ipMasq sn ipv6sn mtu =
     (let part4 = (if cfg_EnableIPv4 config then
                     ''FLANNEL_NETWORK='' @ IP4Net_String (cfg_Network config) @ [chr_newline] @
                     ''FLANNEL_SUBNET='' @ IP4Net_String (IP4Net_IncrementIP sn) @ [chr_newline]
                   else []);
          rest = ''FLANNEL_MTU='' @ int_dec mtu @ [chr_newline] @
                 ''FLANNEL_IPMASQ='' @ bool_str ipMasq @ [chr_newline] in
      if cfg_EnableIPv6 config then
        go_bind (IP6Net_IncrementIP ipv6sn) (\<lambda>sn6.
          Ok (part4 @ ''FLANNEL_IPV6_NETWORK='' @ fmt_s (IP6Net_String (cfg_IPv6Network config)) @ [chr_newline] @
              ''FLANNEL_IPV6_SUBNET='' @ fmt_s (IP6Net_String sn6) @ [chr_newline] @ rest))
      else Ok (part4 @ rest))"

section \<open>Watch loops\<close>

text \<open>
  One watch result of \<open>WatchLeases\<close>: events update the watcher, anything else is taken as a
  snapshot. The batches sent on the receiver channel are collected; empty ones are not sent.
\<close>

definition watch_result :: "LeaseWatcher \<Rightarrow> LeaseWatchResult \<Rightarrow> (LeaseWatcher \<times> Event list) go" where
  "watch_result lw wr =
     (if wr_Events wr \<noteq> [] then lw_Update lw (wr_Events wr) else lw_Reset lw (wr_Snapshot wr))"

fun watch_results :: "LeaseWatcher \<Rightarrow> LeaseWatchResult list \<Rightarrow> (LeaseWatcher \<times> Event list list) go" where
  "watch_results lw [] = Ok (lw, [])"
| "watch_results lw (wr # wrs) =
     go_bind (watch_result lw wr) (\<lambda>(lw1, batch).
       go_bind (watch_results lw1 wrs) (\<lambda>(lw2, sent).
         Ok (lw2, (if batch \<noteq> [] then batch # sent else sent))))"

definition WatchLeases :: "Lease option \<Rightarrow> LeaseWatchResult list list \<Rightarrow> Event list list go" where
  "WatchLeases ownLease received =
     go_bind (watch_results \<lparr>lw_OwnLease = ownLease, lw_Leases = []\<rparr> (concat received)) (\<lambda>(_, sent). Ok sent)"

definition WatchLease :: "LeaseWatchResult list list \<Rightarrow> Event list" where
  "WatchLease received =
     concat (map (\<lambda>wr.
        case wr_Snapshot wr of
          l # _ \<Rightarrow> [\<lparr>ev_Type = EventAdded, ev_Lease = l\<rparr>]
        | [] \<Rightarrow> (case wr_Events wr of e # _ \<Rightarrow> [e] | [] \<Rightarrow> [])) (concat received))"

lemmas [go_eval] =
  rx_hex_def subnetRegex_def ParseSubnetKey_def MakeSubnetKey_def subnet_file_text_def
  watch_result_def WatchLeases_def WatchLease_def

section \<open>The name of a lease determines the lease\<close>

lemma digit_char_digit_val: "is_digit c \<Longrightarrow> digit_char (digit_val c) = c"
proof -
  assume c: "is_digit c"
  then have "code_of (digit_char (digit_val c)) = 48 + digit_val c" by (simp add: digit_val_less)
  also have "\<dots> = code_of c" using c by (simp add: is_digit_def digit_val_def)
  finally show ?thesis by (simp add: code_of_def)
qed

lemma is_digit_rx: "is_digit c \<longleftrightarrow> c \<in> set rx_digits"
proof
  assume c: "is_digit c"
  have "digit_char d \<in> set rx_digits" if "d < 10" for d
    using that by (auto simp: rx_digits_def digit_char_def dest!: less_10_cases)
  from this [OF digit_val_less [OF c]] show "c \<in> set rx_digits" by (simp add: digit_char_digit_val [OF c])
next
  assume "c \<in> set rx_digits"
  then show "is_digit c" by (auto simp: rx_digits_def is_digit_def code_of_def)
qed

lemma nat_dec_rx: "set (nat_dec n) \<subseteq> set rx_digits"
  using nat_dec_digits by (auto simp flip: is_digit_rx)

lemma ms_dec:
  "rest = [] \<or> \<not> is_digit (hd rest) \<Longrightarrow>
   \<exists>others. ms (RPlus rx_digit) (nat_dec n @ rest, c) = (rest, c) # others"
  by (rule ms_plus_set) (simp_all add: nat_dec_rx is_digit_rx)

lemma ms_seq_step:
  "\<exists>o1. ms r (s, c) = (s1, c1) # o1 \<Longrightarrow> \<exists>o2. ms_seq rs (s1, c1) = st2 # o2 \<Longrightarrow>
   \<exists>o3. ms_seq (r # rs) (s, c) = st2 # o3"
  by auto

lemma ms_group_step:
  "\<exists>o1. ms r (m @ s', c) = (s', c') # o1 \<Longrightarrow> \<exists>o2. ms (RGroup i r) (m @ s', c) = (s', (i, m) # c') # o2"
  by auto

lemma ms_set_step: "x \<in> set cs \<Longrightarrow> \<exists>o1. ms (RSet cs) (x # s, c) = (s, c) # o1"
  and ms_notset_step: "x \<notin> set cs \<Longrightarrow> \<exists>o1. ms (RNotSet cs) (x # s, c) = (s, c) # o1"
  by simp_all

lemma ms_dotted:
  assumes "rest = [] \<or> \<not> is_digit (hd rest)"
  shows "\<exists>o1. ms_seq [RPlus rx_digit, RSet ''.'', RPlus rx_digit, rx_any, RPlus rx_digit, rx_any, RPlus rx_digit]
      (dotted ''.'' w x y z @ rest, c) = (rest, c) # o1"
proof -
  have any: "chr_dot \<notin> set rx_newline" by (simp add: rx_newline_def)
  show ?thesis
    unfolding dotted_def append_assoc
    by (rule ms_seq_step [OF ms_dec], simp, simp only: append_Cons append_Nil,
        rule ms_seq_step [OF ms_set_step], simp,
        rule ms_seq_step [OF ms_dec], simp, rule ms_seq_step [OF ms_notset_step [OF any]],
        rule ms_seq_step [OF ms_dec], simp, rule ms_seq_step [OF ms_notset_step [OF any]],
        rule ms_seq_step [OF ms_dec [OF assms]], simp)
qed
lemma ms_key4:
  "\<exists>o1. ms subnetRegex (dotted ''.'' w x y z @ ''-'' @ nat_dec p, []) =
     ([], [(2, nat_dec p), (1, dotted ''.'' w x y z)]) # o1"
proof -
  have last: "\<exists>o1. ms (RPlus rx_digit) (nat_dec p @ [], c) = ([], c) # o1" for c by (rule ms_dec) simp
  show ?thesis
    unfolding subnetRegex_def ms.simps
    by (rule ms_seq_step [OF ms_group_step], simp only: ms.simps, rule ms_dotted, simp,
        simp only: append_Cons append_Nil, rule ms_seq_step [OF ms_set_step], simp,
        rule ms_seq_step [OF ms_group_step [OF last, unfolded append_Nil2]], simp)
qed

lemma ms_key6:
  assumes "h \<noteq> []" "set h \<subseteq> set rx_hex"
  shows "\<exists>o1. ms subnetRegex (dotted ''.'' w x y z @ ''-'' @ nat_dec p @ ''&'' @ h @ ''-'' @ nat_dec q, []) =
     ([], [(4, nat_dec q), (3, h), (2, nat_dec p), (1, dotted ''.'' w x y z)]) # o1"
proof -
  have last: "\<exists>o1. ms (RPlus rx_digit) (nat_dec q @ [], c) = ([], c) # o1" for c by (rule ms_dec) simp
  have hex: "\<exists>o1. ms (RPlus (RSet rx_hex)) (h @ ''-'' @ nat_dec q, c) = (''-'' @ nat_dec q, c) # o1" for c
    by (rule ms_plus_set) (use assms in \<open>simp_all add: rx_hex_def\<close>)
  have opt: "\<exists>o1. ms_seq [RSet ''&'', RGroup 3 (RPlus (RSet rx_hex)), RSet ''-'', RGroup 4 (RPlus rx_digit)]
      (''&'' @ h @ ''-'' @ nat_dec q, c) = ([], (4, nat_dec q) # (3, h) # c) # o1" for c
    by (simp only: append_Cons append_Nil, rule ms_seq_step [OF ms_set_step], simp,
        rule ms_seq_step [OF ms_group_step [OF hex, unfolded append_Cons append_Nil]],
        rule ms_seq_step [OF ms_set_step], simp,
        rule ms_seq_step [OF ms_group_step [OF last, unfolded append_Nil2]], simp)
  have opt': "\<exists>o1. ms (ROpt (RSeq [RSet ''&'', RGroup 3 (RPlus (RSet rx_hex)), RSet ''-'', RGroup 4 (RPlus rx_digit)]))
      (chr_amp # h @ chr_dash # nat_dec q, c) = ([], (4, nat_dec q) # (3, h) # c) # o1" for c
    using opt [of c] unfolding ms.simps append_Cons append_Nil by auto
  show ?thesis
    unfolding subnetRegex_def ms.simps(3)
    by (rule ms_seq_step [OF ms_group_step], simp only: ms.simps, rule ms_dotted, simp,
        simp only: append_Cons append_Nil, rule ms_seq_step [OF ms_set_step], simp,
        rule ms_seq_step [OF ms_group_step [OF ms_dec]], simp,
        rule ms_seq_step [OF opt'], simp)
qed

text \<open>
  No match starts before the last path element: the word \<open>subnets\<close> has more characters
  outside the alphabet of names than a match can contain.
\<close>

definition key_foreign :: "char \<Rightarrow> bool" where
  "key_foreign c \<longleftrightarrow> c \<notin> set ''abcdef0123456789:.-&''"

lemma rx_find_key: "rx_find subnetRegex (p @ ''subnets/'' @ k) = rx_find subnetRegex k"
proof -
  let ?rs = "[RGroup 1 (RSeq [RPlus rx_digit, RSet ''.'', RPlus rx_digit, rx_any, RPlus rx_digit, rx_any, RPlus rx_digit]),
      RSet ''-'', RGroup 2 (RPlus rx_digit),
      ROpt (RSeq [RSet ''&'', RGroup 3 (RPlus (RSet rx_hex)), RSet ''-'', RGroup 4 (RPlus rx_digit)])]"
  have rx: "subnetRegex = RSeq (?rs @ [REnd])" by (simp add: subnetRegex_def)
  have "ms subnetRegex (t @ k, []) = []" if t: "p @ ''subnets/'' = q @ t" "t \<noteq> []" for q t
  proof -
    consider r where "t = r @ ''subnets/''" | r where "''subnets/'' = r @ t" "r \<noteq> []"
      using t(1) by (auto simp: append_eq_append_conv2 simp del: append_Cons) blast
    then show ?thesis
    proof cases
      case 1
      have f: "length (filter key_foreign (t @ k)) > 2" by (simp add: 1 key_foreign_def)
      have c: "rx_cost key_foreign (RSeq (?rs @ [REnd])) = 2"
        by (simp add: key_foreign_def rx_digits_def rx_hex_def)
      have b: "rx_bounded key_foreign (RSeq (?rs @ [REnd]))"
        by (simp add: key_foreign_def rx_digits_def rx_hex_def)
      show ?thesis unfolding rx by (rule ms_too_foreign [OF b]) (use c f in linarith)
    next
      case 2
      then have "hd (t @ k) \<notin> set rx_digits"
        using t(2) by (auto simp: rx_digits_def Cons_eq_append_conv)
      then show ?thesis unfolding rx by (intro ms_digits_start [where cs = rx_digits]) (simp, simp, blast)
    qed
  qed
  then have "rx_find subnetRegex ((p @ ''subnets/'') @ k) = rx_find subnetRegex k" by (rule rx_find_skip)
  then show ?thesis by simp
qed

lemma SplitChar_append_sep: "SplitChar (a @ sep # b) sep = SplitChar a sep @ SplitChar b sep"
  by (induction a) (auto split: list.splits)

lemma SplitChar_no_sep: "w \<in> set (SplitChar a sep) \<Longrightarrow> sep \<notin> set w"
  by (induction a arbitrary: w) (auto split: list.splits if_splits)

lemma JoinStr_snoc2:
  "JoinStr sep (xs @ [x, y]) = (if xs = [] then [] else JoinStr sep xs @ sep) @ x @ sep @ y"
  by (cases xs) (simp_all add: JoinStr_def)

text \<open>The last two elements of a joined path are kept as they are.\<close>

definition plain_segment :: "string \<Rightarrow> bool" where
  "plain_segment s \<longleftrightarrow> s \<noteq> [] \<and> s \<noteq> ''.'' \<and> s \<noteq> dot_dot \<and> chr_slash \<notin> set s"

lemma path_Clean_suffix:
  assumes "plain_segment x" "plain_segment y"
  shows "\<exists>q. path_Clean (p @ chr_slash # x @ chr_slash # y) = q @ x @ chr_slash # y"
    and "path_Clean (x @ chr_slash # y) = x @ chr_slash # y"
proof -
  have xy: "SplitChar (x @ chr_slash # y) chr_slash = [x, y]"
    using assms by (simp add: SplitChar_append_sep SplitChar_single plain_segment_def)
  have push: "clean_step r z st = z # st" if "plain_segment z" for r z st
    using that by (simp add: clean_step_def plain_segment_def)
  have body: "\<exists>q. JoinStr [chr_slash] (rev (y # x # st)) = q @ x @ chr_slash # y" for st
  proof
    show "JoinStr [chr_slash] (rev (y # x # st)) =
        (if rev st = [] then [] else JoinStr [chr_slash] (rev st) @ [chr_slash]) @ x @ chr_slash # y"
      using JoinStr_snoc2 [of "[chr_slash]" "rev st" x y] by simp
  qed
  let ?s = "p @ chr_slash # x @ chr_slash # y"
  define r where "r = (case ?s of [] \<Rightarrow> False | c # _ \<Rightarrow> c = chr_slash)"
  define b where "b = JoinStr [chr_slash] (rev (fold (clean_step r) (SplitChar ?s chr_slash) []))"
  have pc: "path_Clean ?s = (if r then chr_slash # b else if b = [] then ''.'' else b)"
    unfolding path_Clean_def Let_def r_def b_def ..
  have "SplitChar ?s chr_slash = SplitChar p chr_slash @ [x, y]"
    unfolding SplitChar_append_sep [of p] xy ..
  then have "b = JoinStr [chr_slash] (rev (y # x # fold (clean_step r) (SplitChar p chr_slash) []))"
    unfolding b_def by (simp add: push assms)
  with body [of "fold (clean_step r) (SplitChar p chr_slash) []"] obtain q where "b = q @ x @ chr_slash # y" by blast
  with pc have "path_Clean ?s = (if r then chr_slash # q else q) @ x @ chr_slash # y" by simp
  then show "\<exists>q. path_Clean ?s = q @ x @ chr_slash # y" ..
  obtain c x' where "x = c # x'" "c \<noteq> chr_slash"
    using assms(1) by (cases x) (auto simp: plain_segment_def)
  with xy push assms show "path_Clean (x @ chr_slash # y) = x @ chr_slash # y"
    by (simp add: path_Clean_def Let_def JoinStr_def)
qed

lemma path_Join_suffix:
  assumes "plain_segment x" "plain_segment y"
  shows "\<exists>q. path_Join [p, x, y] = q @ x @ chr_slash # y"
proof (cases "p = []")
  case True
  with assms show ?thesis
    using path_Clean_suffix(2) [OF assms] by (auto simp: path_Join_def JoinStr_def plain_segment_def)
next
  case False
  with assms show ?thesis
    using path_Clean_suffix(1) [OF assms, of p] by (simp add: path_Join_def JoinStr_def plain_segment_def)
qed

section \<open>Properties\<close>

lemma IP4_StringSep_dotted: "Octets a = (w, x, y, z) \<Longrightarrow> IP4_StringSep a ''.'' = dotted ''.'' w x y z"
  by (simp add: IP4_StringSep_def)

lemma lower_hex_rx: "c \<in> set lower_hex \<or> c = chr_colon \<Longrightarrow> c \<in> set rx_hex"
  by (auto simp: lower_hex_def rx_hex_def)

lemma ParseUint_nat_dec: "n < 2 ^ w \<Longrightarrow> ParseUint w (nat_dec n) = Some n"
  using nat_dec_digits by (auto simp: ParseUint_def)

lemma FromIP_To4_ParseIP: "Octets a = (w, x, y, z) \<Longrightarrow> FromIP (To4 (ParseIP (dotted ''.'' w x y z))) = Ok a"
  by (simp add: ParseIP_dotted FromIP_four octets_word_Octets)

lemma key_segment:
  "plain_segment (dotted ''.'' w x y z @ chr_dash # s)" if "chr_slash \<notin> set s"
proof -
  have "chr_slash \<notin> set (dotted ''.'' w x y z)" using dotted_chars [of chr_slash] by auto
  moreover have len: "length (dotted ''.'' w x y z @ chr_dash # s) > 2" by (simp add: dotted_def)
  have "t \<noteq> [] \<and> t \<noteq> ''.'' \<and> t \<noteq> ''..''" if "length t > 2" for t :: string using that by auto
  from this [OF len] calculation that show ?thesis by (simp add: plain_segment_def dot_dot_def)
qed

definition sn6_ok :: "IP6Net \<Rightarrow> bool" where
  "sn6_ok n \<longleftrightarrow> n = empty_IP6Net \<or>
     (\<not> IP6Net_Empty n \<and> ip6_PrefixLen n < 128 \<and> (case ip6_IP n of None \<Rightarrow> False | Some v \<Rightarrow> ip6_plain v))"

lemma ParseSubnetKey_Make:
  assumes "ip4_PrefixLen sn < 32" "sn6_ok sn6"
  shows "\<exists>k. MakeSubnetKey sn sn6 = Ok k \<and> plain_segment k \<and>
     (\<forall>p. ParseSubnetKey (p @ ''subnets/'' @ k) = (Some sn, if IP6Net_Empty sn6 then None else Some sn6))"
proof -
  obtain w x y z where o: "Octets (ip4_IP sn) = (w, x, y, z)" by (cases "Octets (ip4_IP sn)") auto
  let ?d = "dotted ''.'' w x y z" and ?p = "nat_dec (unat (ip4_PrefixLen sn))"
  have k4: "IP4Net_StringSep sn ''.'' ''-'' = ?d @ ''-'' @ ?p"
    by (simp add: IP4Net_StringSep_def IP4_StringSep_dotted [OF o])
  have p5: "ParseUint 5 ?p = Some (unat (ip4_PrefixLen sn))"
    by (rule ParseUint_nat_dec) (use assms(1) in \<open>simp add: word_less_nat_alt\<close>)
  have nosl: "chr_slash \<notin> set (nat_dec n)" for n using nat_dec_digits [of chr_slash n] by auto
  note ip = FromIP_To4_ParseIP [OF o]
  show ?thesis
  proof (cases "IP6Net_Empty sn6")
    case True
    have "rx_find subnetRegex (q @ ''subnets/'' @ ?d @ ''-'' @ ?p) = Some [(2, ?p), (1, ?d)]" for q
      unfolding rx_find_key using ms_key4 rx_find_first by blast
    with True k4 p5 ip nosl show ?thesis
      by (simp add: MakeSubnetKey_def ParseSubnetKey_def submatch_def key_segment Let_def)
  next
    case False
    then obtain v where v: "ip6_IP sn6 = Some v" "ip6_plain v" "ip6_PrefixLen sn6 < 128"
      using assms(2) by (auto simp: sn6_ok_def IP6Net_Empty_def split: option.splits)
    let ?h = "string6 (ip_groups (bytes_be 16 (nat v)))" and ?q = "nat_dec (unat (ip6_PrefixLen sn6))"
    have h: "IP6_String v = Ok ?h" by (rule IP6_String_plain [OF v(2)])
    obtain s where "IP6_String v = Ok s" "ParseIP s = bytes_be 16 (nat v)" "ParseIP6 s = Ok v" "s \<noteq> []"
      using ParseIP6_String [OF v(2)] by blast
    with h have ph: "ParseIP ?h = bytes_be 16 (nat v)" "ParseIP6 ?h = Ok v" "?h \<noteq> []" by simp_all
    have b6: "FromIP6 (To16 (ParseIP ?h)) = Ok v"
      using ph(1,2) by (auto simp: ParseIP6_def To16_def split: if_splits)
    have hex: "set ?h \<subseteq> set rx_hex" using string6_lower lower_hex_rx by blast
    have p7: "ParseUint 7 ?q = Some (unat (ip6_PrefixLen sn6))"
      by (rule ParseUint_nat_dec) (use v(3) in \<open>simp add: word_less_nat_alt\<close>)
    have "rx_find subnetRegex (q @ ''subnets/'' @ ?d @ ''-'' @ ?p @ ''&'' @ ?h @ ''-'' @ ?q)
        = Some [(4, ?q), (3, ?h), (2, ?p), (1, ?d)]" for q
      unfolding rx_find_key using ms_key6 [OF ph(3) hex] rx_find_first by blast
    moreover have "chr_slash \<notin> set ?h" using hex by (auto simp: rx_hex_def)
    moreover have "IP6Net_StringSep sn6 '':'' ''-'' = Ok (?h @ ''-'' @ ?q)"
      by (simp add: IP6Net_StringSep_def v(1) h)
    moreover have "sn6 = \<lparr>ip6_IP = Some v, ip6_PrefixLen = ip6_PrefixLen sn6\<rparr>" using v(1) by (cases sn6) simp
    ultimately show ?thesis
      using False k4 p5 p7 ip b6 nosl ph(3)
      by (simp add: MakeSubnetKey_def ParseSubnetKey_def submatch_def key_segment Let_def)
  qed
qed

lemma Parse_Join_key:
  assumes "ip4_PrefixLen sn < 32" "sn6_ok sn6"
  shows "\<exists>k. MakeSubnetKey sn sn6 = Ok k \<and>
     ParseSubnetKey (path_Join [prefix, ''subnets'', k]) = (Some sn, if IP6Net_Empty sn6 then None else Some sn6)"
proof -
  obtain k where k: "MakeSubnetKey sn sn6 = Ok k" "plain_segment k"
    "\<And>p. ParseSubnetKey (p @ ''subnets/'' @ k) = (Some sn, if IP6Net_Empty sn6 then None else Some sn6)"
    using ParseSubnetKey_Make [OF assms] by blast
  have "plain_segment ''subnets''" by (simp add: plain_segment_def dot_dot_def)
  from path_Join_suffix [OF this k(2), of prefix] obtain q
    where "path_Join [prefix, ''subnets'', k] = q @ ''subnets/'' @ k" by auto
  with k show ?thesis by simp
qed

text \<open>
  C5. The name under which a lease is stored identifies its subnets: whatever the etcd
  prefix is, parsing the key that is built for a lease gives back its IPv4 subnet and, in a
  dual-stack network, its IPv6 subnet.
\<close>

theorem subnet_key_round_trip:
  assumes "ip4_PrefixLen sn < 32" "sn6_ok sn6"
  shows "\<exists>k. MakeSubnetKey sn sn6 = Ok k \<and>
     ParseSubnetKey (path_Join [prefix, ''subnets'', k]) = (Some sn, if IP6Net_Empty sn6 then None else Some sn6)"
  by (rule Parse_Join_key [OF assms])

theorem subnet_key_round_trip_witness:
  "\<exists>k. MakeSubnetKey \<lparr>ip4_IP = 0x0a052200, ip4_PrefixLen = 24\<rparr> \<lparr>ip6_IP = Some 0xfc000000000000000000000000000000, ip6_PrefixLen = 64\<rparr> = Ok k \<and>
     ParseSubnetKey (path_Join [''/coreos.com/network'', ''subnets'', k]) =
     (Some \<lparr>ip4_IP = 0x0a052200, ip4_PrefixLen = 24\<rparr>, Some \<lparr>ip6_IP = Some 0xfc000000000000000000000000000000, ip6_PrefixLen = 64\<rparr>)"
proof -
  have "sn6_ok \<lparr>ip6_IP = Some 0xfc000000000000000000000000000000, ip6_PrefixLen = 64\<rparr>"
    using ip6_plain_high [of "0xfc000000000000000000000000000000"] by (simp add: sn6_ok_def IP6Net_Empty_def)
  from subnet_key_round_trip [OF _ this, of "\<lparr>ip4_IP = 0x0a052200, ip4_PrefixLen = 24\<rparr>" "''/coreos.com/network''"]
  show ?thesis by (simp add: IP6Net_Empty_def)
qed

end
