(* ===== verification/Etcd_Registry.thy ===== *)
theory Etcd_Registry
  imports Registry_Contract Lease_Json Subnet_Key
begin

text \<open>
  \<open>pkg/subnet/etcd/registry.go\<close>: leases as keys of an etcd store. The etcd client is a
  parameter: a record of its calls over an arbitrary world, which holds the store, the
  granted etcd leases and the clock. The watch loops are step functions that take the next
  thing the loop waits for; what they send on the channel is collected.
\<close>

section \<open>Errors, durations and the client\<close>

definition errTryAgain :: goerror where "errTryAgain = ErrorString ''try again''"

definition errConfigNotFound :: goerror where
  "errConfigNotFound = ErrorString
     ''flannel config not found in etcd store. Did you create your config using etcdv3 API?''"

definition errSubnetAlreadyexists :: goerror where
  "errSubnetAlreadyexists = ErrorString ''subnet already exists''"

abbreviation ErrGRPCKeyNotFound :: goerror where "ErrGRPCKeyNotFound \<equiv> Sentinel ''ErrGRPCKeyNotFound''"
abbreviation ErrDuplicateKey :: goerror where "ErrDuplicateKey \<equiv> Sentinel ''ErrDuplicateKey''"
abbreviation ErrGRPCCompacted :: goerror where "ErrGRPCCompacted \<equiv> Sentinel ''ErrGRPCCompacted''"
abbreviation ErrCompacted :: goerror where "ErrCompacted \<equiv> Sentinel ''ErrCompacted''"
abbreviation ctx_Err :: goerror where "ctx_Err \<equiv> Sentinel ''context.Canceled''"

text \<open>64-bit signed arithmetic, and \<open>time.Duration\<close> values in nanoseconds.\<close>

definition int64 :: "int \<Rightarrow> int" where
  "int64 x = (x + 2 ^ 63) mod 2 ^ 64 - 2 ^ 63"

abbreviation Second :: int where "Second \<equiv> 1000000000"

definition seconds :: "int \<Rightarrow> int" where
  "seconds n = int64 (n * Second)"

definition dur_Seconds :: "int \<Rightarrow> int" where
  "dur_Seconds d = (if 0 \<le> d then d div Second else - ((- d) div Second))"

record KeyValue =
  kv_Key :: string
  kv_Value :: string
  kv_Lease :: int
  kv_ModRevision :: int

text \<open>
  The calls of the client: reading a key or a prefix gives the pairs and the revision of the
  store; a transaction takes a comparison (key, operator, version) and a put (key, value,
  lease) and says whether the comparison held; granting a lease gives its ID and TTL.
\<close>

record 'w etcd =
  etcd_Get :: "string \<Rightarrow> bool \<Rightarrow> ('w, KeyValue list \<times> int) io"
  etcd_TimeToLive :: "int \<Rightarrow> ('w, int) io"
  etcd_Grant :: "int \<Rightarrow> ('w, int \<times> int) io"
  etcd_Revoke :: "int \<Rightarrow> ('w, unit) io"
  etcd_Txn :: "string \<times> string \<times> int \<Rightarrow> string \<times> string \<times> int \<Rightarrow> ('w, bool) io"
  etcd_Put :: "string \<Rightarrow> string \<Rightarrow> int \<Rightarrow> ('w, unit) io"
  etcd_Delete :: "string \<Rightarrow> ('w, unit) io"
  etcd_Now :: "'w \<Rightarrow> int"

definition time_Now :: "'w etcd \<Rightarrow> ('w, int) io" where
  "time_Now ec = (\<lambda>w. Some (Ok (etcd_Now ec w), w))"

section \<open>Reading and writing leases\<close>

definition lease_of_key :: "IP4Net \<Rightarrow> IP6Net option \<Rightarrow> Lease" where
  "lease_of_key sn tsn6 =
     (let sn6 = (case tsn6 of None \<Rightarrow> empty_IP6Net | Some n \<Rightarrow> n) in
      \<lparr>lease_EnableIPv4 = True, lease_EnableIPv6 = \<not> IP6Net_Empty sn6, lease_Subnet = sn,
       lease_IPv6Subnet = sn6, lease_Attrs = empty_attrs, lease_Expiration = 0, lease_Asof = 0\<rparr>)"

definition kvToIPLease :: "KeyValue \<Rightarrow> int \<Rightarrow> int \<Rightarrow> Lease go" where
  "kvToIPLease kv ttl now =
     (case ParseSubnetKey (kv_Key kv) of
        (None, _) \<Rightarrow> Err (ErrorString (''failed to parse subnet key '' @ kv_Key kv))
      | (Some sn, tsn6) \<Rightarrow>
          go_bind (LeaseAttrs_Unmarshal (kv_Value kv)) (\<lambda>attrs.
            Ok ((lease_of_key sn tsn6)\<lparr>lease_Attrs := attrs, lease_Expiration := now + seconds ttl,
                                       lease_Asof := kv_ModRevision kv\<rparr>)))"

definition esr_getNetworkConfig :: "'w etcd \<Rightarrow> string \<Rightarrow> ('w, string) io" where
  "esr_getNetworkConfig ec prefix =
     io_bind (etcd_Get ec (path_Join [prefix, ''config'']) False) (\<lambda>(kvs, _).
       case kvs of [] \<Rightarrow> io_err errConfigNotFound | kv # _ \<Rightarrow> io_ret (kv_Value kv))"

text \<open>One pair of the listing: a pair whose TTL or content cannot be read is skipped.\<close>

definition list_lease :: "'w etcd \<Rightarrow> KeyValue \<Rightarrow> Lease list \<Rightarrow> ('w, Lease list) io" where
  "list_lease ec kv leases =
     io_try (etcd_TimeToLive ec (kv_Lease kv))
       (\<lambda>ttl. io_bind (time_Now ec) (\<lambda>now.
          io_try (io_of (kvToIPLease kv ttl now)) (\<lambda>l. io_ret (leases @ [l])) (\<lambda>_. io_ret leases)))
       (\<lambda>_. io_ret leases)"

definition esr_getSubnets :: "'w etcd \<Rightarrow> string \<Rightarrow> ('w, Lease list \<times> int) io" where
  "esr_getSubnets ec prefix =
     io_try (etcd_Get ec (path_Join [prefix, ''subnets'']) True)
       (\<lambda>(kvs, rev). io_bind (io_fold (list_lease ec) kvs []) (\<lambda>leases. io_ret (leases, rev)))
       (\<lambda>e. if e = ErrGRPCKeyNotFound then io_ret ([], 0) else io_err e)"

definition subnet_path :: "string \<Rightarrow> IP4Net \<Rightarrow> IP6Net \<Rightarrow> string go" where
  "subnet_path prefix sn sn6 =
     go_bind (MakeSubnetKey sn sn6) (\<lambda>k. Ok (path_Join [prefix, ''subnets'', k]))"

definition esr_getSubnet :: "'w etcd \<Rightarrow> string \<Rightarrow> IP4Net \<Rightarrow> IP6Net \<Rightarrow> ('w, Lease \<times> int) io" where
  "esr_getSubnet ec prefix sn sn6 =
     io_bind (io_of (subnet_path prefix sn sn6)) (\<lambda>key.
     io_bind (etcd_Get ec key False) (\<lambda>(kvs, rev).
       case kvs of
         [] \<Rightarrow> io_err ErrGRPCKeyNotFound
       | kv # _ \<Rightarrow>
           io_bind (etcd_TimeToLive ec (kv_Lease kv)) (\<lambda>ttl.
           io_bind (time_Now ec) (\<lambda>now.
           io_bind (io_of (kvToIPLease kv ttl now)) (\<lambda>l. io_ret (l, rev))))))"

text \<open>A failure to revoke is only logged.\<close>

definition revoke :: "'w etcd \<Rightarrow> int \<Rightarrow> ('w, unit) io" where
  "revoke ec lid = io_try (etcd_Revoke ec lid) io_ret (\<lambda>_. io_ret ())"

definition expires :: "'w etcd \<Rightarrow> int \<Rightarrow> ('w, int) io" where
  "expires ec ttl = io_bind (time_Now ec) (\<lambda>now. io_ret (now + seconds ttl))"

definition esr_createSubnet ::
  "'w etcd \<Rightarrow> string \<Rightarrow> IP4Net \<Rightarrow> IP6Net \<Rightarrow> LeaseAttrs \<Rightarrow> int \<Rightarrow> ('w, int) io" where
  "esr_createSubnet ec prefix sn sn6 attrs ttl =
     io_bind (io_of (subnet_path prefix sn sn6)) (\<lambda>key.
     io_bind (io_of (LeaseAttrs_Marshal attrs)) (\<lambda>val.
     io_bind (etcd_Grant ec (dur_Seconds ttl)) (\<lambda>(lid, granted).
       io_try (etcd_Txn ec (key, ''='', 0) (key, val, lid))
         (\<lambda>succeeded.
            if \<not> succeeded then io_bind (revoke ec lid) (\<lambda>_. io_err errSubnetAlreadyexists)
            else expires ec granted)
         (\<lambda>e. io_bind (revoke ec lid) (\<lambda>_. io_err e)))))"

definition esr_updateSubnet ::
  "'w etcd \<Rightarrow> string \<Rightarrow> IP4Net \<Rightarrow> IP6Net \<Rightarrow> LeaseAttrs \<Rightarrow> int \<Rightarrow> int \<Rightarrow> ('w, int) io" where
  "esr_updateSubnet ec prefix sn sn6 attrs ttl asof =
     io_bind (io_of (subnet_path prefix sn sn6)) (\<lambda>key.
     io_bind (io_of (LeaseAttrs_Marshal attrs)) (\<lambda>val.
     io_bind (etcd_Grant ec (dur_Seconds ttl)) (\<lambda>(lid, granted).
       io_try (etcd_Put ec key val lid)
         (\<lambda>_. expires ec granted)
         (\<lambda>e. io_bind (revoke ec lid) (\<lambda>_. io_err e)))))"

definition esr_deleteSubnet :: "'w etcd \<Rightarrow> string \<Rightarrow> IP4Net \<Rightarrow> IP6Net \<Rightarrow> ('w, unit) io" where
  "esr_deleteSubnet ec prefix sn sn6 =
     io_bind (io_of (subnet_path prefix sn sn6)) (etcd_Delete ec)"

section \<open>Watching leases\<close>

datatype etcd_event_type = EventTypePut | EventTypeDelete

record etcd_event =
  ee_Type :: etcd_event_type
  ee_Kv :: KeyValue

text \<open>A response of the watch channel; \<open>wresp_Err\<close> is what its method \<open>Err\<close> returns.\<close>

record WatchResponse =
  wresp_Revision :: int
  wresp_Events :: "etcd_event list"
  wresp_CompactRevision :: int
  wresp_Err :: "goerror option"

definition isIndexTooSmall :: "goerror \<Rightarrow> bool" where
  "isIndexTooSmall e \<longleftrightarrow> e = ErrGRPCCompacted"

definition isCompacted :: "WatchResponse \<Rightarrow> bool" where
  "isCompacted wresp \<longleftrightarrow> wresp_CompactRevision wresp \<noteq> 0 \<or> wresp_Err wresp = Some ErrCompacted"

definition parseSubnetWatchResponse :: "'w etcd \<Rightarrow> etcd_event \<Rightarrow> ('w, Event) io" where
  "parseSubnetWatchResponse ec ev =
     (case ParseSubnetKey (kv_Key (ee_Kv ev)) of
        (None, _) \<Rightarrow>
          io_err (ErrorString
            ((case ee_Type ev of EventTypePut \<Rightarrow> ''PUT '' | EventTypeDelete \<Rightarrow> ''DELETE '') @
             quoted (kv_Key (ee_Kv ev)) @ '': not a subnet, skipping''))
      | (Some sn, tsn6) \<Rightarrow>
          (case ee_Type ev of
             EventTypeDelete \<Rightarrow> io_ret \<lparr>ev_Type = EventRemoved, ev_Lease = lease_of_key sn tsn6\<rparr>
           | EventTypePut \<Rightarrow>
               io_bind (io_of (LeaseAttrs_Unmarshal (kv_Value (ee_Kv ev)))) (\<lambda>attrs.
               io_bind (etcd_TimeToLive ec (kv_Lease (ee_Kv ev))) (\<lambda>ttl.
               io_bind (time_Now ec) (\<lambda>now.
                 io_ret \<lparr>ev_Type = EventAdded,
                         ev_Lease = (lease_of_key sn tsn6)\<lparr>lease_Attrs := attrs,
                                       lease_Expiration := now + seconds ttl\<rparr>\<rparr>)))))"

abbreviation empty_wr :: LeaseWatchResult where
  "empty_wr \<equiv> \<lparr>wr_Events = [], wr_Snapshot = [], wr_Cursor = None\<rparr>"

definition esr_leasesWatchReset :: "'w etcd \<Rightarrow> string \<Rightarrow> ('w, LeaseWatchResult) io" where
  "esr_leasesWatchReset ec prefix =
     io_try (esr_getSubnets ec prefix)
       (\<lambda>(leases, index). io_ret (empty_wr\<lparr>wr_Cursor := Some (WatchCursor index), wr_Snapshot := leases\<rparr>))
       (\<lambda>e. io_err (Wrapped ''failed to retrieve subnet leases'' e))"

definition getNextIndex :: "cursor option \<Rightarrow> int go" where
  "getNextIndex c =
     (case c of
        Some (WatchCursor i) \<Rightarrow> Ok (int64 (i + 1))
      | Some (CursorText s) \<Rightarrow>
          (case ParseInt 64 s of
             None \<Rightarrow> Err (ErrorString (''failed to parse cursor: '' @ s))
           | Some i \<Rightarrow> Ok (int64 (i + 1)))
      | _ \<Rightarrow> Err (ErrorString ''internal error: watch cursor is of unknown type''))"

text \<open>
  The results sent for the events of a response. In \<open>watchSubnets\<close> an event that cannot be
  read still produces a result, which has a cursor at most; in \<open>watchSubnet\<close> it is dropped.
\<close>

definition subnets_event_result :: "'w etcd \<Rightarrow> string \<Rightarrow> int \<Rightarrow> etcd_event \<Rightarrow> ('w, LeaseWatchResult) io" where
  "subnets_event_result ec prefix rv ev =
     io_try (parseSubnetWatchResponse ec ev)
       (\<lambda>e. io_ret (empty_wr\<lparr>wr_Events := [e\<lparr>ev_Lease := (ev_Lease e)\<lparr>lease_EnableIPv4 := True\<rparr>\<rparr>],
                            wr_Cursor := Some (WatchCursor rv)\<rparr>))
       (\<lambda>err.
          if isIndexTooSmall err then
            io_try (esr_leasesWatchReset ec prefix) io_ret (\<lambda>_. io_ret empty_wr)
          else if rv \<noteq> 0 then io_ret (empty_wr\<lparr>wr_Cursor := Some (WatchCursor rv)\<rparr>)
          else io_ret empty_wr)"

definition subnet_event_results :: "'w etcd \<Rightarrow> string \<Rightarrow> int \<Rightarrow> etcd_event \<Rightarrow> ('w, LeaseWatchResult list) io" where
  "subnet_event_results ec prefix rv ev =
     io_try (parseSubnetWatchResponse ec ev)
       (\<lambda>e. io_ret [empty_wr\<lparr>wr_Events := [e], wr_Cursor := Some (WatchCursor rv)\<rparr>])
       (\<lambda>err.
          if isIndexTooSmall err then
            io_try (esr_leasesWatchReset ec prefix) (\<lambda>wr. io_ret [wr]) (\<lambda>_. io_ret [empty_wr])
          else io_ret [])"

text \<open>
  The state of a watch loop: the revision to resume from, the backoff, where the loop is and
  what it has sent. \<open>Resyncing\<close> is the inner retry loop after a compaction.
\<close>

datatype watch_phase = Connecting | Receiving | Resyncing | Stopped

record watch_state =
  ws_since :: int
  ws_backoff :: int
  ws_phase :: watch_phase
  ws_sent :: "LeaseWatchResult list list"

definition initialBackoff :: int where "initialBackoff = 100000000"

definition maxBackoff :: int where "maxBackoff = 5000000000"

definition grow_backoff :: "watch_state \<Rightarrow> watch_state" where
  "grow_backoff st = st\<lparr>ws_backoff := min (ws_backoff st * 2) maxBackoff\<rparr>"

definition watch_start :: "int \<Rightarrow> watch_state" where
  "watch_start since = \<lparr>ws_since = since, ws_backoff = initialBackoff, ws_phase = Connecting, ws_sent = []\<rparr>"

text \<open>
  What the loop waits for: the channel of \<open>cli.Watch\<close> (nil or not), the end of the context, a
  response or the closing of the channel, the backoff timer. The flag of the last two says
  whether the receiver takes a snapshot before the context ends.
\<close>

datatype watch_input =
    Opened bool
  | Cancelled
  | Response WatchResponse bool bool
  | TimerFired bool

definition esr_resyncWatch :: "'w etcd \<Rightarrow> string \<Rightarrow> bool \<Rightarrow> ('w, LeaseWatchResult \<times> int) io" where
  "esr_resyncWatch ec prefix ready =
     io_bind (esr_leasesWatchReset ec prefix) (\<lambda>wr.
       if ready then io_bind (io_of (getNextIndex (wr_Cursor wr))) (\<lambda>next. io_ret (wr, next))
       else io_err ctx_Err)"

definition esr_resyncWatchSubnet ::
  "'w etcd \<Rightarrow> string \<Rightarrow> IP4Net \<Rightarrow> IP6Net \<Rightarrow> bool \<Rightarrow> ('w, LeaseWatchResult \<times> int) io" where
  "esr_resyncWatchSubnet ec prefix sn sn6 ready =
     io_bind (io_of (subnet_path prefix sn sn6)) (\<lambda>key.
     io_bind (etcd_Get ec key False) (\<lambda>(kvs, rev).
     io_bind
       (case kvs of
          [] \<Rightarrow>
            io_ret (empty_wr\<lparr>wr_Events := [\<lparr>ev_Type = EventRemoved, ev_Lease = lease_of_key sn (Some sn6)\<rparr>],
                            wr_Cursor := Some (WatchCursor rev)\<rparr>)
        | kv # _ \<Rightarrow>
            io_bind (etcd_TimeToLive ec (kv_Lease kv)) (\<lambda>ttl.
            io_bind (time_Now ec) (\<lambda>now.
            io_bind (io_of (kvToIPLease kv ttl now)) (\<lambda>l.
              io_ret (empty_wr\<lparr>wr_Snapshot := [l], wr_Cursor := Some (WatchCursor rev)\<rparr>)))))
       (\<lambda>wr.
          if ready then io_bind (io_of (getNextIndex (wr_Cursor wr))) (\<lambda>next. io_ret (wr, next))
          else io_err ctx_Err)))"

definition resynced :: "watch_state \<Rightarrow> LeaseWatchResult \<times> int \<Rightarrow> watch_state" where
  "resynced st r =
     (case r of (wr, next) \<Rightarrow>
        st\<lparr>ws_since := next, ws_backoff := initialBackoff, ws_phase := Connecting,
           ws_sent := ws_sent st @ [[wr]]\<rparr>)"

definition advance :: "watch_state \<Rightarrow> int \<Rightarrow> watch_state" where
  "advance st rv =
     (let st1 = st\<lparr>ws_backoff := initialBackoff\<rparr> in
      if rv \<noteq> 0 then st1\<lparr>ws_since := int64 (rv + 1)\<rparr> else st1)"

definition send :: "watch_state \<Rightarrow> LeaseWatchResult list \<Rightarrow> watch_state" where
  "send st results = (if results \<noteq> [] then st\<lparr>ws_sent := ws_sent st @ [results]\<rparr> else st)"

definition esr_watchSubnets_step ::
  "'w etcd \<Rightarrow> string \<Rightarrow> watch_state \<Rightarrow> watch_input \<Rightarrow> ('w, watch_state) io" where
  "esr_watchSubnets_step ec prefix st inp =
     (case (ws_phase st, inp) of
        (Connecting, Opened nonnil) \<Rightarrow>
          io_ret (if nonnil then st\<lparr>ws_phase := Receiving\<rparr> else grow_backoff st)
      | (Receiving, Cancelled) \<Rightarrow> io_ret (st\<lparr>ws_phase := Stopped\<rparr>)
      | (Receiving, Response wresp opn ready) \<Rightarrow>
          if \<not> opn \<or> wresp_Err wresp \<noteq> None then
            (if isCompacted wresp then
               io_try (esr_resyncWatch ec prefix ready)
                 (\<lambda>r. io_ret (resynced st r)) (\<lambda>_. io_ret (st\<lparr>ws_phase := Resyncing\<rparr>))
             else io_ret ((grow_backoff st)\<lparr>ws_phase := Connecting\<rparr>))
          else
            io_bind (io_fold (\<lambda>ev rs. io_bind (subnets_event_result ec prefix (wresp_Revision wresp) ev)
                                        (\<lambda>wr. io_ret (rs @ [wr])))
                       (wresp_Events wresp) [])
              (\<lambda>results. io_ret (send (advance st (wresp_Revision wresp)) results))
      | (Resyncing, Cancelled) \<Rightarrow> io_ret (st\<lparr>ws_phase := Stopped\<rparr>)
      | (Resyncing, TimerFired ready) \<Rightarrow>
          io_try (esr_resyncWatch ec prefix ready)
            (\<lambda>r. io_ret (resynced st r)) (\<lambda>_. io_ret (grow_backoff st))
      | _ \<Rightarrow> io_ret st)"

definition esr_watchSubnet_step ::
  "'w etcd \<Rightarrow> string \<Rightarrow> IP4Net \<Rightarrow> IP6Net \<Rightarrow> watch_state \<Rightarrow> watch_input \<Rightarrow> ('w, watch_state) io" where
  "esr_watchSubnet_step ec prefix sn sn6 st inp =
     (case (ws_phase st, inp) of
        (Connecting, Opened nonnil) \<Rightarrow>
          io_ret (if nonnil then st\<lparr>ws_phase := Receiving\<rparr> else grow_backoff st)
      | (Receiving, Cancelled) \<Rightarrow> io_ret (st\<lparr>ws_phase := Stopped\<rparr>)
      | (Receiving, Response wresp opn ready) \<Rightarrow>
          if \<not> opn \<or> wresp_Err wresp \<noteq> None then
            (if isCompacted wresp then
               io_try (esr_resyncWatchSubnet ec prefix sn sn6 ready)
                 (\<lambda>r. io_ret (resynced st r)) (\<lambda>_. io_ret ((grow_backoff st)\<lparr>ws_phase := Connecting\<rparr>))
             else io_ret ((grow_backoff st)\<lparr>ws_phase := Connecting\<rparr>))
          else
            io_bind (io_fold (\<lambda>ev rs. io_bind (subnet_event_results ec prefix (wresp_Revision wresp) ev)
                                        (\<lambda>wrs. io_ret (rs @ wrs)))
                       (wresp_Events wresp) [])
              (\<lambda>batch. io_ret (send (advance st (wresp_Revision wresp)) batch))
      | _ \<Rightarrow> io_ret st)"

fun watch_run :: "(watch_state \<Rightarrow> watch_input \<Rightarrow> ('w, watch_state) io) \<Rightarrow> watch_input list \<Rightarrow> watch_state \<Rightarrow> ('w, watch_state) io" where
  "watch_run step [] st = io_ret st"
| "watch_run step (i # is) st = io_bind (step st i) (watch_run step is)"

section \<open>The registry\<close>

definition etcdSubnetRegistry :: "'w etcd \<Rightarrow> string \<Rightarrow> 'w Registry" where
  "etcdSubnetRegistry ec prefix =
     \<lparr>rg_getNetworkConfig = esr_getNetworkConfig ec prefix, rg_getSubnets = esr_getSubnets ec prefix,
      rg_getSubnet = esr_getSubnet ec prefix, rg_createSubnet = esr_createSubnet ec prefix,
      rg_updateSubnet = esr_updateSubnet ec prefix, rg_deleteSubnet = esr_deleteSubnet ec prefix,
      rg_leasesWatchReset = esr_leasesWatchReset ec prefix\<rparr>"

lemma time_Now_apply [simp]: "time_Now ec w = Some (Ok (etcd_Now ec w), w)"
  by (simp add: time_Now_def)

lemmas [go_eval] =
  errTryAgain_def errConfigNotFound_def errSubnetAlreadyexists_def int64_def seconds_def dur_Seconds_def
  lease_of_key_def kvToIPLease_def esr_getNetworkConfig_def list_lease_def esr_getSubnets_def
  subnet_path_def esr_getSubnet_def revoke_def expires_def esr_createSubnet_def esr_updateSubnet_def
  esr_deleteSubnet_def isIndexTooSmall_def isCompacted_def parseSubnetWatchResponse_def
  esr_leasesWatchReset_def getNextIndex_def subnets_event_result_def subnet_event_results_def
  initialBackoff_def maxBackoff_def grow_backoff_def watch_start_def esr_resyncWatch_def
  esr_resyncWatchSubnet_def resynced_def advance_def send_def esr_watchSubnets_step_def
  esr_watchSubnet_step_def etcdSubnetRegistry_def

section \<open>The contract\<close>

text \<open>
  What the registry relies on, stated for a view of the world as the keys of the store with
  their values and etcd leases. Reading changes nothing; a range read returns existing keys
  below the prefix; a granted lease ID is new; a transaction that puts a key if it does not
  exist says whether it did; revoking a lease deletes its keys. A call that returns an error
  may have been carried out.
\<close>

type_synonym etcd_store = "string \<Rightarrow> (string \<times> int) option"

definition drop_lease :: "int \<Rightarrow> etcd_store \<Rightarrow> etcd_store" where
  "drop_lease lid m =
     (\<lambda>k. case m k of None \<Rightarrow> None | Some (v, l) \<Rightarrow> if l = lid then None else Some (v, l))"

definition reads_only :: "('w \<Rightarrow> etcd_store) \<Rightarrow> ('w, 'a) io \<Rightarrow> bool" where
  "reads_only view m \<longleftrightarrow> (\<forall>w r w'. m w = Some (r, w') \<longrightarrow> view w' = view w)"

definition writes :: "('w \<Rightarrow> etcd_store) \<Rightarrow> (etcd_store \<Rightarrow> etcd_store) \<Rightarrow> ('w, 'a) io \<Rightarrow> bool" where
  "writes view f m \<longleftrightarrow>
     (\<forall>w r w'. m w = Some (r, w') \<longrightarrow>
        view w' = f (view w) \<or> (\<not> is_Ok r \<and> view w' = view w))"

definition etcd_laws :: "'w etcd \<Rightarrow> ('w \<Rightarrow> etcd_store) \<Rightarrow> bool" where
  "etcd_laws ec view \<longleftrightarrow>
     (\<forall>key pre. reads_only view (etcd_Get ec key pre)) \<and>
     (\<forall>l. reads_only view (etcd_TimeToLive ec l)) \<and>
     (\<forall>n. reads_only view (etcd_Grant ec n)) \<and>
     (\<forall>key w kvs rv w'. etcd_Get ec key True w = Some (Ok (kvs, rv), w') \<longrightarrow>
        (\<forall>kv \<in> set kvs. HasPrefix (kv_Key kv) key \<and> view w (kv_Key kv) \<noteq> None)) \<and>
     (\<forall>n w lid ttl w'. etcd_Grant ec n w = Some (Ok (lid, ttl), w') \<longrightarrow> (\<forall>k v. view w k \<noteq> Some (v, lid))) \<and>
     (\<forall>key v lid w b w'. etcd_Txn ec (key, ''='', 0) (key, v, lid) w = Some (Ok b, w') \<longrightarrow>
        b = (view w key = None) \<and> view w' = (if b then (view w)(key \<mapsto> (v, lid)) else view w)) \<and>
     (\<forall>key v lid. writes view (\<lambda>m. if m key = None then m(key \<mapsto> (v, lid)) else m)
        (etcd_Txn ec (key, ''='', 0) (key, v, lid))) \<and>
     (\<forall>key v lid. writes view (\<lambda>m. m(key \<mapsto> (v, lid))) (etcd_Put ec key v lid)) \<and>
     (\<forall>key. writes view (\<lambda>m. m(key := None)) (etcd_Delete ec key)) \<and>
     (\<forall>lid. writes view (drop_lease lid) (etcd_Revoke ec lid))"

lemma etcd_lawsD:
  assumes "etcd_laws ec view"
  shows etcd_Get_ro: "etcd_Get ec key pre w = Some (gr, w') \<Longrightarrow> view w' = view w"
    and etcd_TimeToLive_ro: "etcd_TimeToLive ec l w = Some (tr, w') \<Longrightarrow> view w' = view w"
    and etcd_Grant_ro: "etcd_Grant ec n w = Some (lr, w') \<Longrightarrow> view w' = view w"
    and etcd_Get_sound: "etcd_Get ec key True w = Some (Ok (kvs, rv), w') \<Longrightarrow> kv \<in> set kvs \<Longrightarrow>
      HasPrefix (kv_Key kv) key \<and> view w (kv_Key kv) \<noteq> None"
    and etcd_Grant_fresh: "etcd_Grant ec n w = Some (Ok (lid, ttl), w') \<Longrightarrow> view w k \<noteq> Some (v, lid)"
    and etcd_Txn_ok: "etcd_Txn ec (key, ''='', 0) (key, v, lid) w = Some (Ok b, w') \<Longrightarrow>
      b = (view w key = None) \<and> view w' = (if b then (view w)(key \<mapsto> (v, lid)) else view w)"
    and etcd_Txn_writes: "writes view (\<lambda>m. if m key = None then m(key \<mapsto> (v, lid)) else m)
      (etcd_Txn ec (key, ''='', 0) (key, v, lid))"
    and etcd_Put_writes: "writes view (\<lambda>m. m(key \<mapsto> (v, lid))) (etcd_Put ec key v lid)"
    and etcd_Delete_writes: "writes view (\<lambda>m. m(key := None)) (etcd_Delete ec key)"
    and etcd_Revoke_writes: "writes view (drop_lease lid) (etcd_Revoke ec lid)"
  using assms unfolding etcd_laws_def reads_only_def by meson+

definition etcd_ok :: "('w \<Rightarrow> etcd_store) \<Rightarrow> string \<Rightarrow> 'w \<Rightarrow> bool" where
  "etcd_ok view prefix w \<longleftrightarrow>
     (\<forall>k. view w k \<noteq> None \<longrightarrow> HasPrefix k (path_Join [prefix, ''subnets'']) \<longrightarrow>
        (\<exists>sn. nameable sn \<and> subnet_path prefix sn empty_IP6Net = Ok k))"

definition store_taken :: "string \<Rightarrow> etcd_store \<Rightarrow> IP4Net set" where
  "store_taken prefix m = {sn. nameable sn \<and> (\<exists>k. subnet_path prefix sn empty_IP6Net = Ok k \<and> m k \<noteq> None)}"

lemma subnet_path_parse:
  assumes "nameable sn" "sn6_ok sn6"
  shows "\<exists>k. subnet_path prefix sn sn6 = Ok k \<and> ParseSubnetKey k = (Some sn, if IP6Net_Empty sn6 then None else Some sn6)"
  using Parse_Join_key [of sn sn6 prefix] assms by (auto simp: subnet_path_def nameable_def)

lemma sn6_ok_empty [simp]: "sn6_ok empty_IP6Net"
  by (simp add: sn6_ok_def IP6Net_Empty_def)

lemma subnet_path_v4:
  assumes "nameable sn"
  obtains k where "subnet_path prefix sn empty_IP6Net = Ok k" "ParseSubnetKey k = (Some sn, None)"
  using subnet_path_parse [OF assms, of empty_IP6Net prefix] by (auto simp: IP6Net_Empty_def)

lemma subnet_path_inject:
  assumes "nameable sn" "nameable sn'" "subnet_path prefix sn empty_IP6Net = Ok k" "subnet_path prefix sn' empty_IP6Net = Ok k"
  shows "sn = sn'"
  using subnet_path_parse [of sn empty_IP6Net prefix] subnet_path_parse [of sn' empty_IP6Net prefix] assms by auto

lemma store_taken_in:
  "nameable sn \<Longrightarrow> subnet_path prefix sn empty_IP6Net = Ok k \<Longrightarrow> sn \<in> store_taken prefix m \<longleftrightarrow> m k \<noteq> None"
  by (auto simp: store_taken_def)

lemma store_taken_not_nameable: "\<not> nameable sn \<Longrightarrow> sn \<notin> store_taken prefix m"
  by (simp add: store_taken_def)

lemma store_taken_upd:
  assumes "nameable sn" "subnet_path prefix sn empty_IP6Net = Ok k"
  shows "x \<in> store_taken prefix (m(k := v)) \<longleftrightarrow> (if x = sn then v \<noteq> None else x \<in> store_taken prefix m)"
proof (cases "nameable x")
  case True
  then obtain kx where kx: "subnet_path prefix x empty_IP6Net = Ok kx" by (rule subnet_path_v4)
  have "kx = k \<longleftrightarrow> x = sn" using subnet_path_inject [OF True assms(1)] kx assms(2) by auto
  then show ?thesis by (simp add: store_taken_in [OF True kx])
next
  case False
  then show ?thesis using assms(1) by (auto simp: store_taken_not_nameable)
qed

lemma store_taken_put:
  "nameable sn \<Longrightarrow> subnet_path prefix sn empty_IP6Net = Ok k \<Longrightarrow>
   store_taken prefix (m(k \<mapsto> x)) = insert sn (store_taken prefix m)"
  by (rule set_eqI) (simp add: store_taken_upd)

lemma store_taken_del:
  "nameable sn \<Longrightarrow> subnet_path prefix sn empty_IP6Net = Ok k \<Longrightarrow>
   store_taken prefix (m(k := None)) = store_taken prefix m - {sn}"
  by (rule set_eqI) (simp add: store_taken_upd)

lemma etcd_ok_put:
  "etcd_ok view prefix w \<Longrightarrow> nameable sn \<Longrightarrow> subnet_path prefix sn empty_IP6Net = Ok k \<Longrightarrow>
   view w' = (view w)(k \<mapsto> x) \<Longrightarrow> etcd_ok view prefix w'"
  by (auto simp: etcd_ok_def)

lemma etcd_ok_del: "etcd_ok view prefix w \<Longrightarrow> view w' = (view w)(k := None) \<Longrightarrow> etcd_ok view prefix w'"
  by (auto simp: etcd_ok_def)

lemma etcd_ok_same: "etcd_ok view prefix w \<Longrightarrow> view w' = view w \<Longrightarrow> etcd_ok view prefix w'"
  by (simp add: etcd_ok_def)

lemma drop_lease_fresh: "\<forall>k v. m k \<noteq> Some (v, lid) \<Longrightarrow> drop_lease lid m = m"
  by (auto simp: drop_lease_def fun_eq_iff split: option.splits)

lemma drop_lease_put: "\<forall>k v. m k \<noteq> Some (v, lid) \<Longrightarrow> m key = None \<Longrightarrow> drop_lease lid (m(key \<mapsto> (v, lid))) = m"
  by (auto simp: drop_lease_def fun_eq_iff split: option.splits)

text \<open>Listing leaves the store alone and returns leases whose keys exist.\<close>

definition read_from :: "KeyValue \<Rightarrow> Lease \<Rightarrow> bool" where
  "read_from kv l \<longleftrightarrow> (\<exists>ttl now. kvToIPLease kv ttl now = Ok l)"

lemma list_lease_keeps:
  assumes "etcd_laws ec view" "list_lease ec kv ls w = Some (r, w')"
  shows "view w' = view w \<and> (\<forall>ls'. r = Ok ls' \<longrightarrow> (\<forall>l \<in> set ls'. l \<in> set ls \<or> read_from kv l))"
proof -
  have ro: "etcd_TimeToLive ec (kv_Lease kv) w = Some (r', w1) \<Longrightarrow> view w1 = view w" for r' w1
    by (rule etcd_TimeToLive_ro [OF assms(1)])
  from assms(2)[unfolded list_lease_def] show ?thesis
  proof (cases rule: io_try_cases)
    case (ok ttl w1)
    show ?thesis
    proof (cases "kvToIPLease kv ttl (etcd_Now ec w1)")
      case (Ok l)
      then have "read_from kv l" by (auto simp: read_from_def)
      with Ok ok ro [OF ok(1)] show ?thesis by (auto simp: io_bind_apply io_try_apply)
    qed (use ok ro [OF ok(1)] in \<open>auto simp: io_bind_apply io_try_apply\<close>)
  next
    case (err e w1)
    then show ?thesis using ro [OF err(1)] by auto
  next
    case (panic p)
    then show ?thesis using ro by auto
  qed
qed

lemma list_fold_keeps:
  assumes "etcd_laws ec view"
  shows "io_fold (list_lease ec) kvs ls w = Some (r, w') \<Longrightarrow>
    view w' = view w \<and> (\<forall>ls'. r = Ok ls' \<longrightarrow> (\<forall>l \<in> set ls'. l \<in> set ls \<or> (\<exists>kv \<in> set kvs. read_from kv l)))"
proof (induction kvs arbitrary: ls w)
  case (Cons kv kvs)
  from Cons.prems [unfolded io_fold.simps] show ?case
  proof (cases rule: io_bind_cases)
    case (ok ls1 w1)
    have "view w1 = view w" "\<forall>l \<in> set ls1. l \<in> set ls \<or> read_from kv l"
      using list_lease_keeps [OF assms ok(1)] by simp_all
    with Cons.IH [OF ok(2)] show ?thesis by (metis list.set_intros(1,2))
  next
    case (err e)
    then show ?thesis using list_lease_keeps [OF assms err(1)] by simp
  next
    case (panic p)
    then show ?thesis using list_lease_keeps [OF assms panic(1)] by simp
  qed
qed auto

lemma getSubnets_keeps:
  assumes "etcd_laws ec view" "esr_getSubnets ec prefix w = Some (r, w')"
  shows "view w' = view w \<and> (\<forall>ls i. r = Ok (ls, i) \<longrightarrow>
    (\<forall>l \<in> set ls. \<exists>kv. read_from kv l \<and> view w (kv_Key kv) \<noteq> None \<and>
       HasPrefix (kv_Key kv) (path_Join [prefix, ''subnets''])))"
proof -
  let ?get = "etcd_Get ec (path_Join [prefix, ''subnets'']) True"
  have ro: "?get w = Some (r', w1) \<Longrightarrow> view w1 = view w" for r' w1
    by (rule etcd_Get_ro [OF assms(1)])
  from assms(2) [unfolded esr_getSubnets_def] show ?thesis
  proof (cases rule: io_try_cases)
    case (ok x w1)
    obtain kvs rv where x: "x = (kvs, rv)" by (cases x)
    note g = ok(1) [unfolded x]
    from ok(2) x have "io_bind (io_fold (list_lease ec) kvs []) (\<lambda>leases. io_ret (leases, rv)) w1 = Some (r, w')" by simp
    then show ?thesis
    proof (cases rule: io_bind_cases)
      case (ok ls w2)
      then have r: "r = Ok (ls, rv)" "w' = w2" by simp_all
      have "view w2 = view w" "\<forall>l \<in> set ls. \<exists>kv \<in> set kvs. read_from kv l"
        using list_fold_keeps [OF assms(1) ok(1)] ro [OF g] by simp_all
      with r etcd_Get_sound [OF assms(1) g] show ?thesis by (metis Pair_inject go.inject(1))
    next
      case (err e)
      from list_fold_keeps [OF assms(1) err(1)] err(2) ro [OF g] show ?thesis by simp
    next
      case (panic p)
      from list_fold_keeps [OF assms(1) panic(1)] panic(2) ro [OF g] show ?thesis by simp
    qed
  next
    case (err e w1)
    then show ?thesis using ro [OF err(1)] by (auto split: if_splits)
  next
    case (panic p)
    then show ?thesis using ro by auto
  qed
qed

lemma kvToIPLease_subnet:
  assumes "kvToIPLease kv ttl now = Ok l"
  shows "fst (ParseSubnetKey (kv_Key kv)) = Some (lease_Subnet l) \<and>
    lease_IPv6Subnet l = (case snd (ParseSubnetKey (kv_Key kv)) of None \<Rightarrow> empty_IP6Net | Some n \<Rightarrow> n)"
  using assms by (auto simp: kvToIPLease_def lease_of_key_def Let_def go_bind_Ok_iff split: prod.splits option.splits)

lemma revoke_view:
  assumes "etcd_laws ec view" "revoke ec lid w = Some (r, w')"
  shows "view w' = drop_lease lid (view w) \<or> view w' = view w"
proof -
  have W: "etcd_Revoke ec lid w = Some (r', w1) \<Longrightarrow> view w1 = drop_lease lid (view w) \<or> view w1 = view w" for r' w1
    using etcd_Revoke_writes [OF assms(1), of lid] unfolding writes_def by blast
  from assms(2) [unfolded revoke_def] show ?thesis
    by (cases rule: io_try_cases) (auto dest: W)
qed

lemma revoke_err:
  assumes "etcd_laws ec view" "io_bind (revoke ec lid) (\<lambda>_. io_err e) w = Some (r, w')"
  shows "\<not> is_Ok r \<and> (view w' = drop_lease lid (view w) \<or> view w' = view w)"
  using assms(2)
proof (cases rule: io_bind_cases)
  case (ok x w1)
  then show ?thesis using revoke_view [OF assms(1) ok(1)] by auto
next
  case (err e)
  then show ?thesis using revoke_view [OF assms(1) err(1)] by simp
next
  case (panic p)
  then show ?thesis using revoke_view [OF assms(1) panic(1)] by simp
qed

lemma expires_view: "expires ec ttl w = Some (r, w') \<Longrightarrow> w' = w \<and> is_Ok r"
  by (auto simp: expires_def io_bind_apply)

text \<open>
  A call that puts a key under a new etcd lease: encode, grant, put, and revoke the lease if
  that failed. Both writes of the registry have this shape.
\<close>

lemma revoke_after_put:
  assumes laws: "etcd_laws ec view" and fresh: "\<forall>k v. m k \<noteq> Some (v, lid)"
    and v: "view w = m \<or> view w = m(key \<mapsto> (v, lid))"
    and run: "io_bind (revoke ec lid) (\<lambda>_. io_err e) w = Some (r, w')"
  shows "\<not> is_Ok r \<and> (view w' = m \<or> view w' = m(key \<mapsto> (v, lid)) \<or> view w' = m(key := None))"
proof -
  have d: "drop_lease lid m = m" "drop_lease lid (m(key \<mapsto> (v, lid))) = m(key := None)"
    using fresh by (auto simp: drop_lease_def fun_eq_iff split: option.splits)
  with v d revoke_err [OF laws run] show ?thesis by auto
qed

lemma create_view:
  assumes laws: "etcd_laws ec view" and key: "subnet_path prefix sn sn6 = Ok key"
    and run: "esr_createSubnet ec prefix sn sn6 a ttl w = Some (r, w')"
  shows "(is_Ok r \<and> view w key = None \<and> (\<exists>x. view w' = (view w)(key \<mapsto> x))) \<or>
     (\<not> is_Ok r \<and> (view w' = view w \<or> view w key = None \<and> (\<exists>x. view w' = (view w)(key \<mapsto> x))))"
proof (cases "LeaseAttrs_Marshal a")
  case (Ok val)
  from run key Ok have "io_bind (etcd_Grant ec (dur_Seconds ttl)) (\<lambda>(lid, granted).
       io_try (etcd_Txn ec (key, ''='', 0) (key, val, lid))
         (\<lambda>succeeded. if \<not> succeeded then io_bind (revoke ec lid) (\<lambda>_. io_err errSubnetAlreadyexists)
            else expires ec granted)
         (\<lambda>e. io_bind (revoke ec lid) (\<lambda>_. io_err e))) w = Some (r, w')"
    by (simp add: esr_createSubnet_def)
  then show ?thesis
  proof (cases rule: io_bind_cases)
    case (ok x w1)
    obtain lid granted where x: "x = (lid, granted)" by (cases x)
    have fresh: "\<forall>k v. view w k \<noteq> Some (v, lid)" using etcd_Grant_fresh [OF laws ok(1) [unfolded x]] by blast
    have w1: "view w1 = view w" by (rule etcd_Grant_ro [OF laws ok(1)])
    from ok(2) x have "io_try (etcd_Txn ec (key, ''='', 0) (key, val, lid))
         (\<lambda>succeeded. if \<not> succeeded then io_bind (revoke ec lid) (\<lambda>_. io_err errSubnetAlreadyexists)
            else expires ec granted)
         (\<lambda>e. io_bind (revoke ec lid) (\<lambda>_. io_err e)) w1 = Some (r, w')" by simp
    then show ?thesis
    proof (cases rule: io_try_cases)
      case (ok b w2)
      have t: "b = (view w key = None)" "view w2 = (if b then (view w)(key \<mapsto> (val, lid)) else view w)"
        using etcd_Txn_ok [OF laws ok(1)] w1 by simp_all
      show ?thesis
      proof (cases b)
        case True
        with ok(2) have "w' = w2 \<and> is_Ok r" using expires_view [of ec granted w2 r w'] by simp
        with True t show ?thesis by auto
      next
        case False
        with ok(2) have "io_bind (revoke ec lid) (\<lambda>_. io_err errSubnetAlreadyexists) w2 = Some (r, w')" by simp
        from revoke_err [OF laws this] False t drop_lease_fresh [OF fresh] show ?thesis by auto
      qed
    next
      case (err e w2)
      have "view w2 = (if view w key = None then (view w)(key \<mapsto> (val, lid)) else view w) \<or> view w2 = view w"
        using etcd_Txn_writes [OF laws] err(1) w1 unfolding writes_def by metis
      then have m: "view w2 = view w \<or> view w key = None \<and> view w2 = (view w)(key \<mapsto> (val, lid))"
        by (auto split: if_splits)
      then have "\<not> is_Ok r \<and> (view w' = view w \<or> view w' = (view w)(key \<mapsto> (val, lid)) \<or> view w' = (view w)(key := None))"
        if "view w key = None" using revoke_after_put [OF laws fresh _ err(2)] that by blast
      moreover have "\<not> is_Ok r \<and> view w' = view w" if "view w key \<noteq> None"
      proof -
        have "view w2 = view w" using m that by blast
        with revoke_err [OF laws err(2)] drop_lease_fresh [OF fresh] show ?thesis by auto
      qed
      ultimately show ?thesis by (metis fun_upd_idem)
    next
      case (panic p)
      have "view w' = (if view w key = None then (view w)(key \<mapsto> (val, lid)) else view w) \<or> view w' = view w"
        using etcd_Txn_writes [OF laws] panic(1) w1 unfolding writes_def by metis
      with panic(2) show ?thesis by (auto split: if_splits)
    qed
  qed (auto dest: etcd_Grant_ro [OF laws])
qed (use run key in \<open>auto simp: esr_createSubnet_def\<close>)

lemma update_view:
  assumes laws: "etcd_laws ec view" and key: "subnet_path prefix sn sn6 = Ok key"
    and run: "esr_updateSubnet ec prefix sn sn6 a ttl asof w = Some (r, w')"
  shows "(is_Ok r \<and> (\<exists>x. view w' = (view w)(key \<mapsto> x))) \<or>
     (\<not> is_Ok r \<and> (view w' = view w \<or> (\<exists>x. view w' = (view w)(key := x))))"
proof (cases "LeaseAttrs_Marshal a")
  case (Ok val)
  from run key Ok have "io_bind (etcd_Grant ec (dur_Seconds ttl)) (\<lambda>(lid, granted).
       io_try (etcd_Put ec key val lid) (\<lambda>_. expires ec granted)
         (\<lambda>e. io_bind (revoke ec lid) (\<lambda>_. io_err e))) w = Some (r, w')"
    by (simp add: esr_updateSubnet_def)
  then show ?thesis
  proof (cases rule: io_bind_cases)
    case (ok x w1)
    obtain lid granted where x: "x = (lid, granted)" by (cases x)
    have fresh: "\<forall>k v. view w k \<noteq> Some (v, lid)" using etcd_Grant_fresh [OF laws ok(1) [unfolded x]] by blast
    have w1: "view w1 = view w" by (rule etcd_Grant_ro [OF laws ok(1)])
    have P: "etcd_Put ec key val lid w1 = Some (r', w2) \<Longrightarrow>
        view w2 = (view w)(key \<mapsto> (val, lid)) \<or> \<not> is_Ok r' \<and> view w2 = view w" for r' w2
      using etcd_Put_writes [OF laws] w1 unfolding writes_def by metis
    from ok(2) x have "io_try (etcd_Put ec key val lid) (\<lambda>_. expires ec granted)
         (\<lambda>e. io_bind (revoke ec lid) (\<lambda>_. io_err e)) w1 = Some (r, w')" by simp
    then show ?thesis
    proof (cases rule: io_try_cases)
      case (ok u w2)
      with P [OF ok(1)] expires_view [OF ok(2)] show ?thesis by auto
    next
      case (err e w2)
      have "view w2 = view w \<or> view w2 = (view w)(key \<mapsto> (val, lid))" using P [OF err(1)] by auto
      from revoke_after_put [OF laws fresh this err(2)] show ?thesis by auto
    next
      case (panic p)
      with P [OF panic(1)] show ?thesis by auto
    qed
  qed (auto dest: etcd_Grant_ro [OF laws])
qed (use run key in \<open>auto simp: esr_updateSubnet_def\<close>)

lemma delete_view:
  assumes "etcd_laws ec view" "subnet_path prefix sn sn6 = Ok key" "esr_deleteSubnet ec prefix sn sn6 w = Some (r, w')"
  shows "view w' = (view w)(key := None) \<or> \<not> is_Ok r \<and> view w' = view w"
  using etcd_Delete_writes [OF assms(1)] assms(2,3) unfolding writes_def by (auto simp: esr_deleteSubnet_def)

lemma listed_lease_taken:
  assumes "etcd_ok view prefix w" "read_from kv l" "view w (kv_Key kv) \<noteq> None"
    "HasPrefix (kv_Key kv) (path_Join [prefix, ''subnets''])"
  shows "lease_Subnet l \<in> store_taken prefix (view w) \<and> lease_IPv6Subnet l = empty_IP6Net"
proof -
  obtain sn where sn: "nameable sn" "subnet_path prefix sn empty_IP6Net = Ok (kv_Key kv)"
    using assms unfolding etcd_ok_def by blast
  then have "ParseSubnetKey (kv_Key kv) = (Some sn, None)" using subnet_path_v4 [of sn prefix] by auto
  then have "lease_Subnet l = sn" "lease_IPv6Subnet l = empty_IP6Net"
    using assms(2) by (auto simp: read_from_def dest!: kvToIPLease_subnet)
  with sn assms(3) show ?thesis by (simp add: store_taken_in)
qed

text \<open>The etcd registry keeps the contract, for every client that keeps the laws.\<close>

lemma etcd_registry_contract:
  assumes laws: "etcd_laws ec view"
  shows "subnet_registry (etcdSubnetRegistry ec prefix) (etcd_ok view prefix) (\<lambda>w. store_taken prefix (view w))"
proof (unfold_locales, goal_cases)
  case (1 s r s')
  then have "view s' = view s" using getSubnets_keeps [OF laws] by (auto simp: etcdSubnetRegistry_def)
  with 1 show ?case by (simp add: etcd_ok_same [of view prefix s])
next
  case (2 s ls i s')
  then have "\<forall>l \<in> set ls. \<exists>kv. read_from kv l \<and> view s (kv_Key kv) \<noteq> None \<and>
       HasPrefix (kv_Key kv) (path_Join [prefix, ''subnets''])"
    using getSubnets_keeps [OF laws] by (auto simp: etcdSubnetRegistry_def)
  with listed_lease_taken [OF 2(1)] show ?case by blast
next
  case (3 s sn)
  then show ?case by (simp add: store_taken_def)
next
  case (4 s sn a ttl ex s')
  obtain k where k: "subnet_path prefix sn empty_IP6Net = Ok k" using subnet_path_v4 [OF 4(2)] by blast
  with create_view [OF laws k] 4(3) obtain x where "view s k = None" "view s' = (view s)(k \<mapsto> x)"
    by (fastforce simp: etcdSubnetRegistry_def)
  with 4 k show ?case by (simp add: store_taken_put store_taken_in etcd_ok_put [of view prefix s])
next
  case (5 s sn a ttl e s')
  obtain k where k: "subnet_path prefix sn empty_IP6Net = Ok k" using subnet_path_v4 [OF 5(2)] by blast
  with create_view [OF laws k] 5(3)
  have "view s' = view s \<or> view s k = None \<and> (\<exists>x. view s' = (view s)(k \<mapsto> x))"
    by (fastforce simp: etcdSubnetRegistry_def)
  with 5 k show ?case
    by (auto simp: store_taken_put store_taken_in intro: etcd_ok_put etcd_ok_same)
next
  case (6 s sn a ttl asof ur s')
  obtain k where k: "subnet_path prefix sn empty_IP6Net = Ok k" using subnet_path_v4 [OF 6(2)] by blast
  with update_view [OF laws k] 6(3) have "view s' = view s \<or> (\<exists>x. view s' = (view s)(k := x))"
    by (fastforce simp: etcdSubnetRegistry_def)
  with 6 k show ?case
  proof (elim disjE exE)
    fix x assume "view s' = (view s)(k := x)"
    with 6 k show ?case
      by (cases x) (auto simp: store_taken_put store_taken_del intro: etcd_ok_put etcd_ok_del)
  qed (auto intro: etcd_ok_same)
next
  case (7 s sn a ttl asof ex s')
  obtain k where k: "subnet_path prefix sn empty_IP6Net = Ok k" using subnet_path_v4 [OF 7(2)] by blast
  with update_view [OF laws k] 7(3) obtain x where "view s' = (view s)(k \<mapsto> x)"
    by (fastforce simp: etcdSubnetRegistry_def)
  with 7 k show ?case by (simp add: store_taken_in)
next
  case (8 s sn dr s')
  obtain k where k: "subnet_path prefix sn empty_IP6Net = Ok k" using subnet_path_v4 [OF 8(2)] by blast
  with delete_view [OF laws k] 8(3) have "view s' = (view s)(k := None) \<or> view s' = view s"
    by (fastforce simp: etcdSubnetRegistry_def)
  with 8 k show ?case by (auto simp: store_taken_del intro: etcd_ok_del etcd_ok_same)
next
  case (9 s sn u s')
  obtain k where k: "subnet_path prefix sn empty_IP6Net = Ok k" using subnet_path_v4 [OF 9(2)] by blast
  with delete_view [OF laws k] 9(3) have "view s' = (view s)(k := None)"
    by (fastforce simp: etcdSubnetRegistry_def)
  with 9 k show ?case by (simp add: store_taken_in)
qed

end
