(* ===== verification/Mock_Registry.thy ===== *)
theory Mock_Registry
  imports Etcd_Registry
begin

text \<open>
  \<open>pkg/subnet/etcd/mock_registry.go\<close>: the in-memory registry the tests run the manager on.
  Its channels are bounded queues; sending to a full one blocks for good, since the mutex is
  held. The clock is a field of the state.
\<close>

section \<open>State\<close>

record mock_event =
  me_evt :: Event
  me_index :: int

record MockSubnetRegistry =
  msr_config :: string
  msr_subnets :: "Lease list"
  msr_subnetsEvents :: "mock_event list"
  msr_subnetEvents :: "IP4Net \<Rightarrow> mock_event list"
  msr_index :: int
  msr_clock :: int

definition NewMockRegistry :: "string \<Rightarrow> Lease list \<Rightarrow> int \<Rightarrow> MockSubnetRegistry" where
  "NewMockRegistry config initialSubnets clock =
     \<lparr>msr_config = config, msr_subnets = initialSubnets, msr_subnetsEvents = [],
      msr_subnetEvents = (\<lambda>_. []), msr_index = 1000, msr_clock = clock\<rparr>"

section \<open>Operations\<close>

definition sendSubnetEvent :: "IP4Net \<Rightarrow> mock_event \<Rightarrow> (MockSubnetRegistry, unit) io" where
  "sendSubnetEvent sn e = (\<lambda>s.
     if length (msr_subnetsEvents s) \<ge> 1000 \<or> length (msr_subnetEvents s sn) \<ge> 10 then None
     else Some (Ok (), s\<lparr>msr_subnetsEvents := msr_subnetsEvents s @ [e],
                        msr_subnetEvents := (msr_subnetEvents s)(sn := msr_subnetEvents s sn @ [e])\<rparr>))"

text \<open>The first lease with the subnet and its index.\<close>

fun findSubnet_from :: "nat \<Rightarrow> Lease list \<Rightarrow> IP4Net \<Rightarrow> (Lease \<times> nat) go" where
  "findSubnet_from i [] sn = Err (ErrorString ''subnet not found'')"
| "findSubnet_from i (l # ls) sn =
     (if IP4Net_Equal (lease_Subnet l) sn then Ok (l, i) else findSubnet_from (Suc i) ls sn)"

definition findSubnet :: "Lease list \<Rightarrow> IP4Net \<Rightarrow> (Lease \<times> nat) go" where
  "findSubnet = findSubnet_from 0"

definition msr_getNetworkConfig :: "(MockSubnetRegistry, string) io" where
  "msr_getNetworkConfig = (\<lambda>s. io_ret (msr_config s) s)"

definition msr_setConfig :: "string \<Rightarrow> (MockSubnetRegistry, unit) io" where
  "msr_setConfig config = (\<lambda>s. Some (Ok (), s\<lparr>msr_config := config\<rparr>))"

definition msr_getSubnets :: "(MockSubnetRegistry, Lease list \<times> int) io" where
  "msr_getSubnets = (\<lambda>s. io_ret (msr_subnets s, msr_index s) s)"

definition msr_getSubnet :: "IP4Net \<Rightarrow> IP6Net \<Rightarrow> (MockSubnetRegistry, Lease \<times> int) io" where
  "msr_getSubnet sn sn6 = (\<lambda>s.
     case find (\<lambda>l. IP4Net_Equal (lease_Subnet l) sn) (msr_subnets s) of
       Some l \<Rightarrow> io_ret (l, msr_index s) s
     | None \<Rightarrow> io_err (ErrorString (''subnet '' @ IP4Net_String sn @ '' not found'')) s)"

definition mock_expiry :: "int \<Rightarrow> MockSubnetRegistry \<Rightarrow> int" where
  "mock_expiry ttl s = (if ttl \<noteq> 0 then msr_clock s + ttl else 0)"

definition bump :: "MockSubnetRegistry \<Rightarrow> MockSubnetRegistry" where
  "bump s = s\<lparr>msr_index := int64 (msr_index s + 1)\<rparr>"

definition msr_createSubnet ::
  "IP4Net \<Rightarrow> IP6Net \<Rightarrow> LeaseAttrs \<Rightarrow> int \<Rightarrow> (MockSubnetRegistry, int) io" where
  "msr_createSubnet sn sn6 attrs ttl = (\<lambda>s.
     if is_Ok (findSubnet (msr_subnets s) sn) then io_err ErrGRPCKeyNotFound s
     else
       let s1 = bump s; ex = mock_expiry ttl s1;
           l = \<lparr>lease_EnableIPv4 = False, lease_EnableIPv6 = False, lease_Subnet = sn,
                lease_IPv6Subnet = empty_IP6Net, lease_Attrs = attrs, lease_Expiration = ex,
                lease_Asof = msr_index s1\<rparr>;
           s2 = s1\<lparr>msr_subnets := msr_subnets s1 @ [l]\<rparr> in
       io_bind (sendSubnetEvent sn \<lparr>me_evt = \<lparr>ev_Type = EventAdded, ev_Lease = l\<rparr>, me_index = msr_index s1\<rparr>)
         (\<lambda>_. io_ret ex) s2)"

definition msr_updateSubnet ::
  "IP4Net \<Rightarrow> IP6Net \<Rightarrow> LeaseAttrs \<Rightarrow> int \<Rightarrow> int \<Rightarrow> (MockSubnetRegistry, int) io" where
  "msr_updateSubnet sn sn6 attrs ttl asof = (\<lambda>s.
     let s1 = bump s; ex = mock_expiry ttl s1 in
     case findSubnet (msr_subnets s1) sn of
       Ok (sub, i) \<Rightarrow>
         let sub1 = sub\<lparr>lease_Attrs := attrs, lease_Asof := msr_index s1, lease_Expiration := ex\<rparr>;
             s2 = s1\<lparr>msr_subnets := (msr_subnets s1)[i := sub1]\<rparr> in
         io_bind (sendSubnetEvent sn \<lparr>me_evt = \<lparr>ev_Type = EventAdded, ev_Lease = sub1\<rparr>, me_index = msr_index s1\<rparr>)
           (\<lambda>_. io_ret (lease_Expiration sub1)) s2
     | Err e \<Rightarrow> io_err e s1
     | Panic p \<Rightarrow> io_of (Panic p) s1)"

definition msr_deleteSubnet :: "IP4Net \<Rightarrow> IP6Net \<Rightarrow> (MockSubnetRegistry, unit) io" where
  "msr_deleteSubnet sn sn6 = (\<lambda>s.
     let s1 = bump s in
     case findSubnet (msr_subnets s1) sn of
       Ok (sub, i) \<Rightarrow>
         let s2 = s1\<lparr>msr_subnets := butlast ((msr_subnets s1)[i := last (msr_subnets s1)])\<rparr>;
             sub1 = sub\<lparr>lease_Asof := msr_index s1\<rparr> in
         sendSubnetEvent sn \<lparr>me_evt = \<lparr>ev_Type = EventRemoved, ev_Lease = sub1\<rparr>, me_index = msr_index s1\<rparr> s2
     | Err e \<Rightarrow> io_err e s1
     | Panic p \<Rightarrow> io_of (Panic p) s1)"

text \<open>
  One round of \<open>watchSubnets\<close>, with whether the context has ended: it fails, or takes the next
  event and sends it if it is new; on an empty queue it waits.
\<close>

definition msr_watchSubnets_step :: "int \<Rightarrow> bool \<Rightarrow> (MockSubnetRegistry, LeaseWatchResult list) io" where
  "msr_watchSubnets_step since cancelled = (\<lambda>s.
     if since < msr_index s then io_err ErrGRPCCompacted s
     else if cancelled then io_err ctx_Err s
     else
       (case msr_subnetsEvents s of
          [] \<Rightarrow> None
        | e # es \<Rightarrow>
            Some (Ok (if since < me_index e
                      then [\<lparr>wr_Events = [me_evt e], wr_Snapshot = [], wr_Cursor = Some (CursorIndex (me_index e))\<rparr>]
                      else []),
                  s\<lparr>msr_subnetsEvents := es\<rparr>)))"

definition errUnimplemented :: goerror where "errUnimplemented = ErrorString ''unimplemented''"

definition msr_watchSubnet :: "int \<Rightarrow> IP4Net \<Rightarrow> IP6Net \<Rightarrow> (MockSubnetRegistry, unit) io" where
  "msr_watchSubnet since sn sn6 = io_err errUnimplemented"

definition msr_leasesWatchReset :: "(MockSubnetRegistry, LeaseWatchResult) io" where
  "msr_leasesWatchReset =
     io_bind msr_getSubnets (\<lambda>(leases, index).
       io_ret (empty_wr\<lparr>wr_Cursor := Some (WatchCursor index), wr_Snapshot := leases\<rparr>))"

definition mockSubnetRegistry :: "MockSubnetRegistry Registry" where
  "mockSubnetRegistry =
     \<lparr>rg_getNetworkConfig = msr_getNetworkConfig, rg_getSubnets = msr_getSubnets,
      rg_getSubnet = msr_getSubnet, rg_createSubnet = msr_createSubnet,
      rg_updateSubnet = msr_updateSubnet, rg_deleteSubnet = msr_deleteSubnet,
      rg_leasesWatchReset = msr_leasesWatchReset\<rparr>"

lemmas [go_eval] =
  NewMockRegistry_def sendSubnetEvent_def findSubnet_def msr_getNetworkConfig_def msr_setConfig_def
  msr_getSubnets_def msr_getSubnet_def mock_expiry_def bump_def msr_createSubnet_def msr_updateSubnet_def
  msr_deleteSubnet_def msr_watchSubnets_step_def errUnimplemented_def msr_watchSubnet_def
  msr_leasesWatchReset_def mockSubnetRegistry_def

section \<open>The contract\<close>

lemma IP4Net_Equal_iff [simp]: "IP4Net_Equal a b \<longleftrightarrow> a = b"
  by (cases a, cases b) (simp add: IP4Net_Equal_def)

lemma findSubnet_from_cases:
  "(\<exists>l j. findSubnet_from i ls sn = Ok (l, i + j) \<and> j < length ls \<and> ls ! j = l \<and> lease_Subnet l = sn) \<or>
   (findSubnet_from i ls sn = Err (ErrorString ''subnet not found'') \<and> sn \<notin> lease_Subnet ` set ls)"
proof (induction ls arbitrary: i)
  case (Cons x ls)
  show ?case
  proof (cases "lease_Subnet x = sn")
    case True
    then show ?thesis by (intro disjI1 exI [of _ x] exI [of _ 0]) simp
  next
    case False
    with Cons.IH [of "Suc i"] show ?thesis
    proof (elim disjE exE conjE)
      fix l j assume "findSubnet_from (Suc i) ls sn = Ok (l, Suc i + j)" "j < length ls" "ls ! j = l" "lease_Subnet l = sn"
      with False show ?thesis by (intro disjI1 exI [of _ l] exI [of _ "Suc j"]) simp
    qed auto
  qed
qed simp

lemma findSubnet_cases:
  obtains (found) l i where "findSubnet ls sn = Ok (l, i)" "i < length ls" "ls ! i = l" "lease_Subnet l = sn"
    | (missing) "findSubnet ls sn = Err (ErrorString ''subnet not found'')" "sn \<notin> lease_Subnet ` set ls"
  using findSubnet_from_cases [of 0 ls sn] by (auto simp: findSubnet_def)

text \<open>Deleting by moving the last element into the gap.\<close>

lemma set_swap_delete:
  assumes "distinct xs" "i < length xs"
  shows "set (butlast (xs[i := last xs])) = set xs - {xs ! i} \<and> distinct (butlast (xs[i := last xs]))"
proof -
  obtain ys y where xs: "xs = ys @ [y]" using assms(2) by (cases xs rule: rev_cases) auto
  show ?thesis
  proof (cases "i = length ys")
    case True
    with assms(1) show ?thesis by (auto simp: xs)
  next
    case False
    then have i: "i < length ys" using assms(2) xs by simp
    have y: "y \<notin> set ys" "distinct ys" using assms(1) xs by auto
    have "set (ys[i := y]) = insert y (set ys - {ys ! i})" using set_update_distinct [OF y(2) i] by simp
    moreover have "distinct (ys[i := y])" using y by (simp add: distinct_list_update)
    moreover have "ys ! i \<noteq> y" using y(1) i nth_mem by metis
    ultimately show ?thesis using i y by (auto simp: xs list_update_append nth_append)
  qed
qed

definition mock_ok :: "MockSubnetRegistry \<Rightarrow> bool" where
  "mock_ok s \<longleftrightarrow> distinct (map lease_Subnet (msr_subnets s)) \<and>
     (\<forall>l \<in> set (msr_subnets s). lease_IPv6Subnet l = empty_IP6Net \<and> nameable (lease_Subnet l))"

definition mock_taken :: "MockSubnetRegistry \<Rightarrow> IP4Net set" where
  "mock_taken s = lease_Subnet ` set (msr_subnets s)"

lemma mock_subnets_cong:
  assumes "msr_subnets s' = msr_subnets s" shows "mock_ok s' = mock_ok s" "mock_taken s' = mock_taken s"
  using assms by (simp_all add: mock_ok_def mock_taken_def)

lemma sendSubnetEvent_cases:
  assumes "sendSubnetEvent sn e s = Some (r, s')"
  shows "r = Ok () \<and> msr_subnets s' = msr_subnets s"
  using assms by (auto simp: sendSubnetEvent_def split: if_splits)

lemma sendSubnetEvent_bind:
  assumes "io_bind (sendSubnetEvent sn e) (\<lambda>_. io_ret x) s = Some (r, s')"
  shows "r = Ok x \<and> msr_subnets s' = msr_subnets s"
  using assms by (cases rule: io_bind_cases) (auto dest: sendSubnetEvent_cases)

lemma bump_subnets [simp]: "msr_subnets (bump s) = msr_subnets s"
  by (simp add: bump_def)

lemma mock_create:
  assumes "mock_ok s" "nameable sn" "msr_createSubnet sn sn6 a ttl s = Some (r, s')"
  shows "(\<exists>ex. r = Ok ex \<and> mock_ok s' \<and> sn \<notin> mock_taken s \<and> mock_taken s' = insert sn (mock_taken s)) \<or>
     (\<exists>e. r = Err e \<and> s' = s \<and> sn \<in> mock_taken s)"
proof (cases rule: findSubnet_cases [of "msr_subnets s" sn])
  case (found l i)
  then have "sn \<in> mock_taken s" unfolding mock_taken_def by (metis imageI nth_mem)
  with found assms(3) show ?thesis by (auto simp: msr_createSubnet_def)
next
  case missing
  with assms(3) obtain ex l where "r = Ok ex" "msr_subnets s' = msr_subnets s @ [l]" "lease_Subnet l = sn"
    "lease_IPv6Subnet l = empty_IP6Net"
    by (auto simp: msr_createSubnet_def Let_def dest!: sendSubnetEvent_bind)
  with missing assms(1,2) show ?thesis by (auto simp: mock_ok_def mock_taken_def)
qed

lemma mock_update:
  assumes "mock_ok s" "msr_updateSubnet sn sn6 a ttl asof s = Some (r, s')"
  shows "mock_ok s' \<and> mock_taken s' = mock_taken s \<and> (is_Ok r \<longrightarrow> sn \<in> mock_taken s)"
proof (cases rule: findSubnet_cases [of "msr_subnets s" sn])
  case (found l i)
  with assms(2) obtain l' where l': "msr_subnets s' = (msr_subnets s)[i := l']" "lease_Subnet l' = sn"
    "lease_IPv6Subnet l' = lease_IPv6Subnet l"
    by (auto simp: msr_updateSubnet_def Let_def dest!: sendSubnetEvent_bind)
  have "map lease_Subnet (msr_subnets s') = map lease_Subnet (msr_subnets s)"
    using found l' by (simp add: map_update list_update_same_conv)
  moreover from this have "mock_taken s' = mock_taken s" unfolding mock_taken_def by (metis set_map)
  moreover have "l \<in> set (msr_subnets s)" using found nth_mem by metis
  moreover have "set (msr_subnets s') \<subseteq> insert l' (set (msr_subnets s))" using l'(1) set_update_subset_insert by metis
  ultimately show ?thesis using assms(1) found(4) l' by (auto simp: mock_ok_def mock_taken_def)
next
  case missing
  with assms have "s' = bump s" "\<not> is_Ok r" by (auto simp: msr_updateSubnet_def Let_def)
  with assms(1) show ?thesis using mock_subnets_cong [of "bump s" s] by simp
qed

lemma mock_delete:
  assumes "mock_ok s" "msr_deleteSubnet sn sn6 s = Some (r, s')"
  shows "mock_ok s' \<and> mock_taken s' = mock_taken s - {sn}"
proof (cases rule: findSubnet_cases [of "msr_subnets s" sn])
  case (found l i)
  with assms(2) have s': "msr_subnets s' = butlast ((msr_subnets s)[i := last (msr_subnets s)])"
    by (auto simp: msr_deleteSubnet_def Let_def dest!: sendSubnetEvent_cases)
  let ?f = "map lease_Subnet (msr_subnets s)"
  have ne: "msr_subnets s \<noteq> []" using found(2) by auto
  then have m: "map lease_Subnet (msr_subnets s') = butlast (?f[i := last ?f])"
    by (simp add: s' map_butlast map_update last_map)
  have "set (butlast (?f[i := last ?f])) = set ?f - {?f ! i} \<and> distinct (butlast (?f[i := last ?f]))"
    by (rule set_swap_delete) (use assms(1) found in \<open>simp_all add: mock_ok_def\<close>)
  then have "mock_taken s' = mock_taken s - {sn}" "distinct (map lease_Subnet (msr_subnets s'))"
    using found unfolding mock_taken_def by (metis m nth_map set_map, metis m)
  moreover have "set (msr_subnets s') \<subseteq> set (msr_subnets s)"
    using s' in_set_butlastD set_update_subset_insert [of "msr_subnets s" i "last (msr_subnets s)"] last_in_set [OF ne]
    by (metis insert_absorb subset_eq)
  ultimately show ?thesis using assms(1) by (auto simp: mock_ok_def)
next
  case missing
  with assms have "s' = bump s" by (auto simp: msr_deleteSubnet_def Let_def)
  with assms(1) missing(2) show ?thesis using mock_subnets_cong [of "bump s" s] by (auto simp: mock_taken_def)
qed

interpretation mreg: subnet_registry mockSubnetRegistry mock_ok mock_taken
proof (unfold_locales, goal_cases)
  case (1 s r s')
  then show ?case by (auto simp: mockSubnetRegistry_def msr_getSubnets_def)
next
  case (2 s ls i s')
  then show ?case by (auto simp: mockSubnetRegistry_def msr_getSubnets_def mock_ok_def mock_taken_def)
next
  case (3 s sn)
  then show ?case by (auto simp: mock_ok_def mock_taken_def)
next
  case (4 s sn a ttl ex s')
  then show ?case using mock_create [of s sn empty_IP6Net a ttl "Ok ex" s'] by (simp add: mockSubnetRegistry_def)
next
  case (5 s sn a ttl e s')
  then show ?case using mock_create [of s sn empty_IP6Net a ttl "Err e" s'] by (auto simp: mockSubnetRegistry_def)
next
  case (6 s sn a ttl asof ur s')
  then show ?case using mock_update [of s sn empty_IP6Net a ttl asof ur s'] by (auto simp: mockSubnetRegistry_def)
next
  case (7 s sn a ttl asof ex s')
  then show ?case using mock_update [of s sn empty_IP6Net a ttl asof "Ok ex" s'] by (auto simp: mockSubnetRegistry_def)
next
  case (8 s sn dr s')
  then show ?case using mock_delete [of s sn empty_IP6Net dr s'] by (auto simp: mockSubnetRegistry_def)
next
  case (9 s sn u s')
  then show ?case using mock_delete [of s sn empty_IP6Net "Ok u" s'] by (auto simp: mockSubnetRegistry_def)
qed

end
