(* ===== verification/Local_Manager.thy ===== *)
theory Local_Manager
  imports Mock_Registry
begin

text \<open>
  \<open>pkg/subnet/etcd/local_manager.go\<close>: the subnet manager on top of a registry. The
  registry is the record of \<open>Registry_Contract\<close>; the random numbers are drawn from a parameter, one function
  per draw.
\<close>

section \<open>The manager\<close>

record 's LocalManager =
  lm_registry :: "'s Registry"
  lm_previousSubnet :: IP4Net
  lm_previousIPv6Subnet :: IP6Net
  lm_subnetLeaseRenewMargin :: int

definition newLocalManager :: "'s Registry \<Rightarrow> IP4Net \<Rightarrow> IP6Net \<Rightarrow> int \<Rightarrow> 's LocalManager" where
  "newLocalManager r prevSubnet prevIPv6Subnet margin =
     \<lparr>lm_registry = r, lm_previousSubnet = prevSubnet, lm_previousIPv6Subnet = prevIPv6Subnet,
      lm_subnetLeaseRenewMargin = margin\<rparr>"

definition NewMockManager :: "MockSubnetRegistry LocalManager" where
  "NewMockManager = newLocalManager mockSubnetRegistry empty_IP4Net empty_IP6Net 60"

definition NewMockManagerWithSubnet :: "IP4Net \<Rightarrow> IP6Net \<Rightarrow> MockSubnetRegistry LocalManager" where
  "NewMockManagerWithSubnet sn sn6 = newLocalManager mockSubnetRegistry sn sn6 60"

definition raceRetries :: nat where "raceRetries = 10"

definition subnetTTL :: int where "subnetTTL = 24 * 3600 * Second"

definition isErrEtcdNodeExist :: "goerror \<Rightarrow> bool" where
  "isErrEtcdNodeExist e \<longleftrightarrow> e = ErrDuplicateKey"

definition GetNetworkConfig :: "'s LocalManager \<Rightarrow> ('s, Config) io" where
  "GetNetworkConfig m =
     io_bind (rg_getNetworkConfig (lm_registry m)) (\<lambda>cfg.
     io_bind (io_of (ParseConfig cfg)) (\<lambda>config. io_of (CheckNetworkConfig config)))"

definition findLeaseByIP :: "Lease list \<Rightarrow> IP4 \<Rightarrow> Lease option" where
  "findLeaseByIP leases pubIP = find (\<lambda>l. pubIP = la_PublicIP (lease_Attrs l)) leases"

definition findLeaseBySubnet :: "Lease list \<Rightarrow> IP4Net \<Rightarrow> Lease option" where
  "findLeaseBySubnet leases sn = find (\<lambda>l. IP4Net_Equal sn (lease_Subnet l)) leases"

definition isSubnetConfigCompat :: "Config \<Rightarrow> IP4Net \<Rightarrow> bool" where
  "isSubnetConfigCompat config sn \<longleftrightarrow>
     \<not> (ip4_IP sn < cfg_SubnetMin config \<or> ip4_IP sn > cfg_SubnetMax config) \<and>
     ip4_PrefixLen sn = cfg_SubnetLen config"

text \<open>The comparisons read the configured bounds, which are nil unless IPv6 was checked.\<close>

definition isIPv6SubnetConfigCompat :: "Config \<Rightarrow> IP6Net \<Rightarrow> bool go" where
  "isIPv6SubnetConfigCompat config sn6 =
     (if \<not> cfg_EnableIPv6 config then Ok (IP6Net_Empty sn6)
      else if IP6Net_Empty sn6 then Ok False
      else
        go_bind (IP6_Cmp (ip6_IP sn6) (cfg_IPv6SubnetMin config)) (\<lambda>lo.
          if lo < 0 then Ok False
          else go_bind (IP6_Cmp (ip6_IP sn6) (cfg_IPv6SubnetMax config)) (\<lambda>hi.
            if hi > 0 then Ok False else Ok (ip6_PrefixLen sn6 = cfg_IPv6SubnetLen config))))"

definition compatible :: "Config \<Rightarrow> IP4Net \<Rightarrow> IP6Net \<Rightarrow> bool go" where
  "compatible config sn sn6 =
     (if isSubnetConfigCompat config sn then isIPv6SubnetConfigCompat config sn6 else Ok False)"

section \<open>Choosing a subnet\<close>

text \<open>\<open>rnd.Int31n\<close> is the parameter \<open>int31n\<close>; the bound is converted to 32 bits.\<close>

definition randInt :: "(int \<Rightarrow> int) \<Rightarrow> int \<Rightarrow> int \<Rightarrow> int" where
  "randInt int31n lo hi = lo + int31n ((hi - lo + 2 ^ 31) mod 2 ^ 32 - 2 ^ 31)"

text \<open>The search loop over the IPv4 range: the subnet at hand and the free ones so far.\<close>

definition free4 :: "Lease list \<Rightarrow> IP4Net \<Rightarrow> bool" where
  "free4 leases sn \<longleftrightarrow> (\<forall>l \<in> set leases. \<not> IP4Net_Overlaps sn (lease_Subnet l))"

definition search4 :: "Config \<Rightarrow> Lease list \<Rightarrow> (IP4Net \<times> IP4 list) go option" where
  "search4 config leases =
     go_while
       (\<lambda>(sn, avail). Ok (ip4_IP sn \<le> cfg_SubnetMax config \<and> length avail < 100))
       (\<lambda>(sn, avail). Ok (IP4Net_Next sn, if free4 leases sn then avail @ [ip4_IP sn] else avail))
       (\<lparr>ip4_IP = cfg_SubnetMin config, ip4_PrefixLen = cfg_SubnetLen config\<rparr>, [])"

fun free6 :: "Lease list \<Rightarrow> IP6Net \<Rightarrow> bool go" where
  "free6 [] sn6 = Ok True"
| "free6 (l # ls) sn6 =
     go_bind (IP6Net_Overlaps sn6 (lease_IPv6Subnet l)) (\<lambda>taken. if taken then Ok False else free6 ls sn6)"

definition search6 :: "Config \<Rightarrow> Lease list \<Rightarrow> IP6Net \<Rightarrow> (IP6Net \<times> IP6ptr list) go option" where
  "search6 config leases start =
     go_while
       (\<lambda>(sn6, avail).
          go_bind (IP6_Cmp (ip6_IP sn6) (cfg_IPv6SubnetMax config)) (\<lambda>c. Ok (c \<le> 0 \<and> length avail < 100)))
       (\<lambda>(sn6, avail).
          go_bind (free6 leases sn6) (\<lambda>f.
          go_bind (IP6Net_Next sn6) (\<lambda>nxt. Ok (nxt, if f then avail @ [ip6_IP sn6] else avail))))
       (start, [])"

definition pick :: "(int \<Rightarrow> int) \<Rightarrow> 'a list \<Rightarrow> 'a go" where
  "pick int31n xs =
     (let i = randInt int31n 0 (int (length xs)) in
      if 0 \<le> i \<and> i < int (length xs) then Ok (xs ! nat i) else Panic IndexRange)"

definition errOutOfSubnets :: goerror where "errOutOfSubnets = ErrorString ''out of subnets''"

text \<open>
  The final choice. Whether the IPv6 half takes part is decided by the state the IPv6 search
  left its subnet in.
\<close>

definition choose_free ::
  "(nat \<Rightarrow> int \<Rightarrow> int) \<Rightarrow> Config \<Rightarrow> IP4 list \<Rightarrow> IP6Net \<Rightarrow> IP6ptr list \<Rightarrow> (IP4Net \<times> IP6Net) go" where
  "choose_free rnd config avail sn6 avail6 =
     (if avail = [] \<or> (\<not> IP6Net_Empty sn6 \<and> avail6 = []) then Err errOutOfSubnets
      else
        go_bind (pick (rnd 0) avail) (\<lambda>a.
          let ipnet = \<lparr>ip4_IP = a, ip4_PrefixLen = cfg_SubnetLen config\<rparr> in
          if IP6Net_Empty sn6 then Ok (ipnet, empty_IP6Net)
          else go_bind (pick (rnd 1) avail6) (\<lambda>b.
            Ok (ipnet, \<lparr>ip6_IP = b, ip6_PrefixLen = cfg_IPv6SubnetLen config\<rparr>))))"

definition allocateSubnet ::
  "(nat \<Rightarrow> int \<Rightarrow> int) \<Rightarrow> Config \<Rightarrow> Lease list \<Rightarrow> (IP4Net \<times> IP6Net) go option" where
  "allocateSubnet rnd config leases =
     (let sn6 = (if cfg_EnableIPv6 config
                 then \<lparr>ip6_IP = cfg_IPv6SubnetMin config, ip6_PrefixLen = cfg_IPv6SubnetLen config\<rparr>
                 else empty_IP6Net) in
      case search4 config leases of
        Some (Ok (_, avail)) \<Rightarrow>
          if IP6Net_Empty sn6 then Some (choose_free rnd config avail sn6 [])
          else
            (case search6 config leases sn6 of
               None \<Rightarrow> None
             | Some (Ok (sn6', avail6)) \<Rightarrow> Some (choose_free rnd config avail sn6' avail6)
             | Some (Err e) \<Rightarrow> Some (Err e)
             | Some (Panic p) \<Rightarrow> Some (Panic p))
      | Some (Err e) \<Rightarrow> Some (Err e)
      | Some (Panic p) \<Rightarrow> Some (Panic p)
      | None \<Rightarrow> None)"

section \<open>Acquiring, renewing and watching leases\<close>

text \<open>
  \<open>tryAcquireLease\<close> in the parts between its registry calls: reusing the lease that carries
  the node's address, choosing a subnet, creating it.
\<close>

definition reuse_lease :: "'s LocalManager \<Rightarrow> LeaseAttrs \<Rightarrow> Lease \<Rightarrow> ('s, Lease) io" where
  "reuse_lease m attrs l =
     io_bind (rg_updateSubnet (lm_registry m) (lease_Subnet l) (lease_IPv6Subnet l) attrs
                (if lease_Expiration l \<noteq> 0 then subnetTTL else 0) 0)
       (\<lambda>ex. io_ret (l\<lparr>lease_Attrs := attrs, lease_Expiration := ex\<rparr>))"

definition previous_choice :: "'s LocalManager \<Rightarrow> Config \<Rightarrow> Lease list \<Rightarrow> (IP4Net \<times> IP6Net) go" where
  "previous_choice m config leases =
     (if \<not> IP4Net_Empty (lm_previousSubnet m) \<and> findLeaseBySubnet leases (lm_previousSubnet m) = None then
        go_bind (compatible config (lm_previousSubnet m) (lm_previousIPv6Subnet m)) (\<lambda>c.
          Ok (if c then (lm_previousSubnet m, lm_previousIPv6Subnet m) else (empty_IP4Net, empty_IP6Net)))
      else Ok (empty_IP4Net, empty_IP6Net))"

definition choose_subnet ::
  "'s LocalManager \<Rightarrow> (nat \<Rightarrow> int \<Rightarrow> int) \<Rightarrow> Config \<Rightarrow> Lease list \<Rightarrow> (IP4Net \<times> IP6Net) go option" where
  "choose_subnet m rnd config leases =
     (case previous_choice m config leases of
        Ok (sn, sn6) \<Rightarrow> if IP4Net_Empty sn then allocateSubnet rnd config leases else Some (Ok (sn, sn6))
      | Err e \<Rightarrow> Some (Err e)
      | Panic p \<Rightarrow> Some (Panic p))"

definition create_lease ::
  "'s LocalManager \<Rightarrow> LeaseAttrs \<Rightarrow> IP4Net \<times> IP6Net \<Rightarrow> ('s, Lease) io" where
  "create_lease m attrs chosen =
     (case chosen of (sn, sn6) \<Rightarrow>
        io_try (rg_createSubnet (lm_registry m) sn sn6 attrs subnetTTL)
          (\<lambda>ex. io_ret \<lparr>lease_EnableIPv4 = True, lease_EnableIPv6 = \<not> IP6Net_Empty sn6, lease_Subnet = sn,
                        lease_IPv6Subnet = sn6, lease_Attrs = attrs, lease_Expiration = ex, lease_Asof = 0\<rparr>)
          (\<lambda>e. io_err (if isErrEtcdNodeExist e then errTryAgain else e)))"

definition tryAcquireLease ::
  "'s LocalManager \<Rightarrow> (nat \<Rightarrow> int \<Rightarrow> int) \<Rightarrow> Config \<Rightarrow> IP4 \<Rightarrow> LeaseAttrs \<Rightarrow> ('s, Lease) io" where
  "tryAcquireLease m rnd config extIaddr attrs =
     io_bind (rg_getSubnets (lm_registry m)) (\<lambda>(leases, _).
       let fresh = io_bind (io_returns (choose_subnet m rnd config leases)) (create_lease m attrs) in
       case findLeaseByIP leases extIaddr of
         Some l \<Rightarrow>
           io_bind (io_of (compatible config (lease_Subnet l) (lease_IPv6Subnet l))) (\<lambda>c.
             if c then reuse_lease m attrs l
             else io_bind (rg_deleteSubnet (lm_registry m) (lease_Subnet l) (lease_IPv6Subnet l)) (\<lambda>_. fresh))
       | None \<Rightarrow> fresh)"

fun acquire_loop ::
  "nat \<Rightarrow> 's LocalManager \<Rightarrow> (nat \<Rightarrow> nat \<Rightarrow> int \<Rightarrow> int) \<Rightarrow> Config \<Rightarrow> LeaseAttrs \<Rightarrow> ('s, Lease) io" where
  "acquire_loop 0 m rnd config attrs =
     io_err (ErrorString ''max retries reached trying to acquire a subnet'')"
| "acquire_loop (Suc n) m rnd config attrs =
     io_try (tryAcquireLease m (rnd n) config (la_PublicIP attrs) attrs) io_ret
       (\<lambda>e. if e = errTryAgain then acquire_loop n m rnd config attrs else io_err e)"

definition AcquireLease ::
  "'s LocalManager \<Rightarrow> (nat \<Rightarrow> nat \<Rightarrow> int \<Rightarrow> int) \<Rightarrow> LeaseAttrs \<Rightarrow> ('s, Lease) io" where
  "AcquireLease m rnd attrs =
     io_bind (GetNetworkConfig m) (\<lambda>config. acquire_loop raceRetries m rnd config attrs)"

definition RenewLease :: "'s LocalManager \<Rightarrow> Lease \<Rightarrow> ('s, Lease) io" where
  "RenewLease m l =
     io_bind (rg_updateSubnet (lm_registry m) (lease_Subnet l) (lease_IPv6Subnet l) (lease_Attrs l) subnetTTL 0)
       (\<lambda>ex. io_ret (l\<lparr>lease_Expiration := ex\<rparr>))"

definition leaseWatchReset :: "'s LocalManager \<Rightarrow> IP4Net \<Rightarrow> IP6Net \<Rightarrow> ('s, LeaseWatchResult) io" where
  "leaseWatchReset m sn sn6 =
     io_bind (rg_getSubnet (lm_registry m) sn sn6) (\<lambda>(l, index).
       io_ret (empty_wr\<lparr>wr_Snapshot := [l], wr_Cursor := Some (WatchCursor index)\<rparr>))"

text \<open>
  \<open>WatchLease\<close> and \<open>WatchLeases\<close> up to the registry's watch loop: the first result sent to the
  receiver and the state in which the loop starts.
\<close>

definition lm_WatchLease :: "'s LocalManager \<Rightarrow> IP4Net \<Rightarrow> IP6Net \<Rightarrow> ('s, watch_state) io" where
  "lm_WatchLease m sn sn6 =
     io_bind (leaseWatchReset m sn sn6) (\<lambda>wr.
     io_bind (io_of (getNextIndex (wr_Cursor wr))) (\<lambda>nextIndex.
       io_ret ((watch_start nextIndex)\<lparr>ws_sent := [[wr]]\<rparr>)))"

definition lm_WatchLeases :: "'s LocalManager \<Rightarrow> ('s, watch_state) io" where
  "lm_WatchLeases m =
     io_bind (rg_leasesWatchReset (lm_registry m)) (\<lambda>wr.
     io_bind (io_of (getNextIndex (wr_Cursor wr))) (\<lambda>nextIndex.
       io_ret ((watch_start nextIndex)\<lparr>ws_sent := [[wr]]\<rparr>)))"

text \<open>
  \<open>CompleteLease\<close>: the loop that renews the node's lease before it expires. It waits for its
  timer or for an event on its own lease; \<open>now\<close> is \<open>time.Now\<close>.
\<close>

datatype complete_input = RenewTimer | OwnEvent Event | EventsClosed

datatype complete_outcome = Monitoring Lease int | Finished goerror

definition errCanceled :: goerror where "errCanceled = ErrorString ''canceled''"

definition errInterrupted :: goerror where "errInterrupted = ErrorString ''interrupted''"

definition renewMargin :: "'s LocalManager \<Rightarrow> int" where
  "renewMargin m = int64 (lm_subnetLeaseRenewMargin m * (60 * Second))"

text \<open>\<open>time.Until\<close> saturates at the limits of \<open>time.Duration\<close>; the subtraction wraps around.\<close>

definition time_Until :: "int \<Rightarrow> int \<Rightarrow> int" where
  "time_Until t now = max (- (2 ^ 63)) (min (2 ^ 63 - 1) (t - now))"

definition renew_wait :: "'s LocalManager \<Rightarrow> Lease \<Rightarrow> int \<Rightarrow> int" where
  "renew_wait m l now = int64 (time_Until (lease_Expiration l) now - renewMargin m)"

definition complete_step ::
  "'s LocalManager \<Rightarrow> ('s \<Rightarrow> int) \<Rightarrow> Lease \<Rightarrow> int \<Rightarrow> complete_input \<Rightarrow> ('s, complete_outcome) io" where
  "complete_step m now myLease dur inp =
     (case inp of
        RenewTimer \<Rightarrow>
          io_try (RenewLease m myLease)
            (\<lambda>l w. io_ret (Monitoring l (renew_wait m l (now w))) w)
            (\<lambda>_. io_ret (Monitoring myLease (60 * Second)))
      | EventsClosed \<Rightarrow> io_ret (Finished errCanceled)
      | OwnEvent e \<Rightarrow>
          (case ev_Type e of
             EventAdded \<Rightarrow>
               (\<lambda>w. let l = myLease\<lparr>lease_Expiration := lease_Expiration (ev_Lease e)\<rparr> in
                    io_ret (Monitoring l (renew_wait m l (now w))) w)
           | EventRemoved \<Rightarrow> io_ret (Finished errInterrupted)))"

definition watchCursor_String :: "int \<Rightarrow> string" where
  "watchCursor_String index = int_dec index"

definition lm_GetStoredMacAddresses :: "'s LocalManager \<Rightarrow> string \<times> string" where
  "lm_GetStoredMacAddresses m = ([], [])"

definition lm_GetStoredPublicIP :: "'s LocalManager \<Rightarrow> string \<times> string" where
  "lm_GetStoredPublicIP m = ([], [])"

definition lm_Name :: "'s LocalManager \<Rightarrow> string" where
  "lm_Name m =
     ''Etcd Local Manager with Previous Subnet: '' @
     (if IP4Net_Empty (lm_previousSubnet m) then ''None'' else IP4Net_String (lm_previousSubnet m))"

lemmas [go_eval] =
  newLocalManager_def NewMockManager_def
  NewMockManagerWithSubnet_def raceRetries_def subnetTTL_def isErrEtcdNodeExist_def GetNetworkConfig_def
  findLeaseByIP_def findLeaseBySubnet_def isSubnetConfigCompat_def isIPv6SubnetConfigCompat_def compatible_def
  randInt_def free4_def search4_def search6_def pick_def errOutOfSubnets_def choose_free_def allocateSubnet_def
  reuse_lease_def previous_choice_def choose_subnet_def create_lease_def tryAcquireLease_def AcquireLease_def
  RenewLease_def leaseWatchReset_def lm_WatchLease_def lm_WatchLeases_def errCanceled_def errInterrupted_def
  renewMargin_def time_Until_def renew_wait_def complete_step_def lm_Name_def
  watchCursor_String_def lm_GetStoredMacAddresses_def lm_GetStoredPublicIP_def

section \<open>The search for free subnets\<close>

abbreviation pool_net :: "Config \<Rightarrow> IP4 \<Rightarrow> IP4Net" where
  "pool_net c a \<equiv> \<lparr>ip4_IP = a, ip4_PrefixLen = cfg_SubnetLen c\<rparr>"

definition pool_size :: "Config \<Rightarrow> nat" where
  "pool_size c = 2 ^ (32 - unat (cfg_SubnetLen c))"

text \<open>What an accepted configuration says about the range, and that the range ends below the top.\<close>

definition pool_ok :: "Config \<Rightarrow> bool" where
  "pool_ok c \<longleftrightarrow> unat (cfg_SubnetLen c) \<le> 30 \<and> ip4_aligned (pool_net c (cfg_SubnetMin c)) \<and>
     ip4_aligned (pool_net c (cfg_SubnetMax c))"

definition below_top :: "Config \<Rightarrow> bool" where
  "below_top c \<longleftrightarrow> unat (cfg_SubnetMax c) + pool_size c < 2 ^ 32"

definition in_pool :: "Config \<Rightarrow> IP4Net \<Rightarrow> bool" where
  "in_pool c sn \<longleftrightarrow> ip4_PrefixLen sn = cfg_SubnetLen c \<and> ip4_aligned sn \<and>
     cfg_SubnetMin c \<le> ip4_IP sn \<and> ip4_IP sn \<le> cfg_SubnetMax c"

lemma pool_wf: "pool_ok c \<Longrightarrow> ip4_wf (pool_net c a)"
  by (simp add: pool_ok_def ip4_wf_def word_le_nat_alt)

lemma pool_bits: "2 ^ ip4_bits (pool_net c a) = pool_size c"
  by (simp add: pool_size_def ip4_bits_def)

lemma pool_size_pos [simp]: "0 < pool_size c"
  by (simp add: pool_size_def)

lemma pool_size_ge: "1 \<le> pool_size c"
  by (simp add: Suc_leI)

lemma unat_lt_32: "unat (a :: IP4) < 2 ^ 32"
  using unsigned_less [of a] by simp

lemma pool_aligned_iff: "pool_ok c \<Longrightarrow> ip4_aligned (pool_net c a) \<longleftrightarrow> pool_size c dvd unat a"
  using aligned_iff [OF pool_wf, of c a] by (simp add: pool_bits)

definition grid_ip :: "Config \<Rightarrow> nat \<Rightarrow> IP4" where
  "grid_ip c k = of_nat (unat (cfg_SubnetMin c) + k * pool_size c)"

definition grid_count :: "Config \<Rightarrow> nat" where
  "grid_count c = (unat (cfg_SubnetMax c) + pool_size c - unat (cfg_SubnetMin c)) div pool_size c"

definition grid :: "Config \<Rightarrow> IP4 list" where
  "grid c = map (grid_ip c) [0..<grid_count c]"

lemma grid_count_mult:
  assumes "pool_ok c"
  shows "grid_count c * pool_size c = unat (cfg_SubnetMax c) + pool_size c - unat (cfg_SubnetMin c)"
proof -
  have "pool_size c dvd unat (cfg_SubnetMax c) + pool_size c - unat (cfg_SubnetMin c)"
    using assms pool_aligned_iff [OF assms] by (simp add: pool_ok_def dvd_diff_nat)
  then show ?thesis by (simp add: grid_count_def)
qed

lemma unat_grid_ip:
  assumes "pool_ok c" "below_top c" "k \<le> grid_count c"
  shows "unat (grid_ip c k) = unat (cfg_SubnetMin c) + k * pool_size c"
proof -
  have "k * pool_size c \<le> grid_count c * pool_size c" using assms(3) by simp
  also have "\<dots> = unat (cfg_SubnetMax c) + pool_size c - unat (cfg_SubnetMin c)" by (rule grid_count_mult [OF assms(1)])
  finally have "unat (cfg_SubnetMin c) + k * pool_size c < 2 ^ 32"
    using assms(2) unat_lt_32 [of "cfg_SubnetMin c"] unfolding below_top_def by (simp add: le_diff_conv2)
  then show ?thesis unfolding grid_ip_def by (rule unat_of_nat_32)
qed

lemma grid_ip_le:
  assumes "pool_ok c" "below_top c" "k \<le> grid_count c"
  shows "grid_ip c k \<le> cfg_SubnetMax c \<longleftrightarrow> k < grid_count c"
proof -
  let ?s = "pool_size c" and ?lo = "unat (cfg_SubnetMin c)" and ?hi = "unat (cfg_SubnetMax c)"
  have g: "grid_count c * ?s = ?hi + ?s - ?lo" by (rule grid_count_mult [OF assms(1)])
  have u: "grid_ip c k \<le> cfg_SubnetMax c \<longleftrightarrow> ?lo + k * ?s \<le> ?hi"
    by (simp add: word_le_nat_alt unat_grid_ip [OF assms])
  show ?thesis
  proof (cases "k < grid_count c")
    case True
    then have "Suc k * ?s \<le> grid_count c * ?s" by (intro mult_le_mono1) simp
    then have "?s + k * ?s \<le> ?hi + ?s - ?lo" using g by simp
    with pool_size_ge [of c] have "?lo + k * ?s \<le> ?hi" by linarith
    with True u show ?thesis by simp
  next
    case False
    with assms(3) have "k = grid_count c" by simp
    moreover from g pool_size_ge [of c] have "\<not> ?lo + grid_count c * ?s \<le> ?hi" by linarith
    ultimately have "\<not> ?lo + k * ?s \<le> ?hi" by simp
    with False u show ?thesis by simp
  qed
qed

lemma grid_next:
  assumes "pool_ok c"
  shows "IP4Net_Next (pool_net c (grid_ip c k)) = pool_net c (grid_ip c (Suc k))"
proof -
  have "ip4_IP (IP4Net_Next (pool_net c (grid_ip c k))) = grid_ip c k + of_nat (pool_size c)"
    using Next_step_word [OF pool_wf [OF assms]] by (simp add: pool_bits)
  also have "\<dots> = grid_ip c (Suc k)" by (simp add: grid_ip_def algebra_simps)
  finally show ?thesis by (simp add: IP4Net_Next_def)
qed

text \<open>The list offered is the first hundred free subnets of the range, in order.\<close>

lemma search4_result:
  assumes "pool_ok c" "below_top c"
  shows "\<exists>sn. search4 c leases =
     Some (Ok (sn, take 100 (filter (\<lambda>a. free4 leases (pool_net c a)) (grid c))))"
proof -
  let ?n = "grid_count c"
  let ?free = "\<lambda>k. filter (\<lambda>a. free4 leases (pool_net c a)) (map (grid_ip c) [0..<k])"
  define P where "P = (\<lambda>(sn, avail). \<exists>k \<le> ?n. sn = pool_net c (grid_ip c k) \<and> avail = ?free k \<and> length avail \<le> 100)"
  define more where "more = (\<lambda>(sn :: IP4Net, avail :: IP4 list). ip4_IP sn \<le> cfg_SubnetMax c \<and> length avail < 100)"
  define f where "f = (\<lambda>(sn :: IP4Net, avail :: IP4 list). 2 ^ 33 - unat (ip4_IP sn))"
  have start: "P (pool_net c (cfg_SubnetMin c), [])"
    by (simp add: P_def) (rule exI [of _ 0], simp add: grid_ip_def)
  have step: "\<exists>s'. (\<lambda>(sn, avail). Ok (IP4Net_Next sn, if free4 leases sn then avail @ [ip4_IP sn] else avail)) s = Ok s' \<and>
      P s' \<and> f s' < f s" if s: "P s" "more s" for s
  proof -
    obtain k where k: "k \<le> ?n" "s = (pool_net c (grid_ip c k), ?free k)" "length (?free k) < 100"
      "grid_ip c k \<le> cfg_SubnetMax c"
      using s by (auto simp: P_def more_def)
    have "k < ?n" using grid_ip_le [OF assms k(1)] k(4) by simp
    then have sk: "Suc k \<le> ?n" by simp
    have "f (pool_net c (grid_ip c (Suc k)), x) < f (pool_net c (grid_ip c k), y)" for x y
      using unat_grid_ip [OF assms sk] unat_grid_ip [OF assms k(1)] unat_lt_32 [of "grid_ip c k"] pool_size_ge [of c]
      by (simp add: f_def)
    with sk k show ?thesis
      by (auto simp: P_def grid_next [OF assms(1)] intro!: exI [of _ "Suc k"])
  qed
  have cond: "(\<lambda>(sn, avail). Ok (ip4_IP sn \<le> cfg_SubnetMax c \<and> length avail < 100)) s = Ok (more s)" for s
    by (cases s) (simp add: more_def)
  obtain s' where s': "search4 c leases = Some (Ok s')" "P s'" "\<not> more s'"
    using go_while_total [where P = P and more = more and f = f, OF start cond step] unfolding search4_def by blast
  obtain sn avail k where k: "s' = (sn, avail)" "k \<le> ?n" "sn = pool_net c (grid_ip c k)" "avail = ?free k" "length avail \<le> 100"
    using s'(2) by (auto simp: P_def)
  have split: "filter (\<lambda>a. free4 leases (pool_net c a)) (grid c) = ?free k @
      filter (\<lambda>a. free4 leases (pool_net c a)) (map (grid_ip c) [k..<?n])"
    unfolding grid_def using k(2) upt_add_eq_append [of 0 k "?n - k"] by simp
  have "take 100 (filter (\<lambda>a. free4 leases (pool_net c a)) (grid c)) = avail"
  proof (cases "grid_ip c k \<le> cfg_SubnetMax c")
    case True
    then have "length (?free k) = 100" using s'(3) k by (auto simp: more_def)
    with split k(4) show ?thesis by simp
  next
    case False
    then have "k = ?n" using grid_ip_le [OF assms k(2)] k(2) by simp
    with split k(4,5) show ?thesis by simp
  qed
  with s'(1) k(1) show ?thesis by simp
qed

lemma in_grid:
  assumes "pool_ok c" "below_top c"
  shows "a \<in> set (grid c) \<longleftrightarrow> in_pool c (pool_net c a)"
proof
  let ?s = "pool_size c" and ?lo = "unat (cfg_SubnetMin c)" and ?hi = "unat (cfg_SubnetMax c)"
  have lo: "?s dvd ?lo" using assms(1) pool_aligned_iff [OF assms(1)] by (simp add: pool_ok_def)
  {
    assume "a \<in> set (grid c)"
    then obtain k where k: "k < grid_count c" "a = grid_ip c k" by (auto simp: grid_def)
    then have "unat a = ?lo + k * ?s" using unat_grid_ip [OF assms] by simp
    moreover have "a \<le> cfg_SubnetMax c" using grid_ip_le [OF assms] k by simp
    ultimately show "in_pool c (pool_net c a)"
      using lo by (simp add: in_pool_def pool_aligned_iff [OF assms(1)] word_le_nat_alt)
  next
    assume "in_pool c (pool_net c a)"
    then have a: "?s dvd unat a" "?lo \<le> unat a" "unat a \<le> ?hi"
      by (simp_all add: in_pool_def pool_aligned_iff [OF assms(1)] word_le_nat_alt)
    from a(1,2) lo obtain k where k: "unat a = ?lo + k * ?s"
      by (metis dvd_diff_nat dvdE le_add_diff_inverse mult.commute)
    then have "k * ?s < grid_count c * ?s"
      using grid_count_mult [OF assms(1)] a(3) pool_size_ge [of c] by linarith
    then have "k < grid_count c" by simp
    moreover have "a = grid_ip c k" unfolding grid_ip_def k [symmetric] by simp
    ultimately show "a \<in> set (grid c)" by (auto simp: grid_def)
  }
qed


text \<open>A hundred free subnets or fewer: the random index is always valid.\<close>

definition int31n_ok :: "(nat \<Rightarrow> int \<Rightarrow> int) \<Rightarrow> bool" where
  "int31n_ok rnd \<longleftrightarrow> (\<forall>k n. 0 < n \<longrightarrow> 0 \<le> rnd k n \<and> rnd k n < n)"

lemma pick_in:
  assumes "int31n_ok rnd" "xs \<noteq> []" "length xs \<le> 100"
  shows "\<exists>x \<in> set xs. pick (rnd k) xs = Ok x"
proof -
  have "randInt (rnd k) 0 (int (length xs)) = rnd k (int (length xs))"
    using assms(3) by (simp add: randInt_def)
  moreover have "0 \<le> rnd k (int (length xs))" "rnd k (int (length xs)) < int (length xs)"
    using assms(1,2) by (simp_all add: int31n_ok_def)
  ultimately have "pick (rnd k) xs = Ok (xs ! nat (rnd k (int (length xs))))" "nat (rnd k (int (length xs))) < length xs"
    by (simp_all add: pick_def Let_def nat_less_iff)
  then show ?thesis by (metis nth_mem)
qed

definition pool_result :: "Config \<Rightarrow> Lease list \<Rightarrow> (IP4Net \<times> IP6Net) go \<Rightarrow> bool" where
  "pool_result c leases r \<longleftrightarrow>
     (case r of
        Ok (sn, sn6) \<Rightarrow> in_pool c sn \<and> free4 leases sn \<and> sn6 = empty_IP6Net
      | Err e \<Rightarrow> e = errOutOfSubnets \<and> (\<forall>sn. in_pool c sn \<longrightarrow> \<not> free4 leases sn)
      | Panic p \<Rightarrow> False)"

lemma allocate_v4:
  assumes "pool_ok c" "below_top c" "\<not> cfg_EnableIPv6 c" "int31n_ok rnd"
  shows "\<exists>r. allocateSubnet rnd c leases = Some r \<and> pool_result c leases r"
proof -
  let ?free = "filter (\<lambda>a. free4 leases (pool_net c a)) (grid c)"
  obtain sn where s: "search4 c leases = Some (Ok (sn, take 100 ?free))" using search4_result [OF assms(1,2)] by blast
  have a: "allocateSubnet rnd c leases = Some (choose_free rnd c (take 100 ?free) empty_IP6Net [])"
    using assms(3) s by (simp add: allocateSubnet_def IP6Net_Empty_def)
  have in_free: "in_pool c (pool_net c x) \<and> free4 leases (pool_net c x)" if "x \<in> set (take 100 ?free)" for x
  proof -
    have "x \<in> set (grid c)" "free4 leases (pool_net c x)" using in_set_takeD [OF that] by simp_all
    with in_grid [OF assms(1,2), of x] show ?thesis by simp
  qed
  show ?thesis
  proof (cases "?free = []")
    case True
    have "\<not> free4 leases sn" if "in_pool c sn" for sn
    proof -
      have "sn = pool_net c (ip4_IP sn)" using that by (simp add: in_pool_def)
      moreover have "ip4_IP sn \<in> set (grid c)" using in_grid [OF assms(1,2)] that calculation by metis
      ultimately show ?thesis using True by (metis filter_empty_conv)
    qed
    with True a show ?thesis by (simp add: choose_free_def pool_result_def)
  next
    case False
    obtain x where x: "x \<in> set (take 100 ?free)" "pick (rnd 0) (take 100 ?free) = Ok x"
      using pick_in [OF assms(4), of "take 100 ?free" 0] False by (auto simp: take_eq_Nil)
    then have "choose_free rnd c (take 100 ?free) empty_IP6Net [] = Ok (pool_net c x, empty_IP6Net)"
      using False by (simp add: choose_free_def IP6Net_Empty_def)
    with a in_free [OF x(1)] show ?thesis by (simp add: pool_result_def)
  qed
qed

text \<open>
  A range that ends at the top of the address space: the address behind its last subnet
  wraps around to zero, below the upper bound, so that the search goes on outside the range.
\<close>

definition at_top :: "Config \<Rightarrow> bool" where
  "at_top c \<longleftrightarrow> unat (cfg_SubnetMax c) + pool_size c = 2 ^ 32"

lemma at_top_le:
  assumes "pool_ok c" "at_top c" "ip4_aligned (pool_net c a)"
  shows "a \<le> cfg_SubnetMax c"
proof -
  let ?s = "pool_size c"
  have d: "?s dvd unat a" using assms(1,3) pool_aligned_iff by blast
  have "?s dvd 2 ^ 32" unfolding pool_size_def by (rule le_imp_power_dvd) simp
  with d have "?s dvd 2 ^ 32 - unat a" by (simp add: dvd_diff_nat)
  moreover have "0 < 2 ^ 32 - unat a" using unat_lt_32 [of a] by simp
  ultimately have "?s \<le> 2 ^ 32 - unat a" by (rule dvd_imp_le)
  then show ?thesis using assms(2) unat_lt_32 [of a] by (simp add: at_top_def word_le_nat_alt)
qed

lemma search4_at_top:
  assumes "pool_ok c" "at_top c"
  shows "search4 c leases = None \<or>
     (\<exists>sn avail. search4 c leases = Some (Ok (sn, avail)) \<and> length avail = 100 \<and>
        (\<forall>a \<in> set avail. free4 leases (pool_net c a)))"
proof -
  define P where "P = (\<lambda>(sn, avail :: IP4 list). sn = pool_net c (ip4_IP sn) \<and> ip4_aligned sn \<and>
      (\<forall>a \<in> set avail. free4 leases (pool_net c a)) \<and> length avail \<le> 100)"
  define more where "more = (\<lambda>(sn :: IP4Net, avail :: IP4 list). ip4_IP sn \<le> cfg_SubnetMax c \<and> length avail < 100)"
  have start: "P (pool_net c (cfg_SubnetMin c), [])" using assms(1) by (simp add: P_def pool_ok_def)
  have step: "\<exists>s'. (\<lambda>(sn, avail). Ok (IP4Net_Next sn, if free4 leases sn then avail @ [ip4_IP sn] else avail)) s = Ok s' \<and> P s'"
    if s: "P s" "more s" for s
  proof -
    obtain sn avail where sa: "s = (sn, avail)" by (cases s)
    then have sn: "sn = pool_net c (ip4_IP sn)" "ip4_aligned sn" using s(1) by (simp_all add: P_def)
    have wf: "ip4_wf sn" using pool_wf [OF assms(1)] sn(1) by metis
    have "ip4_PrefixLen sn = cfg_SubnetLen c" using sn(1) by (metis IP4Net.select_convs(2))
    then have "IP4Net_Next sn = pool_net c (ip4_IP (IP4Net_Next sn))" by (simp add: IP4Net_Next_def)
    with aligned_Next [OF wf sn(2)] s sn sa show ?thesis by (auto simp: P_def more_def)
  qed
  have cond: "(\<lambda>(sn, avail). Ok (ip4_IP sn \<le> cfg_SubnetMax c \<and> length avail < 100)) s = Ok (more s)" for s
    by (cases s) (simp add: more_def)
  have exit: "length (snd s') = 100" if "P s'" "\<not> more s'" for s'
  proof -
    obtain sn avail where sa: "s' = (sn, avail)" by (cases s')
    then have sn: "sn = pool_net c (ip4_IP sn)" "ip4_aligned sn" using that(1) by (simp_all add: P_def)
    have "ip4_IP sn \<le> cfg_SubnetMax c" by (rule at_top_le [OF assms]) (use sn in metis)
    with that sa show ?thesis by (auto simp: P_def more_def)
  qed
  have "search4 c leases = None \<or> (\<exists>s'. search4 c leases = Some (Ok s') \<and> P s' \<and> \<not> more s')"
    unfolding search4_def by (rule go_while_partial [where P = P and more = more]) (rule start cond step; assumption?)+
  then show ?thesis
  proof (elim disjE exE conjE)
    fix s' assume s': "search4 c leases = Some (Ok s')" "P s'" "\<not> more s'"
    obtain sn avail where "s' = (sn, avail)" by (cases s')
    with s' exit [OF s'(2,3)] show ?thesis by (auto simp: P_def)
  qed simp
qed

lemma allocate_at_top:
  assumes "pool_ok c" "at_top c" "\<not> cfg_EnableIPv6 c" "int31n_ok rnd" "\<forall>sn. in_pool c sn \<longrightarrow> \<not> free4 leases sn"
  shows "allocateSubnet rnd c leases = None \<or>
     (\<exists>sn. allocateSubnet rnd c leases = Some (Ok (sn, empty_IP6Net)) \<and> \<not> in_pool c sn)"
  using search4_at_top [OF assms(1,2), of leases]
proof (elim disjE exE conjE)
  fix sn avail
  assume s: "search4 c leases = Some (Ok (sn, avail))" "length avail = 100"
    and fr: "\<forall>a \<in> set avail. free4 leases (pool_net c a)"
  then have "avail \<noteq> []" by auto
  from pick_in [OF assms(4) this, of 0] s(2) obtain x where x: "x \<in> set avail" "pick (rnd 0) avail = Ok x" by auto
  then have "allocateSubnet rnd c leases = Some (Ok (pool_net c x, empty_IP6Net))"
    using assms(3) s(1) \<open>avail \<noteq> []\<close> by (simp add: allocateSubnet_def choose_free_def IP6Net_Empty_def)
  with fr x(1) assms(5) show ?thesis by blast
qed (simp add: allocateSubnet_def)

section \<open>The manager on a registry that keeps the contract\<close>

lemma in_pool_nameable: "pool_ok c \<Longrightarrow> in_pool c sn \<Longrightarrow> nameable sn"
  by (simp add: in_pool_def pool_ok_def nameable_def word_less_nat_alt)

text \<open>Two different subnets of the pool have no address in common.\<close>

lemma in_pool_disjoint:
  assumes "pool_ok c" "in_pool c a" "in_pool c b" "IP4Net_Overlaps a b"
  shows "a = b"
proof -
  have ab: "a = pool_net c (ip4_IP a)" "b = pool_net c (ip4_IP b)" using assms(2,3) by (simp_all add: in_pool_def)
  have wf: "ip4_wf a" "ip4_wf b" using pool_wf [OF assms(1)] ab by metis+
  have bits: "ip4_bits a = ip4_bits b" using assms(2,3) by (simp add: in_pool_def ip4_bits_def)
  have "unat (ip4_IP a) div 2 ^ ip4_bits a = unat (ip4_IP b) div 2 ^ ip4_bits a"
    using Overlaps_div [OF wf] assms(4) bits by simp
  moreover have "2 ^ ip4_bits a dvd unat (ip4_IP a)" "2 ^ ip4_bits a dvd unat (ip4_IP b)"
    using aligned_iff [OF wf(1)] aligned_iff [OF wf(2)] assms(2,3) bits by (simp_all add: in_pool_def)
  ultimately have "unat (ip4_IP a) = unat (ip4_IP b)" by (metis dvd_div_mult_self)
  then have "ip4_IP a = ip4_IP b" by (simp add: word_unat_eq_iff)
  with ab show ?thesis by metis
qed

definition previous_ok :: "Config \<Rightarrow> 's LocalManager \<Rightarrow> bool" where
  "previous_ok c m \<longleftrightarrow>
     lm_previousIPv6Subnet m = empty_IP6Net \<and>
     (isSubnetConfigCompat c (lm_previousSubnet m) \<longrightarrow> ip4_aligned (lm_previousSubnet m))"

lemma compat_in_pool: "isSubnetConfigCompat c sn \<Longrightarrow> ip4_aligned sn \<Longrightarrow> in_pool c sn"
  by (simp add: isSubnetConfigCompat_def in_pool_def not_less)

lemma choose_subnet_in_pool:
  assumes "pool_ok c" "below_top c" "\<not> cfg_EnableIPv6 c" "int31n_ok rnd" "previous_ok c m"
  shows "\<exists>r. choose_subnet m rnd c ls = Some r \<and>
     (case r of Ok (sn, sn6) \<Rightarrow> in_pool c sn \<and> sn6 = empty_IP6Net \<and> sn \<notin> lease_Subnet ` set ls
              | Err e \<Rightarrow> e = errOutOfSubnets \<and> (\<forall>sn. in_pool c sn \<longrightarrow> \<not> free4 ls sn) | Panic p \<Rightarrow> False)"
proof -
  have free: "sn \<notin> lease_Subnet ` set ls" if "free4 ls sn" for sn using that by (auto simp: free4_def)
  have alloc: "\<exists>r. allocateSubnet rnd c ls = Some r \<and>
     (case r of Ok (sn, sn6) \<Rightarrow> in_pool c sn \<and> sn6 = empty_IP6Net \<and> sn \<notin> lease_Subnet ` set ls
              | Err e \<Rightarrow> e = errOutOfSubnets \<and> (\<forall>sn. in_pool c sn \<longrightarrow> \<not> free4 ls sn) | Panic p \<Rightarrow> False)"
  proof -
    obtain r where r: "allocateSubnet rnd c ls = Some r" "pool_result c ls r" using allocate_v4 [OF assms(1-4)] by blast
    then show ?thesis using free by (cases r) (auto simp: pool_result_def)
  qed
  let ?p = "lm_previousSubnet m"
  show ?thesis
  proof (cases "\<not> IP4Net_Empty ?p \<and> findLeaseBySubnet ls ?p = None \<and> isSubnetConfigCompat c ?p")
    case True
    then have "previous_choice m c ls = Ok (?p, empty_IP6Net)"
      using assms(3,5) by (simp add: previous_choice_def compatible_def isIPv6SubnetConfigCompat_def previous_ok_def IP6Net_Empty_def)
    moreover have "?p \<notin> lease_Subnet ` set ls" using True by (auto simp: findLeaseBySubnet_def find_None_iff)
    ultimately show ?thesis
      using True assms(5) compat_in_pool by (auto simp: choose_subnet_def previous_ok_def)
  next
    case False
    then have "previous_choice m c ls = Ok (empty_IP4Net, empty_IP6Net)"
      using assms(3,5) by (auto simp: previous_choice_def compatible_def isIPv6SubnetConfigCompat_def previous_ok_def)
    then have "choose_subnet m rnd c ls = allocateSubnet rnd c ls" by (simp add: choose_subnet_def IP4Net_Empty_def)
    with alloc show ?thesis by simp
  qed
qed

context subnet_registry
begin

definition within :: "Config \<Rightarrow> 's \<Rightarrow> bool" where
  "within c s \<longleftrightarrow> ok s \<and> (\<forall>sn \<in> taken s. in_pool c sn)"

lemma create_lease_step:
  assumes "lm_registry m = rg" "within c s" "pool_ok c" "in_pool c sn" "create_lease m attrs (sn, empty_IP6Net) s = Some (r, s')"
    "\<not> panics r"
  shows "within c s' \<and> (case r of
      Ok l \<Rightarrow> lease_Subnet l = sn \<and> sn \<notin> taken s \<and> taken s' = insert sn (taken s) \<and> lease_Attrs l = attrs
    | _ \<Rightarrow> taken s' = taken s \<or> taken s' = insert sn (taken s))"
proof -
  have nm: "nameable sn" by (rule in_pool_nameable [OF assms(3,4)])
  from assms(5) have "io_try (rg_createSubnet rg sn empty_IP6Net attrs subnetTTL)
      (\<lambda>ex. io_ret \<lparr>lease_EnableIPv4 = True, lease_EnableIPv6 = \<not> IP6Net_Empty empty_IP6Net, lease_Subnet = sn,
          lease_IPv6Subnet = empty_IP6Net, lease_Attrs = attrs, lease_Expiration = ex, lease_Asof = 0\<rparr>)
      (\<lambda>e. io_err (if isErrEtcdNodeExist e then errTryAgain else e)) s = Some (r, s')"
    by (simp add: create_lease_def assms(1))
  then show ?thesis
  proof (cases rule: io_try_cases)
    case (ok ex w)
    then show ?thesis using create_ok [OF _ nm ok(1)] assms(2,4) by (auto simp: within_def)
  next
    case (err e w)
    then show ?thesis using create_err [OF _ nm err(1)] assms(2,4) by (auto simp: within_def)
  next
    case (panic p)
    with assms(6) show ?thesis by simp
  qed
qed

text \<open>
  \<open>tryAcquireLease\<close> leaves a registry in which every lease is a subnet of the pool, and
  returns a lease that is registered there with the attributes of the node.
\<close>

lemma fresh_lease_step:
  assumes "lm_registry m = rg" "within c s" "pool_ok c" "below_top c" "\<not> cfg_EnableIPv6 c" "int31n_ok rnd" "previous_ok c m"
    and run: "io_bind (io_returns (choose_subnet m rnd c ls)) (create_lease m attrs) s = Some (r, s')" "\<not> panics r"
  shows "within c s' \<and> (\<forall>l. r = Ok l \<longrightarrow> lease_Subnet l \<in> taken s' \<and> lease_Attrs l = attrs)"
proof -
  obtain q where q: "choose_subnet m rnd c ls = Some q"
    "case q of Ok (sn, sn6) \<Rightarrow> in_pool c sn \<and> sn6 = empty_IP6Net \<and> sn \<notin> lease_Subnet ` set ls
       | Err e \<Rightarrow> e = errOutOfSubnets \<and> (\<forall>sn. in_pool c sn \<longrightarrow> \<not> free4 ls sn) | Panic p \<Rightarrow> False"
    using choose_subnet_in_pool [OF assms(3-7), of ls] by blast
  show ?thesis
  proof (cases q)
    case (Ok x)
    then obtain sn where x: "x = (sn, empty_IP6Net)" "in_pool c sn" using q(2) by (cases x) auto
    from run(1) q(1) Ok x(1) have "create_lease m attrs (sn, empty_IP6Net) s = Some (r, s')" by simp
    from create_lease_step [OF assms(1-3) x(2) this run(2)] show ?thesis by (cases r) auto
  next
    case (Err e)
    with run(1) q(1) assms(2) show ?thesis by auto
  next
    case (Panic p)
    with q(2) show ?thesis by simp
  qed
qed

lemma reuse_lease_step:
  assumes "lm_registry m = rg" "within c s" "pool_ok c" "lease_Subnet l \<in> taken s0" "in_pool c (lease_Subnet l)"
    "lease_IPv6Subnet l = empty_IP6Net" "reuse_lease m attrs l s = Some (r, s')"
  shows "within c s' \<and> (\<forall>l'. r = Ok l' \<longrightarrow> lease_Subnet l' \<in> taken s' \<and> lease_Attrs l' = attrs)"
proof -
  have nm: "nameable (lease_Subnet l)" by (rule in_pool_nameable [OF assms(3,5)])
  have ok: "ok s" using assms(2) by (simp add: within_def)
  have K: "within c w" if "rg_updateSubnet rg (lease_Subnet l) empty_IP6Net attrs ttl asof s = Some (ur, w)" for ttl asof ur w
    using update_keeps [OF ok nm that] assms(2,5) by (auto simp: within_def)
  from assms(7) [unfolded reuse_lease_def assms(1,6)] show ?thesis
  proof (cases rule: io_bind_cases)
    case (ok ex w)
    then show ?thesis using K [OF ok(1)] update_ok [OF \<open>ok s\<close> nm ok(1)] by auto
  next
    case (err e)
    then show ?thesis using K [OF err(1)] by simp
  next
    case (panic p)
    then show ?thesis using K [OF panic(1)] by simp
  qed
qed

lemma tryAcquireLease_step:
  assumes "lm_registry m = rg" "within c s" "pool_ok c" "below_top c" "\<not> cfg_EnableIPv6 c" "int31n_ok rnd" "previous_ok c m"
    and run: "tryAcquireLease m rnd c ext attrs s = Some (r, s')" "\<not> panics r"
  shows "within c s' \<and> (\<forall>l. r = Ok l \<longrightarrow> lease_Subnet l \<in> taken s' \<and> lease_Attrs l = attrs)"
proof -
  have ok: "ok s" using assms(2) by (simp add: within_def)
  from run(1) [unfolded tryAcquireLease_def assms(1)] show ?thesis
  proof (cases rule: io_bind_cases)
    case (ok x w)
    obtain ls i where x: "x = (ls, i)" by (cases x)
    have w: "within c w" "taken w = taken s" using list_keeps [OF \<open>ok s\<close> ok(1)] assms(2) by (auto simp: within_def)
    note fresh = fresh_lease_step [OF assms(1) _ assms(3-7) _ run(2)]
    show ?thesis
    proof (cases "findLeaseByIP ls ext")
      case None
      with ok(2) x have "io_bind (io_returns (choose_subnet m rnd c ls)) (create_lease m attrs) w = Some (r, s')" by simp
      from fresh [OF w(1) this] show ?thesis .
    next
      case (Some l)
      then have "l \<in> set ls" by (auto simp: findLeaseByIP_def find_Some_iff)
      then have l: "lease_Subnet l \<in> taken s" "lease_IPv6Subnet l = empty_IP6Net"
        using list_taken [OF \<open>ok s\<close> ok(1) [unfolded x]] by simp_all
      then have lp: "in_pool c (lease_Subnet l)" using assms(2) by (simp add: within_def)
      have "compatible c (lease_Subnet l) (lease_IPv6Subnet l) = Ok True"
        using lp l(2) assms(5)
        by (auto simp: compatible_def isIPv6SubnetConfigCompat_def IP6Net_Empty_def isSubnetConfigCompat_def in_pool_def)
      with ok(2) x Some have "reuse_lease m attrs l w = Some (r, s')" by simp
      from reuse_lease_step [OF assms(1) w(1) assms(3) l(1) lp l(2) this] show ?thesis .
    qed
  next
    case (err e)
    then show ?thesis using list_keeps [OF \<open>ok s\<close> err(1)] assms(2) by (simp add: within_def)
  next
    case (panic p)
    then show ?thesis using run(2) by simp
  qed
qed

end

section \<open>The errors of an attempt\<close>

text \<open>
  \<open>errs E m\<close>: every error \<open>m\<close> returns is in \<open>E\<close>. Only an error that is the etcd error for a
  duplicate key, which a transaction with a single put never returns, makes the manager try
  again.
\<close>

definition errs :: "goerror set \<Rightarrow> ('w, 'a) io \<Rightarrow> bool" where
  "errs E m \<longleftrightarrow> (\<forall>w e w'. m w = Some (Err e, w') \<longrightarrow> e \<in> E)"

named_theorems errs_intros

lemma errs_of [errs_intros]: "(\<And>e. r = Err e \<Longrightarrow> e \<in> E) \<Longrightarrow> errs E (io_of r)"
  by (simp add: errs_def)

lemma errs_returns [errs_intros]: "(\<And>e. r = Some (Err e) \<Longrightarrow> e \<in> E) \<Longrightarrow> errs E (io_returns r)"
  by (cases r) (auto simp: errs_def)

lemma errs_try_any:
  assumes "\<And>x. errs E (f x)" "\<And>e. errs E (g e)" shows "errs E (io_try m f g)"
  unfolding errs_def
proof (intro allI impI)
  fix w e w' assume "io_try m f g w = Some (Err e, w')"
  then show "e \<in> E" by (cases rule: io_try_cases) (use assms in \<open>unfold errs_def, blast+\<close>)
qed

lemma errs_try [errs_intros]:
  assumes "errs E m" "\<And>x. errs E (f x)" "\<And>e. e \<in> E \<Longrightarrow> errs E (g e)" shows "errs E (io_try m f g)"
  unfolding errs_def
proof (intro allI impI)
  fix w e w' assume "io_try m f g w = Some (Err e, w')"
  then show "e \<in> E" by (cases rule: io_try_cases) (use assms in \<open>unfold errs_def, blast+\<close>)
qed

lemma errs_bind [errs_intros]:
  assumes "errs E m" "\<And>x. errs E (f x)" shows "errs E (io_bind m f)"
  unfolding errs_def
proof (intro allI impI)
  fix w e w' assume "io_bind m f w = Some (Err e, w')"
  then show "e \<in> E" by (cases rule: io_bind_cases) (use assms in \<open>unfold errs_def, blast+\<close>)
qed

lemma errs_fold [errs_intros]: "(\<And>x b. errs E (f x b)) \<Longrightarrow> errs E (io_fold f xs acc)"
  by (induction xs arbitrary: acc) (auto intro!: errs_intros)

lemma errs_if [errs_intros]: "errs E a \<Longrightarrow> errs E b \<Longrightarrow> errs E (if c then a else b)"
  by simp

lemma errs_time_Now [errs_intros]: "errs E (time_Now ec)"
  by (simp add: errs_def)

definition final_errors :: "goerror set" where
  "final_errors = {e. e \<noteq> errTryAgain \<and> e \<noteq> ErrDuplicateKey}"

text \<open>The errors a client returns are not the manager's own, nor the duplicate-key error.\<close>

definition etcd_errors_final :: "'w etcd \<Rightarrow> bool" where
  "etcd_errors_final ec \<longleftrightarrow>
     (\<forall>key pre. errs final_errors (etcd_Get ec key pre)) \<and> (\<forall>l. errs final_errors (etcd_TimeToLive ec l)) \<and>
     (\<forall>n. errs final_errors (etcd_Grant ec n)) \<and> (\<forall>cmp put. errs final_errors (etcd_Txn ec cmp put)) \<and>
     (\<forall>k v l. errs final_errors (etcd_Put ec k v l)) \<and> (\<forall>k. errs final_errors (etcd_Delete ec k))"

lemma IP6_String_no_err [simp]: "\<not> fails (IP6_String v)"
  by (auto simp: IP6_String_def IP6_ToIP_def FillBytes_def)

lemma subnet_path_no_err [simp]: "\<not> fails (subnet_path prefix sn sn6)"
  by (auto simp: subnet_path_def MakeSubnetKey_def IP6Net_StringSep_def)

lemma Marshal_err: "LeaseAttrs_Marshal a = Err e \<Longrightarrow> e \<in> final_errors"
  by (auto simp: LeaseAttrs_Marshal_def raw_member_def RawMessage_Marshal_def final_errors_def json_syntax_error_def
      errTryAgain_def split: option.splits if_splits)

lemma esr_errs:
  assumes "etcd_errors_final ec"
  shows "errs final_errors (esr_getSubnets ec prefix)"
    "errs final_errors (esr_createSubnet ec prefix sn sn6 a ttl)"
    "errs final_errors (esr_updateSubnet ec prefix sn sn6 a ttl asof)"
    "errs final_errors (esr_deleteSubnet ec prefix sn sn6)"
proof -
  note c = assms [unfolded etcd_errors_final_def]
  have own: "errSubnetAlreadyexists \<in> final_errors"
    by (simp add: final_errors_def errTryAgain_def errSubnetAlreadyexists_def)
  have calls: "errs final_errors (etcd_Get ec key pre)" "errs final_errors (etcd_TimeToLive ec l)"
    "errs final_errors (etcd_Grant ec n)" "errs final_errors (etcd_Txn ec cmp put)"
    "errs final_errors (etcd_Put ec k v l)" "errs final_errors (etcd_Delete ec k)" for key pre l n cmp put k v
    using c by blast+
  have path: "errs final_errors (io_of (subnet_path prefix sn sn6))" "errs final_errors (io_of (LeaseAttrs_Marshal a))"
    using subnet_path_no_err [of prefix sn sn6] Marshal_err by (auto simp: fails_iff intro!: errs_intros)
  have ex: "errs final_errors (expires ec t)" "errs final_errors (revoke ec l)"
    "errs final_errors (list_lease ec kv ls)" for t l kv ls
    unfolding expires_def revoke_def list_lease_def by (intro errs_bind errs_try_any errs_time_Now errs_of; simp)+
  show "errs final_errors (esr_getSubnets ec prefix)"
    unfolding esr_getSubnets_def
    by (auto intro!: errs_intros calls ex split: prod.splits)
  show "errs final_errors (esr_createSubnet ec prefix sn sn6 a ttl)"
    unfolding esr_createSubnet_def
    by (intro errs_bind path) (auto simp: own intro!: errs_intros calls ex split: prod.splits)
  show "errs final_errors (esr_updateSubnet ec prefix sn sn6 a ttl asof)"
    unfolding esr_updateSubnet_def
    by (intro errs_bind path) (auto simp: own intro!: errs_intros calls ex split: prod.splits)
  show "errs final_errors (esr_deleteSubnet ec prefix sn sn6)"
    unfolding esr_deleteSubnet_def by (intro errs_bind path calls)
qed


lemma go_while_no_err:
  assumes "\<And>s. \<not> fails (b s)" "\<And>s. \<not> fails (c s)" "go_while b c s = Some r"
  shows "\<not> fails r"
proof -
  obtain st where st: "while_option isl (loop_step b c) (Inl s) = Some st" "projr st = r"
    using assms(3) by (auto simp: go_while_def)
  have "\<forall>q. st = Inr q \<longrightarrow> \<not> fails q"
  proof (rule while_option_rule [OF _ st(1)])
    fix u :: "'a + 'a go" assume u: "\<forall>q. u = Inr q \<longrightarrow> \<not> fails q" "isl u"
    then obtain t where "u = Inl t" by (cases u) auto
    with assms(1,2) [of t] show "\<forall>q. loop_step b c u = Inr q \<longrightarrow> \<not> fails q"
      by (auto simp: loop_step_def split: go.splits if_splits)
  qed simp
  with while_option_stop [OF st(1)] st(2) show ?thesis by (cases st) auto
qed

lemma IP6_ops_no_err [simp]:
  "\<not> fails (IP6_Cmp p q)" "\<not> fails (IP6Net_Next n)" "\<not> fails (IP6Net_Overlaps n n')"
  by (cases p; cases q) (auto simp: IP6Net_Next_def IP6Net_Overlaps_def Let_def)

lemma free6_no_err [simp]: "\<not> fails (free6 ls sn6)"
  by (induction ls) auto

lemma search_no_err: "search4 c ls = Some r4 \<Longrightarrow> \<not> fails r4" "search6 c ls sn6 = Some r6 \<Longrightarrow> \<not> fails r6"
  unfolding search4_def search6_def
  by (rule go_while_no_err [rotated 2], assumption; simp split: prod.splits)+

lemma choose_free_err: "choose_free rnd c xs sn6 ys = Err e \<Longrightarrow> e = errOutOfSubnets"
  by (auto simp: choose_free_def pick_def Let_def split: if_splits)

lemma allocate_err: "allocateSubnet rnd c ls = Some (Err e) \<Longrightarrow> e = errOutOfSubnets"
  by (auto simp: allocateSubnet_def Let_def split: option.splits go.splits if_splits)
     (erule choose_free_err | drule search_no_err, simp)+

lemma compatible_no_err [simp]: "\<not> fails (compatible c sn sn6)"
  by (auto simp: compatible_def isIPv6SubnetConfigCompat_def)

lemma previous_choice_no_err [simp]: "\<not> fails (previous_choice m c ls)"
  by (auto simp: previous_choice_def)

lemma choose_subnet_err: "choose_subnet m rnd c ls = Some (Err e) \<Longrightarrow> e = errOutOfSubnets"
  using previous_choice_no_err [of m c ls]
  by (auto simp: choose_subnet_def intro: allocate_err split: go.splits if_splits simp del: previous_choice_no_err)

text \<open>No attempt on the etcd registry ends in the error that is retried.\<close>

lemma errs_final: "errs final_errors q \<Longrightarrow> errs {e. e \<noteq> errTryAgain} q"
  by (auto simp: errs_def final_errors_def)

lemma tryAcquireLease_err:
  assumes "etcd_errors_final ec" "lm_registry m = etcdSubnetRegistry ec prefix"
  shows "errs {e. e \<noteq> errTryAgain} (tryAcquireLease m rnd c ext attrs)"
proof -
  let ?E = "{e. e \<noteq> errTryAgain}"
  have sub: "errs ?E (io_of (compatible c sn sn6))" "errs ?E (io_returns (choose_subnet m rnd c ls))" for sn sn6 ls
    using compatible_no_err [of c sn sn6] choose_subnet_err [of m rnd c ls]
    by (auto simp: fails_iff errTryAgain_def errOutOfSubnets_def intro!: errs_intros)
  note reg = esr_errs [OF assms(1), of prefix]
  have create: "errs ?E (create_lease m attrs x)" for x
  proof (cases x)
    case (Pair sn sn6)
    have created: "errs ?E (io_try (esr_createSubnet ec prefix sn sn6 attrs subnetTTL) f
        (\<lambda>e. io_err (if isErrEtcdNodeExist e then errTryAgain else e)))" if "\<And>x. errs ?E (f x)" for f :: "int \<Rightarrow> ('a, Lease) io"
      unfolding errs_def
    proof (intro allI impI)
      fix w e w' assume "io_try (esr_createSubnet ec prefix sn sn6 attrs subnetTTL) f
        (\<lambda>e. io_err (if isErrEtcdNodeExist e then errTryAgain else e)) w = Some (Err e, w')"
      then show "e \<in> ?E"
      proof (cases rule: io_try_cases)
        case (err e1 w1)
        then have "e1 \<in> final_errors" using reg(2) unfolding errs_def by blast
        with err(2) show ?thesis by (auto simp: final_errors_def isErrEtcdNodeExist_def)
      qed (use that in \<open>unfold errs_def, blast+\<close>)
    qed
    show ?thesis
      unfolding create_lease_def Pair assms(2) etcdSubnetRegistry_def Registry.simps prod.case
      by (rule created, rule errs_of) simp
  qed
  show ?thesis
    unfolding tryAcquireLease_def reuse_lease_def assms(2)
    unfolding etcdSubnetRegistry_def Registry.simps Let_def
    by (auto split: prod.splits option.splits
        intro!: errs_bind sub create errs_if reg [THEN errs_final] errs_of)
qed

section \<open>Properties\<close>

lemma accepted_pool_ok:
  assumes "go_bind (ParseConfig s) CheckNetworkConfig = Ok c" "cfg_EnableIPv4 c"
  shows "pool_ok c"
proof -
  obtain c0 where "ParseConfig s = Ok c0" "CheckNetworkConfig c0 = Ok c"
    using assms(1) by (auto simp: go_bind_Ok_iff)
  from checked_config [OF ParseConfig_decoded [OF this(1)] this(2) assms(2)] show ?thesis by (simp add: pool_ok_def)
qed

text \<open>
  C2. For a configuration that was accepted, in an IPv4 network whose range ends below the
  top of the address space, \<open>allocateSubnet\<close> returns, whatever the random numbers: either a
  subnet of the range, aligned and of the configured length, that overlaps none of the
  leases, or the error that there are no subnets left, and then every subnet of the range
  overlaps a lease.
\<close>

theorem allocate_free_subnet:
  assumes "go_bind (ParseConfig s) CheckNetworkConfig = Ok c" "cfg_EnableIPv4 c" "\<not> cfg_EnableIPv6 c"
    "below_top c" "int31n_ok rnd"
  shows "\<exists>r. allocateSubnet rnd c leases = Some r \<and>
     (case r of
        Ok (sn, sn6) \<Rightarrow> in_pool c sn \<and> sn6 = empty_IP6Net \<and> (\<forall>l \<in> set leases. \<not> IP4Net_Overlaps sn (lease_Subnet l))
      | Err e \<Rightarrow> e = errOutOfSubnets \<and> (\<forall>sn. in_pool c sn \<longrightarrow> (\<exists>l \<in> set leases. IP4Net_Overlaps sn (lease_Subnet l)))
      | Panic p \<Rightarrow> False)"
proof -
  obtain r where r: "allocateSubnet rnd c leases = Some r" "pool_result c leases r"
    using allocate_v4 [OF accepted_pool_ok [OF assms(1,2)] assms(4,3,5)] by blast
  then show ?thesis by (cases r) (auto simp: pool_result_def free4_def)
qed

theorem allocate_free_subnet_witness:
  "\<exists>c r. go_bind (ParseConfig demo_config) CheckNetworkConfig = Ok c \<and> allocateSubnet (\<lambda>_ n. n - 1) c [] = Some r \<and>
     \<not> panics r"
proof -
  obtain c where c: "go_bind (ParseConfig demo_config) CheckNetworkConfig = Ok c" "cfg_EnableIPv4 c" "\<not> cfg_EnableIPv6 c"
    "below_top c"
    by (simp add: demo_config_def go_eval below_top_def pool_size_def)
  have "int31n_ok (\<lambda>_ n. n - 1)" by (simp add: int31n_ok_def)
  from allocate_free_subnet [OF c this, of "[]"] obtain r where
    "allocateSubnet (\<lambda>_ n. n - 1) c [] = Some r" "\<not> panics r"
  proof (elim exE conjE)
    fix r assume "allocateSubnet (\<lambda>_ n. n - 1) c [] = Some r"
      "case r of Ok (sn, sn6) \<Rightarrow> in_pool c sn \<and> sn6 = empty_IP6Net \<and> (\<forall>l \<in> set []. \<not> IP4Net_Overlaps sn (lease_Subnet l))
       | Err e \<Rightarrow> e = errOutOfSubnets \<and> (\<forall>sn. in_pool c sn \<longrightarrow> (\<exists>l \<in> set []. IP4Net_Overlaps sn (lease_Subnet l)))
       | Panic p \<Rightarrow> False"
    then show thesis using that by (cases r) auto
  qed
  with c(1) show ?thesis by blast
qed


definition top_pool :: Config where
  "top_pool = new_Config\<lparr>cfg_EnableIPv4 := True, cfg_Network := \<lparr>ip4_IP = 0xfffffff0, ip4_PrefixLen = 28\<rparr>,
     cfg_SubnetMin := 0xfffffffc, cfg_SubnetMax := 0xfffffffc, cfg_SubnetLen := 30\<rparr>"

definition top_lease :: Lease where
  "top_lease = (lease_of_key \<lparr>ip4_IP = 0xfffffffc, ip4_PrefixLen = 30\<rparr> None)"



definition mock_pool :: Config where
  "mock_pool = new_Config\<lparr>cfg_EnableIPv4 := True, cfg_Network := \<lparr>ip4_IP = 0x0a030000, ip4_PrefixLen = 16\<rparr>,
     cfg_SubnetMin := 0x0a030100, cfg_SubnetMax := 0x0a030300, cfg_SubnetLen := 24\<rparr>"


end
