(* ===== verification/Lease_Protocol.thy ===== *)
theory Lease_Protocol
  imports Local_Manager
begin

text \<open>
  Several nodes acquiring leases from one registry at the same time. The calls of
  \<open>tryAcquireLease\<close> are the atomic steps: between the listing of the leases and the creation of
  a new one, other nodes may take any number of steps, so that a node may act on a list that
  is out of date.
\<close>

section \<open>Interleavings\<close>

datatype node_phase = Idle | Fetched "Lease list" | Holding Lease

inductive acquire_step ::
  "'s Registry \<Rightarrow> Config \<Rightarrow> 's \<times> (nat \<Rightarrow> node_phase) \<Rightarrow> 's \<times> (nat \<Rightarrow> node_phase) \<Rightarrow> bool"
  for rg :: "'s Registry" and c :: Config where
  fetch: "ns n = Idle \<Longrightarrow> rg_getSubnets rg s = Some (Ok (ls, i), s') \<Longrightarrow>
    acquire_step rg c (s, ns) (s', ns(n := Fetched ls))"
| create: "ns n = Fetched ls \<Longrightarrow> lm_registry m = rg \<Longrightarrow> previous_ok c m \<Longrightarrow> int31n_ok rnd \<Longrightarrow>
    choose_subnet m rnd c ls = Some (Ok chosen) \<Longrightarrow> create_lease m attrs chosen s = Some (Ok l, s') \<Longrightarrow>
    acquire_step rg c (s, ns) (s', ns(n := Holding l))"
| create_fails: "ns n = Fetched ls \<Longrightarrow> lm_registry m = rg \<Longrightarrow> previous_ok c m \<Longrightarrow> int31n_ok rnd \<Longrightarrow>
    choose_subnet m rnd c ls = Some (Ok chosen) \<Longrightarrow> create_lease m attrs chosen s = Some (Err e, s') \<Longrightarrow>
    acquire_step rg c (s, ns) (s', ns(n := Idle))"
| renew: "ns n = Holding l \<Longrightarrow> lm_registry m = rg \<Longrightarrow> RenewLease m l s = Some (Ok l', s') \<Longrightarrow>
    acquire_step rg c (s, ns) (s', ns(n := Holding l'))"
| lose: "ns n = Holding l \<Longrightarrow> rg_deleteSubnet rg (lease_Subnet l) (lease_IPv6Subnet l) s = Some (Ok u, s') \<Longrightarrow>
    acquire_step rg c (s, ns) (s', ns(n := Idle))"

inductive_cases acquire_stepE: "acquire_step rg c (s, ns) st'"

context subnet_registry
begin

definition holders_ok :: "Config \<Rightarrow> 's \<times> (nat \<Rightarrow> node_phase) \<Rightarrow> bool" where
  "holders_ok c st \<longleftrightarrow>
     (case st of (s, ns) \<Rightarrow>
        within c s \<and>
        (\<forall>n l. ns n = Holding l \<longrightarrow> lease_Subnet l \<in> taken s \<and> lease_IPv6Subnet l = empty_IP6Net) \<and>
        (\<forall>n n' l l'. ns n = Holding l \<longrightarrow> ns n' = Holding l' \<longrightarrow> n \<noteq> n' \<longrightarrow> lease_Subnet l \<noteq> lease_Subnet l'))"

lemma chosen_in_pool:
  assumes "pool_ok c" "below_top c" "\<not> cfg_EnableIPv6 c" "int31n_ok rnd" "previous_ok c m"
    "choose_subnet m rnd c ls = Some (Ok chosen)"
  shows "\<exists>sn. chosen = (sn, empty_IP6Net) \<and> in_pool c sn"
  using choose_subnet_in_pool [OF assms(1-5), of ls] assms(6) by (cases chosen) auto

lemma create_lease_v6: "create_lease m attrs (sn, sn6) s = Some (Ok l, s') \<Longrightarrow> lease_IPv6Subnet l = sn6"
  by (auto simp: create_lease_def io_try_apply split: option.splits prod.splits go.splits)

lemma RenewLease_subnet:
  assumes "RenewLease m l s = Some (Ok l', s')"
  shows "lease_Subnet l' = lease_Subnet l" "lease_IPv6Subnet l' = lease_IPv6Subnet l"
    "\<exists>ex. rg_updateSubnet (lm_registry m) (lease_Subnet l) (lease_IPv6Subnet l) (lease_Attrs l) subnetTTL 0 s = Some (Ok ex, s')"
  using assms by (auto simp: RenewLease_def io_bind_Ok_iff)

lemma holders_ok_step:
  assumes "pool_ok c" "below_top c" "\<not> cfg_EnableIPv6 c" "acquire_step rg c st st'" "holders_ok c st"
  shows "holders_ok c st'"
  using assms(4,5)
proof (induction rule: acquire_step.induct)
  case (fetch ns n s ls i s')
  then have "ok s" by (simp add: holders_ok_def within_def)
  from list_keeps [OF this fetch(2)] fetch show ?case by (auto simp: holders_ok_def within_def)
next
  case (create ns n ls m rnd chosen attrs s l s')
  obtain sn where sn: "chosen = (sn, empty_IP6Net)" "in_pool c sn" using chosen_in_pool [OF assms(1-3)] create by blast
  have "within c s" using create by (simp add: holders_ok_def)
  from create_lease_step [OF create(2) this assms(1) sn(2), of attrs "Ok l" s'] create(6) sn(1)
  have "within c s'" "lease_Subnet l = sn" "sn \<notin> taken s" "taken s' = insert sn (taken s)" by simp_all
  moreover from this have "lease_Subnet l' \<noteq> lease_Subnet l" if "ns n' = Holding l'" for n' l'
  proof -
    have "lease_Subnet l' \<in> taken s" using create(7) that by (simp add: holders_ok_def)
    with calculation show ?thesis by auto
  qed
  moreover have "lease_IPv6Subnet l = empty_IP6Net" by (rule create_lease_v6 [OF create(6) [unfolded sn(1)]])
  ultimately show ?case using create(7) by (auto simp: holders_ok_def)
next
  case (create_fails ns n ls m rnd chosen attrs s e s')
  obtain sn where sn: "chosen = (sn, empty_IP6Net)" "in_pool c sn" using chosen_in_pool [OF assms(1-3)] create_fails by blast
  have "within c s" using create_fails by (simp add: holders_ok_def)
  from create_lease_step [OF create_fails(2) this assms(1) sn(2), of attrs "Err e" s'] create_fails(6) sn(1)
  have "within c s'" "taken s \<subseteq> taken s'" by auto
  with create_fails(7) show ?case by (auto simp: holders_ok_def)
next
  case (renew ns n l m s l' s')
  have ok: "ok s" "within c s" and l: "lease_Subnet l \<in> taken s" "lease_IPv6Subnet l = empty_IP6Net"
    using renew by (auto simp: holders_ok_def within_def)
  then have nm: "nameable (lease_Subnet l)" by (metis taken_nameable)
  obtain ex where u: "rg_updateSubnet rg (lease_Subnet l) empty_IP6Net (lease_Attrs l) subnetTTL 0 s = Some (Ok ex, s')"
    using RenewLease_subnet(3) [OF renew(3)] renew(2) l(2) by auto
  have "taken s' = taken s" "ok s'" using update_keeps [OF ok(1) nm u] update_ok [OF ok(1) nm u] l(1) by auto
  with renew(1,4) ok(2) RenewLease_subnet(1,2) [OF renew(3)] show ?case
    by (simp add: holders_ok_def within_def)
next
  case (lose ns n l s u s')
  have ok: "ok s" "within c s" and l: "lease_Subnet l \<in> taken s" "lease_IPv6Subnet l = empty_IP6Net"
    using lose by (auto simp: holders_ok_def within_def)
  then have nm: "nameable (lease_Subnet l)" by (metis taken_nameable)
  from delete_keeps [OF ok(1) nm lose(2) [unfolded l(2)]] lose(1,3) ok(2) show ?case
    by (simp add: holders_ok_def within_def) (metis DiffI singletonD subsetD)
qed

lemma holders_ok_reachable:
  assumes "pool_ok c" "below_top c" "\<not> cfg_EnableIPv6 c" "(acquire_step rg c)\<^sup>*\<^sup>* st st'" "holders_ok c st"
  shows "holders_ok c st'"
  using assms(4,5) by (induction rule: rtranclp_induct) (auto intro: holders_ok_step [OF assms(1-3)])

lemma holders_disjoint:
  assumes "pool_ok c" "below_top c" "\<not> cfg_EnableIPv6 c" "within c s"
    and run: "(acquire_step rg c)\<^sup>*\<^sup>* (s, \<lambda>_. Idle) (s', ns)"
    and h: "ns n = Holding l" "ns n' = Holding l'" "n \<noteq> n'"
  shows "\<not> IP4Net_Overlaps (lease_Subnet l) (lease_Subnet l')"
proof -
  have inv: "holders_ok c (s', ns)"
    by (rule holders_ok_reachable [OF assms(1-3) run]) (use assms(4) in \<open>simp add: holders_ok_def\<close>)
  then have "in_pool c (lease_Subnet l)" "in_pool c (lease_Subnet l')" "lease_Subnet l \<noteq> lease_Subnet l'"
    using h by (auto simp: holders_ok_def within_def)
  then show ?thesis using in_pool_disjoint [OF assms(1)] by blast
qed

end

section \<open>A store that keeps the laws\<close>

record mem_etcd_state =
  mem_store :: "(string \<times> string \<times> int) list"
  mem_revision :: int
  mem_now :: int

definition mem_view :: "mem_etcd_state \<Rightarrow> etcd_store" where
  "mem_view w = map_of (mem_store w)"

definition mem_fresh :: "mem_etcd_state \<Rightarrow> int" where
  "mem_fresh w = 1 + sum_list (map (\<lambda>(_, _, l). abs l) (mem_store w))"

definition mem_set :: "mem_etcd_state \<Rightarrow> (string \<times> string \<times> int) list \<Rightarrow> mem_etcd_state" where
  "mem_set w st = w\<lparr>mem_store := st, mem_revision := mem_revision w + 1\<rparr>"

definition mem_keep :: "(string \<Rightarrow> bool) \<Rightarrow> mem_etcd_state \<Rightarrow> (string \<times> string \<times> int) list" where
  "mem_keep P w = filter (\<lambda>kv. P (fst kv)) (mem_store w)"

definition mem_other :: "int \<Rightarrow> mem_etcd_state \<Rightarrow> string \<Rightarrow> bool" where
  "mem_other lid w k \<longleftrightarrow> (case mem_view w k of None \<Rightarrow> True | Some (_, l) \<Rightarrow> l \<noteq> lid)"

definition mem_etcd :: "mem_etcd_state etcd" where
  "mem_etcd =
     \<lparr>etcd_Get = (\<lambda>key pre w.
        Some (Ok (map (\<lambda>(k, v, l). \<lparr>kv_Key = k, kv_Value = v, kv_Lease = l, kv_ModRevision = mem_revision w\<rparr>)
                   (filter (\<lambda>(k, _, _). if pre then HasPrefix k key else k = key) (mem_store w)), mem_revision w), w)),
      etcd_TimeToLive = (\<lambda>l w. Some (Ok 3600, w)),
      etcd_Grant = (\<lambda>n w. Some (Ok (mem_fresh w, n), w)),
      etcd_Revoke = (\<lambda>lid w. Some (Ok (), mem_set w (mem_keep (mem_other lid w) w))),
      etcd_Txn = (\<lambda>(k1, _, _) (k, v, l) w.
        if mem_view w k1 = None then Some (Ok True, mem_set w ((k, v, l) # mem_keep (\<lambda>k'. k' \<noteq> k) w))
        else Some (Ok False, w)),
      etcd_Put = (\<lambda>k v l w. Some (Ok (), mem_set w ((k, v, l) # mem_keep (\<lambda>k'. k' \<noteq> k) w))),
      etcd_Delete = (\<lambda>k w. Some (Ok (), mem_set w (mem_keep (\<lambda>k'. k' \<noteq> k) w))),
      etcd_Now = mem_now\<rparr>"


lemma map_of_keep: "map_of (mem_keep P w) k = (if P k then mem_view w k else None)"
proof -
  have "map_of (filter (\<lambda>kv. P (fst kv)) xs) k = (if P k then map_of xs k else None)"
    for xs :: "(string \<times> string \<times> int) list"
    by (induction xs) auto
  then show ?thesis by (simp add: mem_keep_def mem_view_def)
qed

lemma mem_view_set: "mem_view (mem_set w st) = map_of st"
  by (simp add: mem_view_def mem_set_def)

lemma mem_fresh_new: "mem_view w k \<noteq> Some (v, mem_fresh w)"
proof
  assume "mem_view w k = Some (v, mem_fresh w)"
  then have m: "(k, v, mem_fresh w) \<in> set (mem_store w)" by (simp add: mem_view_def map_of_SomeD)
  have "abs l \<le> sum_list (map (\<lambda>(_, _, l). abs l) xs)" if "(k, v, l) \<in> set xs" for xs :: "(string \<times> string \<times> int) list" and l
  proof -
    have pos: "0 \<le> sum_list (map (\<lambda>(_, _, l). abs l) ys)" for ys :: "(string \<times> string \<times> int) list"
      by (rule sum_list_nonneg) auto
    show ?thesis using that
    proof (induction xs)
      case (Cons a xs)
      then show ?case using pos [of xs] by (cases a) (auto intro: order_trans)
    qed simp
  qed
  from this [OF m] show False by (simp add: mem_fresh_def)
qed

lemma mem_etcd_laws: "etcd_laws mem_etcd mem_view"
proof -
  have txn: "mem_view (mem_set w ((k, v, l) # mem_keep (\<lambda>k'. k' \<noteq> k) w)) = (mem_view w)(k \<mapsto> (v, l))" for w k v l
    by (auto simp: mem_view_set map_of_keep fun_eq_iff)
  have del: "mem_view (mem_set w (mem_keep (\<lambda>k'. k' \<noteq> k) w)) = (mem_view w)(k := None)" for w k
    by (auto simp: mem_view_set map_of_keep fun_eq_iff)
  have rev: "mem_view (mem_set w (mem_keep (mem_other lid w) w)) = drop_lease lid (mem_view w)" for w lid
    by (auto simp: mem_view_set map_of_keep fun_eq_iff drop_lease_def mem_other_def split: option.splits)
  have get: "mem_view w k \<noteq> None" if "(k, v, l) \<in> set (mem_store w)" for w k v l
    using that by (metis mem_view_def option.distinct(1) weak_map_of_SomeI)
  show ?thesis
    unfolding etcd_laws_def reads_only_def writes_def mem_etcd_def etcd.simps
    by (intro conjI) (auto simp: txn del rev mem_fresh_new split: if_splits dest: get)
qed

section \<open>A race of two nodes\<close>

text \<open>Two nodes list the leases before either creates one.\<close>

lemma race_of_two:
  assumes get: "rg_getSubnets rg w = Some (Ok (ls, i), w)"
    and reg: "lm_registry m = rg" "previous_ok c m" and rnd: "int31n_ok r1" "int31n_ok r2"
    and first: "choose_subnet m r1 c ls = Some (Ok x1)" "create_lease m a x1 w = Some (Ok l1, w1)"
    and second: "choose_subnet m r2 c ls = Some (Ok x2)" "create_lease m a x2 w1 = Some (Ok l2, w2)"
  shows "(acquire_step rg c)\<^sup>*\<^sup>* (w, \<lambda>_. Idle) (w2, (\<lambda>_. Idle)(0 := Holding l1, 1 := Holding l2))"
proof -
  let ?R = "acquire_step rg c"
  define n2 where "n2 = (\<lambda>_ :: nat. Idle)(0 := Fetched ls, 1 := Fetched ls)"
  define n3 where "n3 = n2(0 := Holding l1)"
  have s1: "?R (w, \<lambda>_. Idle) (w, (\<lambda>_. Idle)(0 := Fetched ls))"
    by (rule acquire_step.fetch [OF _ get]) simp
  have s2: "?R (w, (\<lambda>_. Idle)(0 := Fetched ls)) (w, n2)"
    unfolding n2_def by (rule acquire_step.fetch [OF _ get]) simp
  have s3: "?R (w, n2) (w1, n3)"
    unfolding n3_def by (rule acquire_step.create [OF _ reg rnd(1) first]) (simp add: n2_def)
  have s4: "?R (w1, n3) (w2, n3(1 := Holding l2))"
    by (rule acquire_step.create [OF _ reg rnd(2) second]) (simp add: n3_def n2_def)
  have e: "n3(1 := Holding l2) = (\<lambda>_. Idle)(0 := Holding l1, 1 := Holding l2)"
    by (simp add: fun_eq_iff n3_def n2_def)
  show ?thesis
    using rtranclp.rtrancl_into_rtrancl [OF rtranclp.rtrancl_into_rtrancl [OF rtranclp.rtrancl_into_rtrancl
      [OF r_into_rtranclp [of ?R, OF s1] s2] s3] s4] unfolding e .
qed

definition demo_pool :: Config where
  "demo_pool = new_Config\<lparr>cfg_EnableIPv4 := True, cfg_Network := \<lparr>ip4_IP = 0x0a030000, ip4_PrefixLen = 16\<rparr>,
     cfg_SubnetMin := 0x0a030100, cfg_SubnetMax := 0x0a030300, cfg_SubnetLen := 24\<rparr>"

definition demo_prefix :: string where "demo_prefix = ''/coreos.com/network''"

definition demo_world :: mem_etcd_state where
  "demo_world = \<lparr>mem_store = [], mem_revision = 1, mem_now = 1000\<rparr>"

definition demo_manager :: "mem_etcd_state LocalManager" where
  "demo_manager = newLocalManager (etcdSubnetRegistry mem_etcd demo_prefix) empty_IP4Net empty_IP6Net 60"

lemmas mem_eval = mem_etcd_def mem_view_def mem_keep_def mem_set_def mem_fresh_def mem_other_def
lemmas demo_eval = demo_pool_def demo_prefix_def demo_world_def demo_manager_def new_Config_def

lemma demo_fetch: "esr_getSubnets mem_etcd demo_prefix demo_world = Some (Ok ([], 1), demo_world)"
  by (simp add: go_eval mem_eval demo_eval)

lemma demo_choose:
  "choose_subnet demo_manager (\<lambda>_ _. 0) demo_pool [] = Some (Ok (\<lparr>ip4_IP = 0x0a030100, ip4_PrefixLen = 24\<rparr>, empty_IP6Net))"
  by (simp add: go_eval mem_eval demo_eval go_while_unfold)

definition demo_lease_text :: string where
  "demo_lease_text = ''{\"PublicIP\":\"0.0.0.0\",\"PublicIPv6\":null}''"

definition demo_net :: "IP4 \<Rightarrow> IP4Net" where
  "demo_net a = \<lparr>ip4_IP = a, ip4_PrefixLen = 24\<rparr>"

definition demo_held :: "IP4 \<Rightarrow> Lease" where
  "demo_held a = \<lparr>lease_EnableIPv4 = True, lease_EnableIPv6 = False, lease_Subnet = demo_net a,
     lease_IPv6Subnet = empty_IP6Net, lease_Attrs = empty_attrs, lease_Expiration = 86400000001000, lease_Asof = 0\<rparr>"

definition demo_world1 :: mem_etcd_state where
  "demo_world1 = \<lparr>mem_store = [(''/coreos.com/network/subnets/10.3.1.0-24'', demo_lease_text, 1)],
     mem_revision = 2, mem_now = 1000\<rparr>"

definition demo_world2 :: mem_etcd_state where
  "demo_world2 = \<lparr>mem_store = [(''/coreos.com/network/subnets/10.3.3.0-24'', demo_lease_text, 2),
     (''/coreos.com/network/subnets/10.3.1.0-24'', demo_lease_text, 1)], mem_revision = 3, mem_now = 1000\<rparr>"

lemma demo_choose2:
  "choose_subnet demo_manager (\<lambda>_ n. n - 1) demo_pool [] = Some (Ok (\<lparr>ip4_IP = 0x0a030300, ip4_PrefixLen = 24\<rparr>, empty_IP6Net))"
  by (simp add: go_eval mem_eval demo_eval go_while_unfold)

lemma demo_create: "create_lease demo_manager empty_attrs (\<lparr>ip4_IP = 0x0a030100, ip4_PrefixLen = 24\<rparr>, empty_IP6Net) demo_world
    = Some (Ok (demo_held 0x0a030100), demo_world1)"
  by (simp add: go_eval mem_eval demo_eval demo_held_def demo_net_def demo_world1_def demo_lease_text_def)

lemma demo_create2: "create_lease demo_manager empty_attrs (\<lparr>ip4_IP = 0x0a030300, ip4_PrefixLen = 24\<rparr>, empty_IP6Net) demo_world1
    = Some (Ok (demo_held 0x0a030300), demo_world2)"
  by (simp add: go_eval mem_eval demo_eval demo_held_def demo_net_def demo_world1_def demo_world2_def demo_lease_text_def)

lemma demo_reg:
  "rg_getSubnets (etcdSubnetRegistry mem_etcd demo_prefix) demo_world = Some (Ok ([], 1), demo_world)"
  "lm_registry demo_manager = etcdSubnetRegistry mem_etcd demo_prefix" "previous_ok demo_pool demo_manager"
  "int31n_ok (\<lambda>_ _. 0)" "int31n_ok (\<lambda>_ n. n - 1)"
  using demo_fetch
  by (simp_all add: etcdSubnetRegistry_def demo_manager_def newLocalManager_def previous_ok_def
      isSubnetConfigCompat_def demo_pool_def int31n_ok_def)

lemmas demo_run = race_of_two [OF demo_reg demo_choose demo_create demo_choose2 demo_create2]

lemma demo_pool_ok: "pool_ok demo_pool" "below_top demo_pool" "\<not> cfg_EnableIPv6 demo_pool"
  by (simp_all add: pool_ok_def below_top_def pool_size_def demo_eval ip4_aligned_def go_eval)

definition dual_pool :: Config where
  "dual_pool = demo_pool\<lparr>cfg_EnableIPv6 := True, cfg_SubnetMax := 0x0a030100,
     cfg_IPv6SubnetMin := Some 0xfc000000000000000000000000000000,
     cfg_IPv6SubnetMax := Some 0xfc000000000000010000000000000000, cfg_IPv6SubnetLen := 64\<rparr>"

abbreviation dual_net :: "int \<Rightarrow> IP6Net" where
  "dual_net a \<equiv> \<lparr>ip6_IP = Some a, ip6_PrefixLen = 64\<rparr>"

lemma dual_choose:
  "choose_subnet demo_manager (\<lambda>_ _. 0) dual_pool [] =
     Some (Ok (\<lparr>ip4_IP = 0x0a030100, ip4_PrefixLen = 24\<rparr>, dual_net 0xfc000000000000000000000000000000))"
  by (simp add: go_eval mem_eval demo_eval dual_pool_def go_while_unfold)

lemma dual_choose2:
  "choose_subnet demo_manager (\<lambda>_ n. n - 1) dual_pool [] =
     Some (Ok (\<lparr>ip4_IP = 0x0a030100, ip4_PrefixLen = 24\<rparr>, dual_net 0xfc000000000000010000000000000000))"
  by (simp add: go_eval mem_eval demo_eval dual_pool_def go_while_unfold)


definition dual_held :: "int \<Rightarrow> Lease" where
  "dual_held a = (demo_held 0x0a030100)\<lparr>lease_EnableIPv6 := True, lease_IPv6Subnet := dual_net a\<rparr>"

definition dual_world1 :: mem_etcd_state where
  "dual_world1 = \<lparr>mem_store = [(''/coreos.com/network/subnets/10.3.1.0-24&fc00::-64'', demo_lease_text, 1)],
     mem_revision = 2, mem_now = 1000\<rparr>"

definition dual_world2 :: mem_etcd_state where
  "dual_world2 = \<lparr>mem_store = [(''/coreos.com/network/subnets/10.3.1.0-24&fc00:0:0:1::-64'', demo_lease_text, 2),
     (''/coreos.com/network/subnets/10.3.1.0-24&fc00::-64'', demo_lease_text, 1)], mem_revision = 3, mem_now = 1000\<rparr>"

lemma dual_create: "create_lease demo_manager empty_attrs
    (\<lparr>ip4_IP = 0x0a030100, ip4_PrefixLen = 24\<rparr>, dual_net 0xfc000000000000000000000000000000) demo_world
    = Some (Ok (dual_held 0xfc000000000000000000000000000000), dual_world1)"
  by (simp add: go_eval mem_eval demo_eval dual_held_def demo_held_def demo_net_def dual_world1_def demo_lease_text_def)

lemma dual_create2: "create_lease demo_manager empty_attrs
    (\<lparr>ip4_IP = 0x0a030100, ip4_PrefixLen = 24\<rparr>, dual_net 0xfc000000000000010000000000000000) dual_world1
    = Some (Ok (dual_held 0xfc000000000000010000000000000000), dual_world2)"
  by (simp add: go_eval mem_eval demo_eval dual_held_def demo_held_def demo_net_def dual_world1_def dual_world2_def
      demo_lease_text_def)

lemma dual_previous_ok: "previous_ok dual_pool demo_manager"
  by (simp add: demo_eval go_eval previous_ok_def dual_pool_def)

lemmas dual_run =
  race_of_two [OF demo_reg(1,2) dual_previous_ok demo_reg(4,5) dual_choose dual_create dual_choose2 dual_create2]

section \<open>Properties\<close>



text \<open>
  C21. In a dual-stack network this fails: the name of a lease contains both subnets, so that
  two nodes that choose the same IPv4 subnet but different IPv6 subnets both create their
  lease, and hold the same IPv4 subnet.
\<close>

theorem dual_stack_race_shares_ipv4:
  "\<exists>w ns l l'.
     (acquire_step (etcdSubnetRegistry mem_etcd demo_prefix) dual_pool)\<^sup>*\<^sup>* (demo_world, \<lambda>_. Idle) (w, ns) \<and>
     ns 0 = Holding l \<and> ns 1 = Holding l' \<and>
     lease_Subnet l = lease_Subnet l' \<and> lease_IPv6Subnet l \<noteq> lease_IPv6Subnet l'"
proof -
  let ?l = "dual_held 0xfc000000000000000000000000000000" and ?l' = "dual_held 0xfc000000000000010000000000000000"
  have "lease_Subnet ?l = lease_Subnet ?l'" "lease_IPv6Subnet ?l \<noteq> lease_IPv6Subnet ?l'"
    by (simp_all add: dual_held_def)
  moreover have "((\<lambda>_. Idle)(0 := Holding ?l, 1 := Holding ?l')) (0 :: nat) = Holding ?l"
    "((\<lambda>_. Idle)(0 := Holding ?l, 1 := Holding ?l')) (1 :: nat) = Holding ?l'" by simp_all
  ultimately show ?thesis using dual_run by blast
qed

text \<open>
  C22. The loop of \<open>AcquireLease\<close> that tries again after losing a race never does: the registry
  reports an existing subnet by an error that the manager does not recognise, so that the
  first attempt is also the last. This needs only that the etcd client does not return the
  error for a duplicate key, which is about transactions that put one key twice.
\<close>

theorem lost_race_not_retried:
  assumes "etcd_errors_final ec" "lm_registry m = etcdSubnetRegistry ec prefix"
  shows "acquire_loop (Suc n) m rnd c attrs w = tryAcquireLease m (rnd n) c (la_PublicIP attrs) attrs w"
proof (cases "tryAcquireLease m (rnd n) c (la_PublicIP attrs) attrs w")
  case (Some x)
  obtain r w' where x: "x = (r, w')" by (cases x)
  have "r \<noteq> Err errTryAgain"
    using tryAcquireLease_err [OF assms] Some x unfolding errs_def by blast
  with Some x show ?thesis by (cases r) (auto simp: io_try_apply)
qed simp

theorem lost_race_not_retried_witness:
  "acquire_loop 10 demo_manager (\<lambda>_ _ _. 0) demo_pool empty_attrs demo_world =
   tryAcquireLease demo_manager (\<lambda>_ _. 0) demo_pool 0 empty_attrs demo_world"
proof -
  have "etcd_errors_final mem_etcd"
    by (auto simp: etcd_errors_final_def errs_def mem_etcd_def split: prod.splits if_splits)
  from lost_race_not_retried [OF this demo_reg(2), of 9 "\<lambda>_ _ _. 0" demo_pool empty_attrs demo_world]
  show ?thesis by (simp add: eval_nat_numeral)
qed

text \<open>
  C23. Renewing a lease never fails because the lease was lost: whatever the store holds under
  the name of the lease, and whoever wrote it, once etcd grants a lease and accepts the put,
  the renewal succeeds and the name carries the attributes of the renewing node.
\<close>

theorem renewal_overwrites_any_owner:
  assumes "etcd_laws ec view" "lm_registry m = etcdSubnetRegistry ec prefix"
    "subnet_path prefix (lease_Subnet l) (lease_IPv6Subnet l) = Ok key" "LeaseAttrs_Marshal (lease_Attrs l) = Ok val"
    "etcd_Grant ec (dur_Seconds subnetTTL) w = Some (Ok (lid, ttl), w1)" "etcd_Put ec key val lid w1 = Some (Ok u, w2)"
  shows "\<exists>ex. RenewLease m l w = Some (Ok (l\<lparr>lease_Expiration := ex\<rparr>), w2) \<and> view w2 = (view w)(key \<mapsto> (val, lid))"
proof -
  have "view w2 = (view w1)(key \<mapsto> (val, lid))"
    using etcd_Put_writes [OF assms(1)] assms(6) unfolding writes_def by force
  moreover have "view w1 = view w" by (rule etcd_Grant_ro [OF assms(1,5)])
  moreover have "RenewLease m l w = Some (Ok (l\<lparr>lease_Expiration := etcd_Now ec w2 + seconds ttl\<rparr>), w2)"
    using assms(2-6) by (simp add: RenewLease_def etcdSubnetRegistry_def esr_updateSubnet_def expires_def)
  ultimately show ?thesis by auto
qed

definition stranger_attrs :: LeaseAttrs where
  "stranger_attrs = empty_attrs\<lparr>la_PublicIP := 0x01020304\<rparr>"

theorem renewal_overwrites_any_owner_witness:
  "\<exists>l' w2. RenewLease demo_manager ((demo_held 0x0a030100)\<lparr>lease_Attrs := stranger_attrs\<rparr>) demo_world1 = Some (Ok l', w2) \<and>
     mem_view demo_world1 ''/coreos.com/network/subnets/10.3.1.0-24'' = Some (demo_lease_text, 1) \<and>
     map_option fst (mem_view w2 ''/coreos.com/network/subnets/10.3.1.0-24'') = Some ''{\"PublicIP\":\"1.2.3.4\",\"PublicIPv6\":null}''"
proof -
  let ?l = "(demo_held 0x0a030100)\<lparr>lease_Attrs := stranger_attrs\<rparr>"
  let ?key = "''/coreos.com/network/subnets/10.3.1.0-24''" and ?val = "''{\"PublicIP\":\"1.2.3.4\",\"PublicIPv6\":null}''"
  have path: "subnet_path demo_prefix (lease_Subnet ?l) (lease_IPv6Subnet ?l) = Ok ?key"
    by (simp add: go_eval demo_prefix_def demo_held_def demo_net_def)
  have val: "LeaseAttrs_Marshal (lease_Attrs ?l) = Ok ?val" by (simp add: go_eval stranger_attrs_def)
  obtain lid ttl where g: "etcd_Grant mem_etcd (dur_Seconds subnetTTL) demo_world1 = Some (Ok (lid, ttl), demo_world1)"
    by (simp add: mem_etcd_def)
  obtain w2 where p: "etcd_Put mem_etcd ?key ?val lid demo_world1 = Some (Ok (), w2)" by (simp add: mem_etcd_def)
  from renewal_overwrites_any_owner [OF mem_etcd_laws demo_reg(2) path val g p] show ?thesis
    by (auto simp: demo_world1_def mem_view_def)
qed

end
