(* ===== verification/Etcd_Watch.thy ===== *)
theory Etcd_Watch
  imports Lease_Protocol
begin

text \<open>
  What the watch loops of the etcd registry guarantee, over every sequence of inputs: the
  bounds of the backoff, and that reconnecting neither loses nor repeats an event.
\<close>

section \<open>The backoff\<close>

definition backoff_ok :: "watch_state \<Rightarrow> bool" where
  "backoff_ok st \<longleftrightarrow> initialBackoff \<le> ws_backoff st \<and> ws_backoff st \<le> maxBackoff"

lemma backoff_grow: "backoff_ok st \<Longrightarrow> backoff_ok (grow_backoff st)"
  by (auto simp: backoff_ok_def grow_backoff_def initialBackoff_def maxBackoff_def)

lemma backoff_initial: "initialBackoff \<le> maxBackoff"
  by (simp add: initialBackoff_def maxBackoff_def)

lemma backoff_resynced: "backoff_ok (resynced st r)"
  using backoff_initial by (simp add: backoff_ok_def resynced_def split: prod.split)

lemma backoff_send_advance: "backoff_ok (send (advance st rv) results)"
  using backoff_initial by (simp add: backoff_ok_def send_def advance_def Let_def)

lemma backoff_phase: "backoff_ok st \<Longrightarrow> backoff_ok (st\<lparr>ws_phase := p\<rparr>)"
  by (simp add: backoff_ok_def)

definition returns_state :: "(watch_state \<Rightarrow> bool) \<Rightarrow> ('w, watch_state) io \<Rightarrow> bool" where
  "returns_state P m \<longleftrightarrow> (\<forall>w st w'. m w = Some (Ok st, w') \<longrightarrow> P st)"

lemma returns_ret: "P st \<Longrightarrow> returns_state P (io_ret st)"
  by (simp add: returns_state_def)

lemma returns_bind: "(\<And>x. returns_state P (f x)) \<Longrightarrow> returns_state P (io_bind m f)"
  unfolding returns_state_def by (auto simp: io_bind_Ok_iff)

lemma returns_try:
  assumes "\<And>x. returns_state P (f x)" "\<And>e. returns_state P (g e)" shows "returns_state P (io_try m f g)"
  unfolding returns_state_def
proof (intro allI impI)
  fix w st w' assume "io_try m f g w = Some (Ok st, w')"
  then show "P st" by (cases rule: io_try_cases) (use assms in \<open>unfold returns_state_def, blast+\<close>)
qed

lemmas returns_intros = returns_ret returns_bind returns_try backoff_grow backoff_resynced
  backoff_send_advance backoff_phase

lemma watchSubnets_step_backoff: "backoff_ok st \<Longrightarrow> returns_state backoff_ok (esr_watchSubnets_step ec prefix st inp)"
  unfolding esr_watchSubnets_step_def
  by (cases "ws_phase st"; cases inp) (auto intro!: returns_intros)

lemma watchSubnet_step_backoff: "backoff_ok st \<Longrightarrow> returns_state backoff_ok (esr_watchSubnet_step ec prefix sn sn6 st inp)"
  unfolding esr_watchSubnet_step_def
  by (cases "ws_phase st"; cases inp) (auto intro!: returns_intros)

lemma watch_run_backoff:
  assumes "\<And>st inp. backoff_ok st \<Longrightarrow> returns_state backoff_ok (step st inp)"
  shows "backoff_ok st \<Longrightarrow> returns_state backoff_ok (watch_run step inps st)"
proof (induction inps arbitrary: st)
  case (Cons i inps)
  show ?case
    unfolding returns_state_def
  proof (intro allI impI)
    fix w st' w' assume "watch_run step (i # inps) st w = Some (Ok st', w')"
    then obtain st1 w1 where "step st i w = Some (Ok st1, w1)" "watch_run step inps st1 w1 = Some (Ok st', w')"
      by (auto simp: io_bind_Ok_iff)
    with assms [OF Cons.prems, of i] Cons.IH show "backoff_ok st'" unfolding returns_state_def by blast
  qed
qed (simp add: returns_ret)

section \<open>No event is lost or repeated\<close>

text \<open>
  The history of the store is a list of events in the order of their revisions. A response is
  admissible if it carries exactly the events from the requested revision up to the revision
  of its header; the channel may be closed, or fail, at any time, short of a compaction.
\<close>

definition event_rev :: "etcd_event \<Rightarrow> int" where
  "event_rev ev = kv_ModRevision (ee_Kv ev)"

definition window :: "etcd_event list \<Rightarrow> int \<Rightarrow> int \<Rightarrow> etcd_event list" where
  "window history a b = filter (\<lambda>ev. a \<le> event_rev ev \<and> event_rev ev \<le> b) history"

definition admissible :: "etcd_event list \<Rightarrow> watch_state \<Rightarrow> watch_input \<Rightarrow> bool" where
  "admissible history st inp \<longleftrightarrow>
     (case inp of
        Response wresp opn ready \<Rightarrow>
          if opn \<and> wresp_Err wresp = None then
            0 < wresp_Revision wresp \<and> wresp_Revision wresp < 2 ^ 63 - 1 \<and>
            ws_since st \<le> wresp_Revision wresp + 1 \<and>
            wresp_Events wresp = window history (ws_since st) (wresp_Revision wresp)
          else \<not> isCompacted wresp
      | _ \<Rightarrow> True)"

inductive watch_trace ::
  "'w etcd \<Rightarrow> string \<Rightarrow> etcd_event list \<Rightarrow> watch_state \<Rightarrow> 'w \<Rightarrow> watch_state \<Rightarrow> 'w \<Rightarrow> bool"
  for ec :: "'w etcd" and prefix history where
  trace_refl: "watch_trace ec prefix history st w st w"
| trace_step: "watch_trace ec prefix history st w st1 w1 \<Longrightarrow> admissible history st1 inp \<Longrightarrow> ws_phase st1 \<noteq> Resyncing \<Longrightarrow>
    esr_watchSubnets_step ec prefix st1 inp w1 = Some (Ok st2, w2) \<Longrightarrow> watch_trace ec prefix history st w st2 w2"

definition readable :: "'w etcd \<Rightarrow> (etcd_event \<Rightarrow> Event) \<Rightarrow> etcd_event list \<Rightarrow> bool" where
  "readable ec conv history \<longleftrightarrow> (\<forall>ev \<in> set history. \<forall>w. parseSubnetWatchResponse ec ev w = Some (Ok (conv ev), w))"

definition enable4 :: "Event \<Rightarrow> Event" where
  "enable4 e = e\<lparr>ev_Lease := (ev_Lease e)\<lparr>lease_EnableIPv4 := True\<rparr>\<rparr>"

definition events_sent :: "watch_state \<Rightarrow> Event list" where
  "events_sent st = concat (map wr_Events (concat (ws_sent st)))"

lemma fold_events:
  assumes "\<forall>ev \<in> set evs. \<forall>w. parseSubnetWatchResponse ec ev w = Some (Ok (conv ev), w)"
  shows "io_fold (\<lambda>ev rs. io_bind (subnets_event_result ec prefix rv ev) (\<lambda>wr. io_ret (rs @ [wr]))) evs acc w =
     Some (Ok (acc @ map (\<lambda>ev. empty_wr\<lparr>wr_Events := [enable4 (conv ev)], wr_Cursor := Some (WatchCursor rv)\<rparr>) evs), w)"
  using assms
  by (induction evs arbitrary: acc) (simp_all add: subnets_event_result_def enable4_def)

lemma window_split:
  assumes "sorted (map event_rev history)" "a \<le> b" "b \<le> c + 1"
  shows "window history a (b - 1) @ window history b c = window history a c"
  using assms(1)
proof (induction history)
  case (Cons ev history)
  show ?case
  proof (cases "event_rev ev < b")
    case True
    with Cons assms(2,3) show ?thesis by (auto simp: window_def)
  next
    case False
    then have "\<forall>x \<in> set history. b \<le> event_rev x" using Cons.prems by auto
    then have "window history a (b - 1) = []" by (auto simp: window_def filter_empty_conv)
    with False Cons assms(2,3) show ?thesis by (auto simp: window_def)
  qed
qed (simp add: window_def)

lemma response_step:
  assumes "ws_phase st = Receiving" "wresp_Err wresp = None"
    "\<forall>ev \<in> set (wresp_Events wresp). \<forall>w. parseSubnetWatchResponse ec ev w = Some (Ok (conv ev), w)"
    "0 < wresp_Revision wresp" "wresp_Revision wresp < 2 ^ 63 - 1"
    "esr_watchSubnets_step ec prefix st (Response wresp True ready) w = Some (Ok st', w')"
  shows "w' = w \<and> ws_since st' = wresp_Revision wresp + 1 \<and> ws_phase st' = Receiving \<and>
     events_sent st' = events_sent st @ map (\<lambda>ev. enable4 (conv ev)) (wresp_Events wresp)"
proof -
  have i64: "int64 (wresp_Revision wresp + 1) = wresp_Revision wresp + 1"
    using assms(4,5) by (simp add: int64_def)
  let ?rs = "map (\<lambda>ev. empty_wr\<lparr>wr_Events := [enable4 (conv ev)],
      wr_Cursor := Some (WatchCursor (wresp_Revision wresp))\<rparr>) (wresp_Events wresp)"
  have st': "st' = send (advance st (wresp_Revision wresp)) ?rs" "w' = w"
    using assms(6) by (simp_all add: esr_watchSubnets_step_def assms(1,2) fold_events [OF assms(3)])
  have "concat (map wr_Events ?rs) = map (\<lambda>ev. enable4 (conv ev)) (wresp_Events wresp)"
    by (induction "wresp_Events wresp") (auto simp: comp_def)
  with st' i64 assms(1,4) show ?thesis
    by (cases "wresp_Events wresp = []") (simp_all add: events_sent_def send_def advance_def Let_def comp_def)
qed

definition trace_inv :: "etcd_event list \<Rightarrow> (etcd_event \<Rightarrow> Event) \<Rightarrow> int \<Rightarrow> watch_state \<Rightarrow> bool" where
  "trace_inv history conv start st \<longleftrightarrow>
     start \<le> ws_since st \<and> ws_phase st \<noteq> Resyncing \<and>
     events_sent st = map (\<lambda>ev. enable4 (conv ev)) (window history start (ws_since st - 1))"

lemma trace_inv_step:
  assumes "sorted (map event_rev history)" "readable ec conv history" "trace_inv history conv start st"
    "admissible history st inp" "esr_watchSubnets_step ec prefix st inp w = Some (Ok st', w')"
  shows "trace_inv history conv start st'"
proof (cases "ws_phase st = Receiving \<and> (\<exists>wresp ready. inp = Response wresp True ready \<and> wresp_Err wresp = None)")
  case True
  then obtain wresp ready where r: "ws_phase st = Receiving" "inp = Response wresp True ready" "wresp_Err wresp = None" by blast
  have a: "0 < wresp_Revision wresp" "wresp_Revision wresp < 2 ^ 63 - 1" "ws_since st \<le> wresp_Revision wresp + 1"
    "wresp_Events wresp = window history (ws_since st) (wresp_Revision wresp)"
    using assms(4) r by (simp_all add: admissible_def)
  have "\<forall>ev \<in> set (wresp_Events wresp). \<forall>w. parseSubnetWatchResponse ec ev w = Some (Ok (conv ev), w)"
    using assms(2) by (auto simp: a(4) readable_def window_def)
  from response_step [OF r(1,3) this a(1,2) assms(5) [unfolded r(2)]] assms(3) a
    window_split [OF assms(1), of start "ws_since st" "wresp_Revision wresp"]
  show ?thesis by (simp add: trace_inv_def flip: map_append)
next
  case False
  with assms(3-5) have "ws_since st' = ws_since st \<and> ws_sent st' = ws_sent st \<and> ws_phase st' \<noteq> Resyncing"
    by (auto simp: esr_watchSubnets_step_def admissible_def trace_inv_def grow_backoff_def
        split: watch_phase.splits watch_input.splits if_splits)
  with assms(3) show ?thesis by (simp add: trace_inv_def events_sent_def)
qed

lemma watch_trace_inv:
  assumes "sorted (map event_rev history)" "readable ec conv history"
  shows "watch_trace ec prefix history st w st' w' \<Longrightarrow> trace_inv history conv start st \<Longrightarrow> trace_inv history conv start st'"
  by (induction rule: watch_trace.induct) (auto intro: trace_inv_step [OF assms])

section \<open>Properties\<close>

text \<open>
  Whatever happens to the watch, the backoff stays between 100 milliseconds and 5 seconds,
  so the loop neither spins nor backs off without bound.
\<close>

theorem watch_backoff_bounded:
  assumes "watch_run (esr_watchSubnets_step ec prefix) inps (watch_start since) w = Some (Ok st, w')"
  shows "100000000 \<le> ws_backoff st \<and> ws_backoff st \<le> 5000000000"
proof -
  have "backoff_ok (watch_start since)" by (simp add: backoff_ok_def watch_start_def initialBackoff_def maxBackoff_def)
  then have "returns_state backoff_ok (watch_run (esr_watchSubnets_step ec prefix) inps (watch_start since))"
    by (intro watch_run_backoff watchSubnets_step_backoff)
  with assms have "backoff_ok st" unfolding returns_state_def by blast
  then show ?thesis by (simp add: backoff_ok_def initialBackoff_def maxBackoff_def)
qed

theorem watch_backoff_bounded_witness:
  "\<exists>st. watch_run (esr_watchSubnets_step mem_etcd demo_prefix) (replicate 8 (Opened False)) (watch_start 1) demo_world =
      Some (Ok st, demo_world) \<and> ws_backoff st \<le> 5000000000"
proof -
  obtain st where st: "watch_run (esr_watchSubnets_step mem_etcd demo_prefix) (replicate 8 (Opened False)) (watch_start 1) demo_world =
      Some (Ok st, demo_world)"
    by (simp add: go_eval eval_nat_numeral)
  with watch_backoff_bounded [OF st] show ?thesis by blast
qed


definition gone :: "int \<Rightarrow> etcd_event" where
  "gone rv = \<lparr>ee_Type = EventTypeDelete,
     ee_Kv = \<lparr>kv_Key = ''/coreos.com/network/subnets/10.3.1.0-24'', kv_Value = [], kv_Lease = 0, kv_ModRevision = rv\<rparr>\<rparr>"

definition gone_event :: Event where
  "gone_event = \<lparr>ev_Type = EventRemoved, ev_Lease = lease_of_key \<lparr>ip4_IP = 0x0a030100, ip4_PrefixLen = 24\<rparr> None\<rparr>"

definition answer :: "int \<Rightarrow> etcd_event list \<Rightarrow> watch_input" where
  "answer rv evs = Response \<lparr>wresp_Revision = rv, wresp_Events = evs, wresp_CompactRevision = 0, wresp_Err = None\<rparr> True True"

definition hangup :: watch_input where
  "hangup = Response \<lparr>wresp_Revision = 0, wresp_Events = [], wresp_CompactRevision = 0, wresp_Err = None\<rparr> False True"

lemma event_rev_gone [simp]: "event_rev (gone rv) = rv"
  by (simp add: event_rev_def gone_def)

lemma parse_gone [simp]: "parseSubnetWatchResponse mem_etcd (gone rv) w = Some (Ok gone_event, w)"
  by (simp add: go_eval gone_def gone_event_def)


text \<open>
  C24. One key below the subnets directory that is not a subnet makes every node forget every
  other node: the event of such a key is passed on as a result with neither events nor a
  snapshot, which the receiver takes for the snapshot of an empty registry, dropping all
  leases and reporting each of them as removed.
\<close>

theorem unreadable_event_removes_all:
  assumes "fst (ParseSubnetKey (kv_Key (ee_Kv ev))) = None"
  shows "\<exists>wr. subnets_event_result ec prefix rv ev w = Some (Ok wr, w) \<and>
     watch_result lw wr = Ok (lw\<lparr>lw_Leases := []\<rparr>, map (\<lambda>l. \<lparr>ev_Type = EventRemoved, ev_Lease = l\<rparr>) (lw_Leases lw))"
proof -
  obtain e where e: "parseSubnetWatchResponse ec ev w = Some (Err (ErrorString e), w)"
    using assms by (cases "ParseSubnetKey (kv_Key (ee_Kv ev))") (simp add: parseSubnetWatchResponse_def)
  then have "\<exists>wr. subnets_event_result ec prefix rv ev w = Some (Ok wr, w) \<and> wr_Events wr = [] \<and> wr_Snapshot wr = []"
    by (simp add: subnets_event_result_def isIndexTooSmall_def)
  then obtain wr where wr: "subnets_event_result ec prefix rv ev w = Some (Ok wr, w)" "wr_Events wr = []" "wr_Snapshot wr = []"
    by blast
  from wr(2,3) have "watch_result lw wr =
      Ok (lw\<lparr>lw_Leases := []\<rparr>, map (\<lambda>l. \<lparr>ev_Type = EventRemoved, ev_Lease = l\<rparr>) (lw_Leases lw))"
    by (simp add: watch_result_def lw_Reset_def)
  with wr(1) show ?thesis by blast
qed

definition stray :: etcd_event where
  "stray = \<lparr>ee_Type = EventTypePut, ee_Kv = \<lparr>kv_Key = ''/s/readme'', kv_Value = [], kv_Lease = 0, kv_ModRevision = 9\<rparr>\<rparr>"

definition informed :: LeaseWatcher where
  "informed = \<lparr>lw_OwnLease = Some (demo_held 0x0a030100), lw_Leases = [demo_held 0x0a030200]\<rparr>"

lemma stray_key: "fst (ParseSubnetKey (kv_Key (ee_Kv stray))) = None"
  by (simp add: go_eval stray_def)

theorem unreadable_event_removes_all_witness:
  "\<exists>wr. subnets_event_result mem_etcd ''/s'' 9 stray demo_world = Some (Ok wr, demo_world) \<and>
     watch_result informed wr =
       Ok (informed\<lparr>lw_Leases := []\<rparr>, [\<lparr>ev_Type = EventRemoved, ev_Lease = demo_held 0x0a030200\<rparr>])"
  using unreadable_event_removes_all [OF stray_key, of mem_etcd "''/s''" 9 demo_world informed]
  by (simp add: informed_def)

end
