(* ===== verification/Kube_Manager.thy ===== *)
theory Kube_Manager
  imports Etcd_Registry "HOL-Library.Multiset"
begin

text \<open>
  The Kubernetes subnet manager (\<open>pkg/subnet/kube\<close>): a node's lease is its pod CIDR, and its
  attributes are annotations of the node object. The API server, the informer's cache and the
  library's polling are the fields of the record \<open>kube\<close>; a node is the part of the API
  object the manager reads. The queue between the informer and \<open>WatchLeases\<close> is a bounded
  channel with asynchronous senders behind it.
\<close>

section \<open>Annotation names\<close>

record annotations =
  an_SubnetKubeManaged :: string
  an_BackendData :: string
  an_BackendV6Data :: string
  an_BackendType :: string
  an_BackendPublicIP :: string
  an_BackendPublicIPv6 :: string
  an_BackendNodePublicIP :: string
  an_BackendNodePublicIPv6 :: string
  an_BackendPublicIPOverwrite :: string
  an_BackendPublicIPv6Overwrite :: string

definition rx_label :: "char list" where
  "rx_label = ''abcdefghijklmnopqrstuvwxyz0123456789_-''"

definition prefixRegex :: rx where
  "prefixRegex =
     RSeq [RPlus (RSeq [RPlus (RSet rx_label), RSet ''.'']), RPlus (RSet rx_label), RSet ''/'',
           ROpt (RSeq [RPlus (RSet rx_label), RSet ''-'']), REnd]"

definition annotation_prefix :: "string \<Rightarrow> string" where
  "annotation_prefix prefix =
     (let p = (if CountChar prefix chr_slash = 0 then prefix @ ''/'' else prefix) in
      if \<not> HasSuffix p ''/'' \<and> \<not> HasSuffix p ''-'' then p @ ''-'' else p)"

definition annotations_of :: "string \<Rightarrow> annotations" where
  "annotations_of p =
     \<lparr>an_SubnetKubeManaged = p @ ''kube-subnet-manager'',
      an_BackendData = p @ ''backend-data'',
      an_BackendV6Data = p @ ''backend-v6-data'',
      an_BackendType = p @ ''backend-type'',
      an_BackendPublicIP = p @ ''public-ip'',
      an_BackendPublicIPv6 = p @ ''public-ipv6'',
      an_BackendNodePublicIP = p @ ''node-public-ip'',
      an_BackendNodePublicIPv6 = p @ ''node-public-ipv6'',
      an_BackendPublicIPOverwrite = p @ ''public-ip-overwrite'',
      an_BackendPublicIPv6Overwrite = p @ ''public-ipv6-overwrite''\<rparr>"

definition newAnnotations :: "string \<Rightarrow> annotations go" where
  "newAnnotations prefix =
     (if CountChar prefix chr_slash > 1 then
        Err (ErrorString ''subnet/kube: prefix can contain at most single slash'')
      else if rx_find prefixRegex (annotation_prefix prefix) = None then
        Err (ErrorString ''subnet/kube: prefix must be in a format: fqdn/[0-9a-z-_]*'')
      else Ok (annotations_of (annotation_prefix prefix)))"

section \<open>Nodes, the API client and the manager\<close>

text \<open>A nil annotation map can be read but not written.\<close>

record Node =
  node_Name :: string
  node_Annotations :: "(string \<Rightarrow> string option) option"
  node_PodCIDR :: string
  node_PodCIDRs :: "string list"

definition annotation :: "Node \<Rightarrow> string \<Rightarrow> string" where
  "annotation n k =
     (case node_Annotations n of
        None \<Rightarrow> []
      | Some am \<Rightarrow> (case am k of None \<Rightarrow> [] | Some v \<Rightarrow> v))"

definition nilMap :: gopanic where "nilMap = ExplicitPanic ''assignment to entry in nil map''"

record ('w, 'p) kube =
  kc_BuildConfig :: "string \<Rightarrow> string \<Rightarrow> ('w, unit) io"
  kc_NewForConfig :: "('w, unit) io"
  kc_PodNode :: "string \<Rightarrow> string \<Rightarrow> ('w, string) io"
  kc_ReadFile :: "string \<Rightarrow> ('w, string) io"
  kc_HasSynced :: "('w, bool) io"
  kc_GetNode :: "string \<Rightarrow> string \<Rightarrow> ('w, Node) io"
  kc_Store :: "string \<Rightarrow> ('w, Node option) io"
  kc_CreatePatch :: "Node \<Rightarrow> Node \<Rightarrow> 'p go"
  kc_Patch :: "string \<Rightarrow> 'p \<Rightarrow> ('w, unit) io"
  kc_Condition :: "int \<Rightarrow> string go"
  kc_PatchStatus :: "string \<Rightarrow> string \<Rightarrow> ('w, unit) io"
  kc_poll_node :: "int \<Rightarrow> int \<Rightarrow> ('w, Node option) io \<Rightarrow> ('w, Node) io"
  kc_poll :: "int \<Rightarrow> int \<Rightarrow> ('w, bool) io \<Rightarrow> ('w, unit) io"
  kc_Now :: "'w \<Rightarrow> int"

record subnetFileInfo =
  sfi_path :: string
  sfi_ipMask :: bool
  sfi_sn :: IP4Net
  sfi_IPv6sn :: IP6Net
  sfi_mtu :: int

record kubeSubnetManager =
  ksm_enableIPv4 :: bool
  ksm_enableIPv6 :: bool
  ksm_annotations :: annotations
  ksm_annotationPrefix :: string
  ksm_nodeName :: string
  ksm_subnetConf :: Config
  ksm_queueDepth :: nat
  ksm_hasClusterCIDRController :: bool
  ksm_setNodeNetworkUnavailable :: bool
  ksm_disableNodeInformer :: bool
  ksm_snFileInfo :: "subnetFileInfo option"

definition errKubeUnimplemented :: goerror where
  "errKubeUnimplemented = ErrorString ''unimplemented''"

definition nodeControllerSyncTimeout :: int where "nodeControllerSyncTimeout = 600 * Second"

section \<open>Construction\<close>

definition queue_depth :: "(string \<Rightarrow> string) \<Rightarrow> nat go" where
  "queue_depth env =
     (let s = env ''EVENT_QUEUE_DEPTH'' in
      if s = [] then Ok 5000
      else (case ParseInt 64 s of
              None \<Rightarrow> Err (ErrorString (''env EVENT_QUEUE_DEPTH='' @ s @ '' format error''))
            | Some n \<Rightarrow> Ok (if n > 0 then nat n else 5000)))"

definition newKubeSubnetManager ::
  "(string \<Rightarrow> string) \<Rightarrow> Config \<Rightarrow> string \<Rightarrow> string \<Rightarrow> kubeSubnetManager go" where
  "newKubeSubnetManager env sc nodeName prefix =
     go_bind (newAnnotations prefix) (\<lambda>a.
     go_bind (queue_depth env) (\<lambda>scale.
       Ok \<lparr>ksm_enableIPv4 = cfg_EnableIPv4 sc, ksm_enableIPv6 = cfg_EnableIPv6 sc, ksm_annotations = a,
           ksm_annotationPrefix = prefix, ksm_nodeName = nodeName, ksm_subnetConf = sc,
           ksm_queueDepth = scale, ksm_hasClusterCIDRController = False,
           ksm_setNodeNetworkUnavailable = False,
           ksm_disableNodeInformer = (cfg_BackendType sc = ''alloc''), ksm_snFileInfo = None\<rparr>))"

definition own_node_name :: "('w, 'p) kube \<Rightarrow> (string \<Rightarrow> string) \<Rightarrow> ('w, string) io" where
  "own_node_name kc env =
     (if env ''NODE_NAME'' \<noteq> [] then io_ret (env ''NODE_NAME'')
      else
        let podName = env ''POD_NAME''; podNamespace = env ''POD_NAMESPACE'' in
        if podName = [] \<or> podNamespace = [] then
          io_err (ErrorString ''env variables POD_NAME and POD_NAMESPACE must be set'')
        else
          io_try (kc_PodNode kc podNamespace podName)
            (\<lambda>nodeName.
               if nodeName = [] then io_err (ErrorString ''node name not present in pod spec'')
               else io_ret nodeName)
            (\<lambda>e. io_err (Wrapped ''error retrieving pod spec'' e)))"

definition NewSubnetManager ::
  "('w, 'p) kube \<Rightarrow> (string \<Rightarrow> string) \<Rightarrow> string \<Rightarrow> string \<Rightarrow> string \<Rightarrow> string \<Rightarrow> bool \<Rightarrow> ('w, kubeSubnetManager) io" where
  "NewSubnetManager kc env apiUrl kubeconfig prefix netConfPath unavailable =
     io_try (kc_BuildConfig kc apiUrl kubeconfig) (\<lambda>_.
     io_try (kc_NewForConfig kc) (\<lambda>_.
     io_bind (own_node_name kc env) (\<lambda>nodeName.
     io_try (kc_ReadFile kc netConfPath) (\<lambda>netConf.
     io_try (io_of (ParseConfig netConf)) (\<lambda>sc.
     io_try (io_of (newKubeSubnetManager env sc nodeName prefix)) (\<lambda>sm0.
       let sm = sm0\<lparr>ksm_setNodeNetworkUnavailable := unavailable\<rparr> in
       if ksm_disableNodeInformer sm then io_ret sm
       else
         io_try (kc_poll kc Second nodeControllerSyncTimeout (kc_HasSynced kc))
           (\<lambda>_. io_ret sm)
           (\<lambda>e. io_err (Wrapped ''error waiting for nodeController to sync state'' e)))
       (\<lambda>e. io_err (Wrapped ''error creating network manager'' e)))
       (\<lambda>e. io_err (Wrapped ''error parsing subnet config'' e)))
       (\<lambda>e. io_err (Wrapped ''failed to read net conf'' e))))
       (\<lambda>e. io_err (Wrapped ''unable to initialize client'' e)))
       (\<lambda>e. io_err (Wrapped ''fail to create kubernetes config'' e))"

section \<open>Leases of nodes\<close>

definition parse_pod_cidr :: "string \<Rightarrow> IPNet go" where
  "parse_pod_cidr s =
     (case ParseCIDR s of
        None \<Rightarrow> Err (ErrorString (''invalid CIDR address: '' @ s))
      | Some (_, n) \<Rightarrow> Ok n)"

definition errPodCidrs :: goerror where
  "errPodCidrs = ErrorString ''pod cidrs should be IPv4/IPv6 only or dualstack''"

fun first_cidr :: "(IPNet \<Rightarrow> bool) \<Rightarrow> string list \<Rightarrow> IPNet option go" where
  "first_cidr want [] = Ok None"
| "first_cidr want (s # ss) =
     go_bind (parse_pod_cidr s) (\<lambda>n. if want n then Ok (Some n) else first_cidr want ss)"

definition node_cidr :: "(IPNet \<Rightarrow> bool) \<Rightarrow> Node \<Rightarrow> IPNet option go" where
  "node_cidr want n =
     (if length (node_PodCIDRs n) = 0 then
        go_bind (parse_pod_cidr (node_PodCIDR n)) (\<lambda>c. Ok (if want c then Some c else None))
      else if length (node_PodCIDRs n) < 3 then first_cidr want (node_PodCIDRs n)
      else Err errPodCidrs)"

definition empty_lease :: Lease where
  "empty_lease =
     \<lparr>lease_EnableIPv4 = False, lease_EnableIPv6 = False, lease_Subnet = empty_IP4Net,
      lease_IPv6Subnet = empty_IP6Net, lease_Attrs = empty_attrs, lease_Expiration = 0, lease_Asof = 0\<rparr>"

definition node_lease4 :: "kubeSubnetManager \<Rightarrow> Node \<Rightarrow> Lease \<Rightarrow> Lease go" where
  "node_lease4 ksm n l =
     (if \<not> ksm_enableIPv4 ksm then Ok l
      else
        go_bind (ParseIP4 (annotation n (an_BackendPublicIP (ksm_annotations ksm)))) (\<lambda>pub.
        go_bind (node_cidr (\<lambda>c. To4 (ipn_IP c) \<noteq> []) n) (\<lambda>cidr.
          case cidr of
            None \<Rightarrow> Err (ErrorString ''missing IPv4 address on n.Spec.PodCIDRs'')
          | Some c \<Rightarrow>
              go_bind (FromIPNet c) (\<lambda>sn.
                Ok (l\<lparr>lease_Attrs := (lease_Attrs l)\<lparr>la_PublicIP := pub,
                        la_BackendData := Some (annotation n (an_BackendData (ksm_annotations ksm)))\<rparr>,
                      lease_Subnet := sn, lease_EnableIPv4 := True\<rparr>)))))"

definition node_lease6 :: "kubeSubnetManager \<Rightarrow> Node \<Rightarrow> Lease \<Rightarrow> Lease go" where
  "node_lease6 ksm n l =
     (if \<not> ksm_enableIPv6 ksm then Ok l
      else
        go_bind (ParseIP6 (annotation n (an_BackendPublicIPv6 (ksm_annotations ksm)))) (\<lambda>pub.
        go_bind (node_cidr (\<lambda>c. To4 (ipn_IP c) = []) n) (\<lambda>cidr.
          case cidr of
            None \<Rightarrow> Err (ErrorString ''missing IPv6 address on n.Spec.PodCIDRs'')
          | Some c \<Rightarrow>
              go_bind (FromIP6Net c) (\<lambda>sn6.
                Ok (l\<lparr>lease_Attrs := (lease_Attrs l)\<lparr>la_PublicIPv6 := Some pub,
                        la_BackendV6Data := Some (annotation n (an_BackendV6Data (ksm_annotations ksm)))\<rparr>,
                      lease_IPv6Subnet := sn6, lease_EnableIPv6 := True\<rparr>)))))"

definition nodeToLease :: "kubeSubnetManager \<Rightarrow> Node \<Rightarrow> Lease go" where
  "nodeToLease ksm n =
     go_bind (node_lease4 ksm n empty_lease) (\<lambda>l4.
     go_bind (node_lease6 ksm n l4) (\<lambda>l.
       Ok (l\<lparr>lease_Attrs := (lease_Attrs l)\<lparr>la_BackendType :=
              annotation n (an_BackendType (ksm_annotations ksm))\<rparr>\<rparr>)))"

section \<open>Events of the informer\<close>

text \<open>A handler either passes one event to the queue or nothing; a conversion error is logged.\<close>

definition kube_managed :: "kubeSubnetManager \<Rightarrow> Node \<Rightarrow> bool" where
  "kube_managed ksm n \<longleftrightarrow> annotation n (an_SubnetKubeManaged (ksm_annotations ksm)) = ''true''"

definition lease_event :: "kubeSubnetManager \<Rightarrow> EventType \<Rightarrow> Node \<Rightarrow> Event option go" where
  "lease_event ksm et n =
     (case nodeToLease ksm n of
        Ok l \<Rightarrow> Ok (Some \<lparr>ev_Type = et, ev_Lease = l\<rparr>)
      | Err e \<Rightarrow> Ok None
      | Panic p \<Rightarrow> Panic p)"

definition handleAddLeaseEvent :: "kubeSubnetManager \<Rightarrow> EventType \<Rightarrow> Node \<Rightarrow> Event option go" where
  "handleAddLeaseEvent ksm et n = (if \<not> kube_managed ksm n then Ok None else lease_event ksm et n)"

definition unchanged4 :: "annotations \<Rightarrow> Node \<Rightarrow> Node \<Rightarrow> bool" where
  "unchanged4 a old n \<longleftrightarrow>
     annotation old (an_BackendData a) = annotation n (an_BackendData a) \<and>
     annotation old (an_BackendType a) = annotation n (an_BackendType a) \<and>
     annotation old (an_BackendPublicIP a) = annotation n (an_BackendPublicIP a)"

definition unchanged6 :: "annotations \<Rightarrow> Node \<Rightarrow> Node \<Rightarrow> bool" where
  "unchanged6 a old n \<longleftrightarrow>
     annotation old (an_BackendV6Data a) = annotation n (an_BackendV6Data a) \<and>
     annotation old (an_BackendType a) = annotation n (an_BackendType a) \<and>
     annotation old (an_BackendPublicIPv6 a) = annotation n (an_BackendPublicIPv6 a)"

definition handleUpdateLeaseEvent :: "kubeSubnetManager \<Rightarrow> Node \<Rightarrow> Node \<Rightarrow> Event option go" where
  "handleUpdateLeaseEvent ksm old n =
     (if \<not> kube_managed ksm n then Ok None
      else if ksm_enableIPv4 ksm \<and> unchanged4 (ksm_annotations ksm) old n then Ok None
      else if ksm_enableIPv6 ksm \<and> unchanged6 (ksm_annotations ksm) old n then Ok None
      else lease_event ksm EventAdded n)"

datatype kube_obj = NodeObj Node | DeletedFinalStateUnknown kube_obj | OtherObj

definition as_node :: "kube_obj \<Rightarrow> Node go" where
  "as_node ob = (case ob of NodeObj n \<Rightarrow> Ok n | _ \<Rightarrow> Panic (ExplicitPanic ''interface conversion''))"

datatype informer_call = OnAdd kube_obj | OnUpdate kube_obj kube_obj | OnDelete kube_obj

fun informer_handler :: "kubeSubnetManager \<Rightarrow> informer_call \<Rightarrow> Event option go" where
  "informer_handler ksm (OnAdd ob) = go_bind (as_node ob) (handleAddLeaseEvent ksm EventAdded)"
| "informer_handler ksm (OnUpdate old ob) =
     go_bind (as_node old) (\<lambda>o1. go_bind (as_node ob) (handleUpdateLeaseEvent ksm o1))"
| "informer_handler ksm (OnDelete ob) =
     (case ob of
        NodeObj n \<Rightarrow> handleAddLeaseEvent ksm EventRemoved n
      | DeletedFinalStateUnknown (NodeObj n) \<Rightarrow> handleAddLeaseEvent ksm EventRemoved n
      | _ \<Rightarrow> Ok None)"

section \<open>The event queue\<close>

text \<open>
  The channel \<open>events\<close> with its capacity, the senders that wait behind it with their backoff,
  whether the context is cancelled, and what \<open>WatchLeases\<close> has sent to its receiver.
\<close>

record event_queue =
  eq_cap :: nat
  eq_events :: "Event list"
  eq_async :: "(Event \<times> int) list"
  eq_cancelled :: bool
  eq_sent :: "LeaseWatchResult list list"

definition has_room :: "event_queue \<Rightarrow> bool" where
  "has_room q \<longleftrightarrow> length (eq_events q) < eq_cap q"

definition asyncSlots :: nat where "asyncSlots = 100"

text \<open>Sending an event; \<open>None\<close> while the caller is blocked on the semaphore.\<close>

definition enqueueLeaseEvent :: "Event \<Rightarrow> event_queue \<Rightarrow> event_queue option" where
  "enqueueLeaseEvent evt q =
     (if has_room q then Some (q\<lparr>eq_events := eq_events q @ [evt]\<rparr>)
      else if length (eq_async q) < asyncSlots then Some (q\<lparr>eq_async := eq_async q @ [(evt, initialBackoff)]\<rparr>)
      else if eq_cancelled q then Some q
      else None)"

text \<open>One round of the loop of an asynchronous sender.\<close>

definition drop_at :: "nat \<Rightarrow> 'a list \<Rightarrow> 'a list" where
  "drop_at i xs = take i xs @ drop (Suc i) xs"

definition async_round :: "nat \<Rightarrow> bool \<Rightarrow> event_queue \<Rightarrow> event_queue option" where
  "async_round i see_done q =
     (if i < length (eq_async q) then
        (case eq_async q ! i of (evt, backoff) \<Rightarrow>
           if eq_cancelled q \<and> see_done then Some (q\<lparr>eq_async := drop_at i (eq_async q)\<rparr>)
           else if has_room q then Some (q\<lparr>eq_events := eq_events q @ [evt], eq_async := drop_at i (eq_async q)\<rparr>)
           else if eq_cancelled q then None
           else Some (q\<lparr>eq_async := (eq_async q)[i := (evt, min (backoff * 2) maxBackoff)]\<rparr>))
      else None)"

definition ksm_WatchLeases_step :: "event_queue \<Rightarrow> event_queue option" where
  "ksm_WatchLeases_step q =
     (case eq_events q of
        [] \<Rightarrow> None
      | e # es \<Rightarrow>
          Some (q\<lparr>eq_events := es,
                 eq_sent := eq_sent q @ [[\<lparr>wr_Events = [e], wr_Snapshot = [], wr_Cursor = None\<rparr>]]\<rparr>))"

datatype queue_action = Enqueue Event | AsyncRound nat bool | Receive | CancelContext

fun queue_step :: "queue_action \<Rightarrow> event_queue \<Rightarrow> event_queue option" where
  "queue_step (Enqueue e) q = enqueueLeaseEvent e q"
| "queue_step (AsyncRound i d) q = async_round i d q"
| "queue_step Receive q = ksm_WatchLeases_step q"
| "queue_step CancelContext q = Some (q\<lparr>eq_cancelled := True\<rparr>)"

fun queue_run :: "queue_action list \<Rightarrow> event_queue \<Rightarrow> event_queue option" where
  "queue_run [] q = Some q"
| "queue_run (a # as) q = (case queue_step a q of None \<Rightarrow> None | Some q' \<Rightarrow> queue_run as q')"

definition new_queue :: "kubeSubnetManager \<Rightarrow> event_queue" where
  "new_queue ksm = \<lparr>eq_cap = ksm_queueDepth ksm, eq_events = [], eq_async = [], eq_cancelled = False, eq_sent = []\<rparr>"

section \<open>Acquiring the lease\<close>

definition raw_json :: "string option \<Rightarrow> string" where
  "raw_json d = (case d of None \<Rightarrow> ''null'' | Some raw \<Rightarrow> raw)"

definition add_family :: "IPNet \<Rightarrow> IPNet option \<times> IPNet option \<Rightarrow> IPNet option \<times> IPNet option" where
  "add_family n cs =
     (if length (ipn_IP n) = 4 then (Some n, snd cs)
      else if length (ipn_IP n) = 16 then (fst cs, Some n)
      else cs)"

fun pod_cidr_loop :: "string list \<Rightarrow> IPNet option \<times> IPNet option \<Rightarrow> (IPNet option \<times> IPNet option) go" where
  "pod_cidr_loop [] cs = Ok cs"
| "pod_cidr_loop (s # ss) cs = go_bind (parse_pod_cidr s) (\<lambda>n. pod_cidr_loop ss (add_family n cs))"

definition pod_cidrs :: "Node \<Rightarrow> (IPNet option \<times> IPNet option) go" where
  "pod_cidrs n =
     (if length (node_PodCIDRs n) = 0 then pod_cidr_loop [node_PodCIDR n] (None, None)
      else if length (node_PodCIDRs n) < 3 then pod_cidr_loop (node_PodCIDRs n) (None, None)
      else Err errPodCidrs)"

definition outdated4 :: "annotations \<Rightarrow> Node \<Rightarrow> LeaseAttrs \<Rightarrow> bool" where
  "outdated4 a n attrs \<longleftrightarrow>
     annotation n (an_BackendData a) \<noteq> raw_json (la_BackendData attrs) \<or>
     annotation n (an_BackendType a) \<noteq> la_BackendType attrs \<or>
     annotation n (an_BackendPublicIP a) \<noteq> IP4_String (la_PublicIP attrs) \<or>
     annotation n (an_SubnetKubeManaged a) \<noteq> ''true'' \<or>
     (annotation n (an_BackendPublicIPOverwrite a) \<noteq> [] \<and>
      annotation n (an_BackendPublicIPOverwrite a) \<noteq> IP4_String (la_PublicIP attrs))"

definition outdated6 :: "annotations \<Rightarrow> Node \<Rightarrow> LeaseAttrs \<Rightarrow> bool go" where
  "outdated6 a n attrs =
     (case la_PublicIPv6 attrs of
        None \<Rightarrow> Ok False
      | Some v \<Rightarrow>
          if annotation n (an_BackendV6Data a) \<noteq> raw_json (la_BackendV6Data attrs) \<or>
             annotation n (an_BackendType a) \<noteq> la_BackendType attrs
          then Ok True
          else go_bind (IP6_String v) (\<lambda>s.
            Ok (annotation n (an_BackendPublicIPv6 a) \<noteq> s \<or>
                annotation n (an_SubnetKubeManaged a) \<noteq> ''true'' \<or>
                (annotation n (an_BackendPublicIPv6Overwrite a) \<noteq> [] \<and>
                 annotation n (an_BackendPublicIPv6Overwrite a) \<noteq> s))))"

definition outdated :: "annotations \<Rightarrow> Node \<Rightarrow> LeaseAttrs \<Rightarrow> bool go" where
  "outdated a n attrs = (if outdated4 a n attrs then Ok True else outdated6 a n attrs)"

definition entry :: "(string \<Rightarrow> string option) \<Rightarrow> string \<Rightarrow> string" where
  "entry am k = (case am k of None \<Rightarrow> [] | Some v \<Rightarrow> v)"

definition publishes4 :: "LeaseAttrs \<Rightarrow> bool" where
  "publishes4 attrs \<longleftrightarrow>
     (la_BackendType attrs = ''vxlan'' \<and> raw_json (la_BackendData attrs) \<noteq> ''null'') \<or>
     (la_BackendType attrs = ''wireguard'' \<and> raw_json (la_BackendData attrs) \<noteq> ''null'') \<or>
     la_BackendType attrs \<noteq> ''vxlan''"

definition publish4 :: "annotations \<Rightarrow> LeaseAttrs \<Rightarrow> (string \<Rightarrow> string option) \<Rightarrow> (string \<Rightarrow> string option)" where
  "publish4 a attrs am =
     (if \<not> publishes4 attrs then am
      else
        let am1 = am(an_BackendData a \<mapsto> raw_json (la_BackendData attrs));
            over = entry am1 (an_BackendPublicIPOverwrite a) in
        if over \<noteq> [] then
          (if entry am1 (an_BackendPublicIP a) \<noteq> over then am1(an_BackendPublicIP a \<mapsto> over) else am1)
        else am1(an_BackendPublicIP a \<mapsto> IP4_String (la_PublicIP attrs)))"

definition publishes6 :: "LeaseAttrs \<Rightarrow> bool" where
  "publishes6 attrs \<longleftrightarrow>
     (la_BackendType attrs = ''vxlan'' \<and> raw_json (la_BackendV6Data attrs) \<noteq> ''null'') \<or>
     (la_BackendType attrs = ''wireguard'' \<and> raw_json (la_BackendV6Data attrs) \<noteq> ''null'' \<and> la_PublicIPv6 attrs \<noteq> None) \<or>
     (la_BackendType attrs = ''host-gw'' \<and> la_PublicIPv6 attrs \<noteq> None) \<or>
     (la_BackendType attrs = ''extension'' \<and> la_PublicIPv6 attrs \<noteq> None)"

definition publish6 :: "annotations \<Rightarrow> LeaseAttrs \<Rightarrow> (string \<Rightarrow> string option) \<Rightarrow> (string \<Rightarrow> string option) go" where
  "publish6 a attrs am =
     (if \<not> publishes6 attrs then Ok am
      else
        let am1 = am(an_BackendV6Data a \<mapsto> raw_json (la_BackendV6Data attrs));
            over = entry am1 (an_BackendPublicIPv6Overwrite a) in
        if over \<noteq> [] then
          Ok (if entry am1 (an_BackendPublicIPv6 a) \<noteq> over then am1(an_BackendPublicIPv6 a \<mapsto> over) else am1)
        else
          go_bind (deref (la_PublicIPv6 attrs)) (\<lambda>v. go_bind (IP6_String v) (\<lambda>s.
            Ok (am1(an_BackendPublicIPv6 a \<mapsto> s)))))"

definition annotate :: "annotations \<Rightarrow> LeaseAttrs \<Rightarrow> Node \<Rightarrow> Node go" where
  "annotate a attrs n =
     (case node_Annotations n of
        None \<Rightarrow> Panic nilMap
      | Some am \<Rightarrow>
          go_bind (publish6 a attrs (publish4 a attrs (am(an_BackendType a \<mapsto> la_BackendType attrs)))) (\<lambda>am'.
            Ok (n\<lparr>node_Annotations := Some (am'(an_SubnetKubeManaged a \<mapsto> ''true''))\<rparr>)))"

definition containsCIDR :: "IPNet \<Rightarrow> IPNet \<Rightarrow> bool" where
  "containsCIDR ipnet1 ipnet2 \<longleftrightarrow>
     fst (mask_Size (ipn_Mask ipnet1)) \<le> fst (mask_Size (ipn_Mask ipnet2)) \<and>
     IPNet_Contains ipnet1 (ipn_IP ipnet2)"

definition kubeTimeout :: "goerror \<Rightarrow> goerror" where
  "kubeTimeout e = Wrapped ''timeout contacting kube-api, failed to patch node'' e"

definition cached_node :: "('w, 'p) kube \<Rightarrow> kubeSubnetManager \<Rightarrow> ('w, Node) io" where
  "cached_node kc ksm =
     io_try
       (kc_poll_node kc (3 * Second) (30 * Second)
          (if ksm_disableNodeInformer ksm then
             io_try (kc_GetNode kc (ksm_nodeName ksm) ''0'') (\<lambda>n. io_ret (Some n)) (\<lambda>_. io_ret None)
           else
             io_try (kc_Store kc (ksm_nodeName ksm)) io_ret (\<lambda>_. io_ret None)))
       io_ret (\<lambda>e. io_err (kubeTimeout e))"

definition patch_node :: "('w, 'p) kube \<Rightarrow> kubeSubnetManager \<Rightarrow> Node \<Rightarrow> Node \<Rightarrow> ('w, unit) io" where
  "patch_node kc ksm cachedNode n =
     io_try (io_of (kc_CreatePatch kc cachedNode n))
       (\<lambda>patchBytes.
          io_try
            (kc_poll kc (3 * Second) (30 * Second)
               (io_try (kc_Patch kc (ksm_nodeName ksm) patchBytes) (\<lambda>_. io_ret True) (\<lambda>_. io_ret False)))
            io_ret (\<lambda>e. io_err (kubeTimeout e)))
       (\<lambda>e. io_err (Wrapped ''failed to create patch for node'' e))"

definition lease_subnet4 :: "kubeSubnetManager \<Rightarrow> IPNet option \<Rightarrow> IP4Net go" where
  "lease_subnet4 ksm cidr =
     (case cidr of
        Some c \<Rightarrow>
          if \<not> ksm_enableIPv4 ksm then Ok empty_IP4Net
          else
            let nw = cfg_Network (ksm_subnetConf ksm) in
            if IP4Net_Empty nw \<or> \<not> containsCIDR (IP4Net_ToIPNet nw) c then
              Err (ErrorString ''subnet specified in the flannel net config does not contain PodCIDR of the node'')
            else FromIPNet c
      | None \<Rightarrow> Ok empty_IP4Net)"

definition lease_subnet6 :: "kubeSubnetManager \<Rightarrow> IPNet option \<Rightarrow> IP6Net go" where
  "lease_subnet6 ksm cidr =
     (case cidr of
        Some c \<Rightarrow>
          if \<not> ksm_enableIPv6 ksm then Ok empty_IP6Net
          else
            let nw = cfg_IPv6Network (ksm_subnetConf ksm);
                err = Err (ErrorString ''subnet specified in the flannel net config does not contain IPv6 PodCIDR of the node'') in
            if IP6Net_Empty nw then err
            else go_bind (IP6Net_ToIPNet nw) (\<lambda>nn. if containsCIDR nn c then FromIP6Net c else err)
      | None \<Rightarrow> Ok empty_IP6Net)"

definition kube_lease :: "kubeSubnetManager \<Rightarrow> LeaseAttrs \<Rightarrow> int \<Rightarrow> IPNet option \<times> IPNet option \<Rightarrow> Lease go" where
  "kube_lease ksm attrs now cs =
     go_bind (lease_subnet4 ksm (fst cs)) (\<lambda>sn.
     go_bind (lease_subnet6 ksm (snd cs)) (\<lambda>sn6.
       Ok (empty_lease\<lparr>lease_Attrs := attrs, lease_Expiration := now + 24 * 3600 * Second,
             lease_Subnet := sn, lease_IPv6Subnet := sn6,
             lease_EnableIPv4 := (la_BackendType attrs \<noteq> ''vxlan'' \<and> la_BackendType attrs \<noteq> ''host-gw'' \<and>
                                  la_BackendType attrs \<noteq> ''wireguard'')\<rparr>)))"

definition ksm_AcquireLease :: "('w, 'p) kube \<Rightarrow> kubeSubnetManager \<Rightarrow> LeaseAttrs \<Rightarrow> ('w, Lease) io" where
  "ksm_AcquireLease kc ksm attrs =
     io_bind (cached_node kc ksm) (\<lambda>n.
       if node_PodCIDR n = [] then io_err (ErrorString ''pod cidr not assigned'')
       else
         io_bind (io_of (pod_cidrs n)) (\<lambda>cs.
         io_bind (io_of (outdated (ksm_annotations ksm) n attrs)) (\<lambda>stale.
         io_bind (if stale then
                    io_bind (io_of (annotate (ksm_annotations ksm) attrs n)) (patch_node kc ksm n)
                  else io_ret ()) (\<lambda>_ w.
           io_of (kube_lease ksm attrs (kc_Now kc w) cs) w))))"

section \<open>The other operations\<close>

definition ksm_GetNetworkConfig :: "kubeSubnetManager \<Rightarrow> Config go" where
  "ksm_GetNetworkConfig ksm = Ok (ksm_subnetConf ksm)"

definition ksm_RenewLease :: "kubeSubnetManager \<Rightarrow> Lease \<Rightarrow> unit go" where
  "ksm_RenewLease ksm l = Err errKubeUnimplemented"

definition ksm_WatchLease :: "kubeSubnetManager \<Rightarrow> IP4Net \<Rightarrow> IP6Net \<Rightarrow> unit go" where
  "ksm_WatchLease ksm sn sn6 = Err errKubeUnimplemented"

definition ksm_Name :: "kubeSubnetManager \<Rightarrow> string" where
  "ksm_Name ksm = ''Kubernetes Subnet Manager - '' @ ksm_nodeName ksm"

definition ksm_CompleteLease :: "('w, 'p) kube \<Rightarrow> kubeSubnetManager \<Rightarrow> ('w, unit) io" where
  "ksm_CompleteLease kc ksm =
     io_bind
       (if ksm_hasClusterCIDRController ksm then
          io_try (kc_poll kc Second nodeControllerSyncTimeout (kc_HasSynced kc)) io_ret
            (\<lambda>e. io_err (Wrapped ''error waiting for clusterCIDR to sync state'' e))
        else io_ret ())
       (\<lambda>_. if \<not> ksm_setNodeNetworkUnavailable ksm then io_ret ()
            else (\<lambda>w. io_bind (io_of (kc_Condition kc (kc_Now kc w))) (\<lambda>raw.
                   kc_PatchStatus kc (ksm_nodeName ksm)
                     (''{'' @ json_quote ''status'' @ '':{'' @ json_quote ''conditions'' @ '':'' @ raw @ ''}}'')) w))"

definition stored_mac :: "Node \<Rightarrow> string \<Rightarrow> string" where
  "stored_mac n k =
     (case node_Annotations n of
        None \<Rightarrow> []
      | Some am \<Rightarrow>
          (case am k of
             None \<Rightarrow> []
           | Some backendData \<Rightarrow>
               (case Split (Trim backendData [chr_quote, CHR ''}'']) [CHR '':'', chr_quote] of
                  [_, macStr] \<Rightarrow> macStr
                | _ \<Rightarrow> [])))"

definition ksm_GetStoredMacAddresses :: "('w, 'p) kube \<Rightarrow> kubeSubnetManager \<Rightarrow> ('w, string \<times> string) io" where
  "ksm_GetStoredMacAddresses kc ksm =
     io_try (kc_GetNode kc (ksm_nodeName ksm) [])
       (\<lambda>n. io_ret (stored_mac n (ksm_annotationPrefix ksm @ ''/backend-data''),
                    stored_mac n (ksm_annotationPrefix ksm @ ''/backend-v6-data'')))
       (\<lambda>_. io_ret ([], []))"

definition ksm_GetStoredPublicIP :: "('w, 'p) kube \<Rightarrow> kubeSubnetManager \<Rightarrow> ('w, string \<times> string) io" where
  "ksm_GetStoredPublicIP kc ksm =
     io_try (kc_GetNode kc (ksm_nodeName ksm) [])
       (\<lambda>n. io_ret (annotation n (an_BackendNodePublicIP (ksm_annotations ksm)),
                    annotation n (an_BackendNodePublicIPv6 (ksm_annotations ksm))))
       (\<lambda>_. io_ret ([], []))"

lemmas [go_eval] =
  rx_label_def prefixRegex_def annotation_prefix_def annotations_of_def newAnnotations_def annotation_def nilMap_def
  queue_depth_def newKubeSubnetManager_def parse_pod_cidr_def node_cidr_def empty_lease_def node_lease4_def
  node_lease6_def nodeToLease_def kube_managed_def lease_event_def handleAddLeaseEvent_def unchanged4_def
  unchanged6_def handleUpdateLeaseEvent_def as_node_def has_room_def asyncSlots_def enqueueLeaseEvent_def drop_at_def
  async_round_def ksm_WatchLeases_step_def new_queue_def raw_json_def add_family_def pod_cidrs_def outdated4_def
  outdated6_def outdated_def entry_def publishes4_def publish4_def publishes6_def publish6_def annotate_def
  containsCIDR_def cached_node_def patch_node_def lease_subnet4_def lease_subnet6_def kube_lease_def
  ksm_AcquireLease_def stored_mac_def ksm_GetStoredMacAddresses_def ksm_GetStoredPublicIP_def

end
