(* ===== verification/Kube_Leases.thy ===== *)
theory Kube_Leases
  imports Kube_Manager
begin

text \<open>
  What the Kubernetes subnet manager guarantees: the event queue neither loses nor invents
  events but does not keep their order; a lease lies inside the configured network; and the
  annotations a node publishes are read back by the others. The client's behaviour is stated
  as \<open>kube_laws\<close> and holds of a cluster kept in memory.
\<close>

section \<open>The queue loses nothing\<close>

definition enqueued :: "queue_action list \<Rightarrow> Event list" where
  "enqueued as = concat (map (\<lambda>a. case a of Enqueue e \<Rightarrow> [e] | _ \<Rightarrow> []) as)"

definition delivered :: "event_queue \<Rightarrow> Event list" where
  "delivered q = concat (map wr_Events (concat (eq_sent q)))"

definition queue_content :: "event_queue \<Rightarrow> Event multiset" where
  "queue_content q = mset (delivered q) + mset (eq_events q) + mset (map fst (eq_async q))"

definition queue_ok :: "event_queue \<Rightarrow> bool" where
  "queue_ok q \<longleftrightarrow> length (eq_events q) \<le> eq_cap q \<and> length (eq_async q) \<le> asyncSlots \<and>
     (\<forall>(e, b) \<in> set (eq_async q). initialBackoff \<le> b \<and> b \<le> maxBackoff)"

lemma enqueued_simps [simp]: "enqueued [] = []"
  "enqueued (a # as) = (case a of Enqueue e \<Rightarrow> e # enqueued as | _ \<Rightarrow> enqueued as)"
  by (simp_all add: enqueued_def split: queue_action.split)

lemma set_drop_at: "set (drop_at i xs) \<subseteq> set xs"
  by (auto simp: drop_at_def dest: in_set_takeD in_set_dropD)

lemma length_drop_at: "length (drop_at i xs) \<le> length xs"
  by (simp add: drop_at_def)

lemma mset_drop_at: "i < length xs \<Longrightarrow> add_mset (xs ! i) (mset (drop_at i xs)) = mset xs"
  unfolding drop_at_def
  by (metis add_mset_add_single id_take_nth_drop mset.simps(2) mset_append union_mset_add_mset_right)

lemma queue_step_ok: "queue_step a q = Some q' \<Longrightarrow> queue_ok q \<Longrightarrow> queue_ok q' \<and> eq_cap q' = eq_cap q"
proof (cases a)
  case (AsyncRound i d)
  assume "queue_step a q = Some q'" and q: "queue_ok q"
  then have r: "async_round i d q = Some q'" by (simp add: AsyncRound)
  obtain e b where eb: "eq_async q ! i = (e, b)" by fastforce
  from r have i: "i < length (eq_async q)" by (simp add: async_round_def split: if_splits)
  then have b: "initialBackoff \<le> b" "b \<le> maxBackoff" using q nth_mem [OF i] eb by (auto simp: queue_ok_def)
  have "initialBackoff \<le> min (b * 2) maxBackoff" using b by (simp add: initialBackoff_def maxBackoff_def)
  then have *: "\<forall>(e, b) \<in> set ((eq_async q)[i := (e, min (b * 2) maxBackoff)]). initialBackoff \<le> b \<and> b \<le> maxBackoff"
    using q set_update_subset_insert [of "eq_async q" i] by (fastforce simp: queue_ok_def)
  have "length (drop_at i (eq_async q)) \<le> asyncSlots" using q length_drop_at [of i "eq_async q"] by (simp add: queue_ok_def)
  moreover have "\<forall>(e, b) \<in> set (drop_at i (eq_async q)). initialBackoff \<le> b \<and> b \<le> maxBackoff"
    using q set_drop_at by (fastforce simp: queue_ok_def)
  ultimately show ?thesis using r i q eb * by (auto simp: async_round_def queue_ok_def has_room_def split: if_splits)
qed (auto simp: enqueueLeaseEvent_def ksm_WatchLeases_step_def queue_ok_def has_room_def initialBackoff_def maxBackoff_def
      split: if_splits list.splits)

lemma queue_step_content:
  "queue_step a q = Some q' \<Longrightarrow> \<not> eq_cancelled q \<Longrightarrow> a \<noteq> CancelContext \<Longrightarrow>
   \<not> eq_cancelled q' \<and> queue_content q' = queue_content q + mset (enqueued [a])"
proof (cases a)
  case (AsyncRound i d)
  assume "queue_step a q = Some q'" and q: "\<not> eq_cancelled q"
  then have r: "async_round i d q = Some q'" by (simp add: AsyncRound)
  obtain e b where eb: "eq_async q ! i = (e, b)" by fastforce
  from r have i: "i < length (eq_async q)" by (simp add: async_round_def split: if_splits)
  have "add_mset (e, b) (mset (drop_at i (eq_async q))) = mset (eq_async q)" using mset_drop_at [OF i] eb by simp
  then have "image_mset fst (add_mset (e, b) (mset (drop_at i (eq_async q)))) = image_mset fst (mset (eq_async q))" by simp
  then have d: "add_mset e (image_mset fst (mset (drop_at i (eq_async q)))) = image_mset fst (mset (eq_async q))" by simp
  have "mset (map fst ((eq_async q)[i := (e, b')])) = mset (map fst (eq_async q))" for b'
    using i eb by (metis fst_conv list_update_id map_update nth_map)
  then have u: "image_mset fst (mset ((eq_async q)[i := (e, b')])) = image_mset fst (mset (eq_async q))" for b' by simp
  show ?thesis using r i q eb
    by (auto simp: async_round_def queue_content_def delivered_def AsyncRound u d split: if_splits)
qed (auto simp: enqueueLeaseEvent_def ksm_WatchLeases_step_def queue_content_def delivered_def split: if_splits list.splits)

lemma queue_run_ok: "queue_run as q = Some q' \<Longrightarrow> queue_ok q \<Longrightarrow> queue_ok q' \<and> eq_cap q' = eq_cap q"
  by (induction as arbitrary: q) (auto split: option.splits dest!: queue_step_ok)

lemma queue_run_content:
  "queue_run as q = Some q' \<Longrightarrow> \<not> eq_cancelled q \<Longrightarrow> CancelContext \<notin> set as \<Longrightarrow>
   queue_content q' = queue_content q + mset (enqueued as)"
proof (induction as arbitrary: q)
  case (Cons a as)
  then obtain q1 where q1: "queue_step a q = Some q1" "queue_run as q1 = Some q'" by (auto split: option.splits)
  with Cons.prems have "\<not> eq_cancelled q1" "queue_content q1 = queue_content q + mset (enqueued [a])"
    using queue_step_content [of a q q1] by auto
  with Cons.IH [OF q1(2)] Cons.prems(3) show ?case by (cases a) auto
qed simp

lemma run_then: "queue_run as q = Some q1 \<Longrightarrow> queue_run bs q1 = r \<Longrightarrow> queue_run (as @ bs) q = r"
  by (induction as arbitrary: q) (auto split: option.splits)

lemma fill_queue:
  "length (eq_events q) + length fs \<le> eq_cap q \<Longrightarrow>
   queue_run (map Enqueue fs) q = Some (q\<lparr>eq_events := eq_events q @ fs\<rparr>)"
  by (induction fs arbitrary: q) (simp_all add: enqueueLeaseEvent_def has_room_def)

lemma drain_queue:
  "queue_run (replicate (length (eq_events q)) Receive) q =
     Some (q\<lparr>eq_events := [], eq_sent := eq_sent q @
       map (\<lambda>e. [\<lparr>wr_Events = [e], wr_Snapshot = [], wr_Cursor = None\<rparr>]) (eq_events q)\<rparr>)"
proof (induction "eq_events q" arbitrary: q)
  case Nil
  then show ?case by (cases q) simp
next
  case (Cons e es)
  from Cons.hyps(2) have "queue_step Receive q = Some (q\<lparr>eq_events := es,
      eq_sent := eq_sent q @ [[\<lparr>wr_Events = [e], wr_Snapshot = [], wr_Cursor = None\<rparr>]]\<rparr>)" (is "_ = Some ?q1")
    by (simp add: ksm_WatchLeases_step_def flip: Cons.hyps(2))
  with Cons.hyps(1) [of ?q1] show ?case by (simp flip: Cons.hyps(2))
qed

section \<open>What the client does with nodes\<close>

text \<open>
  The behaviour of the API server and of the polling that the manager relies on, over a view
  of the nodes in a world: reads return the current node, a merge patch sets the annotations
  that were changed and leaves the rest of the node alone, a failed patch may or may not have
  been applied, and a successful poll ends with a round of its condition that succeeded.
\<close>

definition merge_annotations :: "Node \<Rightarrow> Node \<Rightarrow> Node \<Rightarrow> Node" where
  "merge_annotations old new cur =
     (case (node_Annotations old, node_Annotations new, node_Annotations cur) of
        (Some a, Some b, Some c) \<Rightarrow> cur\<lparr>node_Annotations := Some (\<lambda>k. if a k = b k then c k else b k)\<rparr>
      | _ \<Rightarrow> cur)"

definition polls :: "('w, 'b) io \<Rightarrow> ('a \<Rightarrow> 'b) \<Rightarrow> ('w, 'a) io \<Rightarrow> bool" where
  "polls c done loop \<longleftrightarrow>
     (\<forall>I w x w'. (\<forall>v r v'. I v \<longrightarrow> c v = Some (r, v') \<longrightarrow> I v') \<longrightarrow> I w \<longrightarrow> loop w = Some (Ok x, w') \<longrightarrow>
        (\<exists>v. I v \<and> c v = Some (Ok (done x), w')))"

definition kube_laws :: "('w, 'p) kube \<Rightarrow> ('w \<Rightarrow> string \<Rightarrow> Node option) \<Rightarrow> bool" where
  "kube_laws kc view \<longleftrightarrow>
     (\<forall>name w r w'. kc_Store kc name w = Some (r, w') \<longrightarrow>
        view w' = view w \<and> (\<forall>n. r = Ok (Some n) \<longrightarrow> view w name = Some n)) \<and>
     (\<forall>name v w r w'. kc_GetNode kc name v w = Some (r, w') \<longrightarrow>
        view w' = view w \<and> (\<forall>n. r = Ok n \<longrightarrow> view w name = Some n)) \<and>
     (\<forall>old new p name w r w' cur.
        kc_CreatePatch kc old new = Ok p \<longrightarrow> kc_Patch kc name p w = Some (r, w') \<longrightarrow> view w name = Some cur \<longrightarrow>
        view w' = (view w)(name \<mapsto> merge_annotations old new cur) \<or> (r \<noteq> Ok () \<and> view w' = view w)) \<and>
     (\<forall>i t c. polls c Some (kc_poll_node kc i t c)) \<and>
     (\<forall>i t c. polls c (\<lambda>_. True) (kc_poll kc i t c))"

lemma kube_lawsD:
  assumes "kube_laws kc view"
  shows "kc_Store kc name w = Some (r, w') \<Longrightarrow> view w' = view w \<and> (\<forall>n. r = Ok (Some n) \<longrightarrow> view w name = Some n)"
    and "kc_GetNode kc name v w = Some (q, w') \<Longrightarrow> view w' = view w \<and> (\<forall>n. q = Ok n \<longrightarrow> view w name = Some n)"
    and "kc_CreatePatch kc old new = Ok p \<Longrightarrow> kc_Patch kc name p w = Some (u, w') \<Longrightarrow> view w name = Some cur \<Longrightarrow>
      view w' = (view w)(name \<mapsto> merge_annotations old new cur) \<or> (u \<noteq> Ok () \<and> view w' = view w)"
    and "polls c Some (kc_poll_node kc i t c)"
    and "polls b (\<lambda>_. True) (kc_poll kc i t b)"
proof -
  note laws = assms [unfolded kube_laws_def]
  show "kc_Store kc name w = Some (r, w') \<Longrightarrow> view w' = view w \<and> (\<forall>n. r = Ok (Some n) \<longrightarrow> view w name = Some n)"
    using conjunct1 [OF laws] by blast
  show "kc_GetNode kc name v w = Some (q, w') \<Longrightarrow> view w' = view w \<and> (\<forall>n. q = Ok n \<longrightarrow> view w name = Some n)"
    using conjunct1 [OF conjunct2 [OF laws]] by blast
  show "kc_CreatePatch kc old new = Ok p \<Longrightarrow> kc_Patch kc name p w = Some (u, w') \<Longrightarrow> view w name = Some cur \<Longrightarrow>
      view w' = (view w)(name \<mapsto> merge_annotations old new cur) \<or> (u \<noteq> Ok () \<and> view w' = view w)"
    using conjunct1 [OF conjunct2 [OF conjunct2 [OF laws]]] by blast
  show "polls c Some (kc_poll_node kc i t c)" "polls b (\<lambda>_. True) (kc_poll kc i t b)" using laws by simp_all
qed

lemma pollsD:
  assumes "polls c done loop" "loop w = Some (Ok x, w')" "I w"
    "\<And>v r v'. I v \<Longrightarrow> c v = Some (r, v') \<Longrightarrow> I v'"
  shows "\<exists>v. I v \<and> c v = Some (Ok (done x), w')"
  using assms unfolding polls_def by blast

lemma cached_node_view:
  assumes k: "kube_laws kc view" and c: "cached_node kc ksm w = Some (Ok n, w')"
  shows "view w' = view w \<and> view w (ksm_nodeName ksm) = Some n"
proof -
  let ?name = "ksm_nodeName ksm"
  define rd where "rd = (if ksm_disableNodeInformer ksm then
       io_try (kc_GetNode kc ?name ''0'') (\<lambda>n. io_ret (Some n)) (\<lambda>_. io_ret None)
     else io_try (kc_Store kc ?name) io_ret (\<lambda>_. io_ret None))"
  have rd: "view v' = view v \<and> (\<forall>n. r = Ok (Some n) \<longrightarrow> view v ?name = Some n)" if "rd v = Some (r, v')" for v r v'
  proof (cases "ksm_disableNodeInformer ksm")
    case True
    with that have "io_try (kc_GetNode kc ?name ''0'') (\<lambda>n. io_ret (Some n)) (\<lambda>_. io_ret None) v = Some (r, v')"
      by (simp add: rd_def)
    then show ?thesis
    proof (cases rule: io_try_cases)
      case (ok n v1)
      then show ?thesis using kube_lawsD(2) [OF k ok(1)] by auto
    next
      case (err e v1)
      then show ?thesis using kube_lawsD(2) [OF k err(1)] by auto
    next
      case (panic e)
      then show ?thesis using kube_lawsD(2) [OF k panic(1)] by auto
    qed
  next
    case False
    with that have "io_try (kc_Store kc ?name) io_ret (\<lambda>_. io_ret None) v = Some (r, v')" by (simp add: rd_def)
    then show ?thesis
    proof (cases rule: io_try_cases)
      case (ok n v1)
      then show ?thesis using kube_lawsD(1) [OF k ok(1)] by auto
    next
      case (err e v1)
      then show ?thesis using kube_lawsD(1) [OF k err(1)] by auto
    next
      case (panic e)
      then show ?thesis using kube_lawsD(1) [OF k panic(1)] by auto
    qed
  qed
  from c have "kc_poll_node kc (3 * Second) (30 * Second) rd w = Some (Ok n, w')"
    unfolding cached_node_def rd_def by (cases rule: io_try_cases) simp_all
  then have "\<exists>v. view v = view w \<and> rd v = Some (Ok (Some n), w')"
  proof (rule pollsD [OF kube_lawsD(4) [OF k]])
    fix v r v' assume "view v = view w" "rd v = Some (r, v')"
    then show "view v' = view w" using rd [of v r v'] by simp
  qed simp
  then obtain v where v: "view v = view w" "rd v = Some (Ok (Some n), w')" by blast
  show ?thesis using rd [OF v(2)] v(1) by simp
qed

lemma merge_same:
  assumes "node_Annotations old = Some a" "new = old\<lparr>node_Annotations := Some b\<rparr>"
  shows "merge_annotations old new old = new" "merge_annotations old new new = new"
proof -
  have "(\<lambda>k. if a k = b k then a k else b k) = b" by auto
  then show "merge_annotations old new old = new" using assms by (simp add: merge_annotations_def)
  show "merge_annotations old new new = new" using assms by (simp add: merge_annotations_def)
qed

lemma patch_node_view:
  assumes k: "kube_laws kc view" and c: "patch_node kc ksm old new w = Some (Ok (), w')"
    and old: "view w (ksm_nodeName ksm) = Some old" "node_Annotations old = Some a" "new = old\<lparr>node_Annotations := Some b\<rparr>"
  shows "view w' (ksm_nodeName ksm) = Some new"
proof -
  let ?name = "ksm_nodeName ksm"
  from c obtain p where p: "kc_CreatePatch kc old new = Ok p" unfolding patch_node_def
    by (cases rule: io_try_cases) auto
  define at where "at = io_try (kc_Patch kc ?name p) (\<lambda>_. io_ret True) (\<lambda>_. io_ret False)"
  have poll: "kc_poll kc (3 * Second) (30 * Second) at w = Some (Ok (), w')"
    using c unfolding patch_node_def at_def by (simp add: p) (erule io_try_cases; simp)
  have at: "view v' ?name = Some new \<or> r \<noteq> Ok True \<and> view v' = view v"
    if "view v ?name = Some old \<or> view v ?name = Some new" "at v = Some (r, v')" for v r v'
  proof -
    from that(1) obtain cur where cur: "view v ?name = Some cur" "merge_annotations old new cur = new"
      using merge_same [OF old(2,3)] by auto
    from that(2) [unfolded at_def] show ?thesis
    proof (cases rule: io_try_cases)
      case (ok u v1)
      then show ?thesis using kube_lawsD(3) [OF k p ok(1) cur(1)] cur(2) by auto
    next
      case (err e v1)
      then show ?thesis using kube_lawsD(3) [OF k p err(1) cur(1)] cur(2) by auto
    next
      case (panic e)
      then show ?thesis using kube_lawsD(3) [OF k p panic(1) cur(1)] cur(2) by auto
    qed
  qed
  from poll have "\<exists>v. (view v ?name = Some old \<or> view v ?name = Some new) \<and> at v = Some (Ok True, w')"
  proof (rule pollsD [OF kube_lawsD(5) [OF k]])
    fix v r v' assume "view v ?name = Some old \<or> view v ?name = Some new" "at v = Some (r, v')"
    then show "view v' ?name = Some old \<or> view v' ?name = Some new" using at [of v r v'] by auto
  qed (simp add: old(1))
  then show ?thesis using at by blast
qed

section \<open>The published annotations\<close>

definition published4 :: "annotations \<Rightarrow> LeaseAttrs \<Rightarrow> Node \<Rightarrow> bool" where
  "published4 a attrs n \<longleftrightarrow>
     annotation n (an_BackendData a) = raw_json (la_BackendData attrs) \<and>
     annotation n (an_BackendType a) = la_BackendType attrs \<and>
     annotation n (an_BackendPublicIP a) = IP4_String (la_PublicIP attrs) \<and>
     annotation n (an_SubnetKubeManaged a) = ''true''"

lemma annotate_published:
  assumes "annotate (annotations_of p) attrs n = Ok n'" "publishes4 attrs"
    "annotation n (an_BackendPublicIPOverwrite (annotations_of p)) = []"
  shows "published4 (annotations_of p) attrs n' \<and>
    (\<exists>a b. node_Annotations n = Some a \<and> n' = n\<lparr>node_Annotations := Some b\<rparr>)"
proof -
  from assms(1) obtain am where am: "node_Annotations n = Some am" by (auto simp: annotate_def split: option.splits)
  let ?a = "annotations_of p"
  let ?am4 = "publish4 ?a attrs (am(an_BackendType ?a \<mapsto> la_BackendType attrs))"
  from assms(1) am obtain am' where am': "publish6 ?a attrs ?am4 = Ok am'"
    "n' = n\<lparr>node_Annotations := Some (am'(an_SubnetKubeManaged ?a \<mapsto> ''true''))\<rparr>"
    by (auto simp: annotate_def go_bind_Ok_iff)
  have same: "am' k = ?am4 k" if "k \<in> {an_BackendData ?a, an_BackendType ?a, an_BackendPublicIP ?a}" for k
    using am'(1) that
    by (auto simp: publish6_def go_bind_Ok_iff annotations_of_def Let_def split: if_splits)
  have "entry (am(an_BackendType ?a \<mapsto> la_BackendType attrs, an_BackendData ?a \<mapsto> raw_json (la_BackendData attrs)))
      (an_BackendPublicIPOverwrite ?a) = []"
    using assms(3) am by (simp add: entry_def annotation_def annotations_of_def)
  then have "?am4 = am(an_BackendType ?a \<mapsto> la_BackendType attrs, an_BackendData ?a \<mapsto> raw_json (la_BackendData attrs),
      an_BackendPublicIP ?a \<mapsto> IP4_String (la_PublicIP attrs))"
    using assms(2) by (simp add: publish4_def)
  with same have "am' (an_BackendData ?a) = Some (raw_json (la_BackendData attrs))"
    "am' (an_BackendType ?a) = Some (la_BackendType attrs)"
    "am' (an_BackendPublicIP ?a) = Some (IP4_String (la_PublicIP attrs))"
    by (simp_all add: annotations_of_def)
  then have "published4 ?a attrs n'" unfolding am'(2) published4_def by (simp add: annotation_def annotations_of_def)
  with am am'(2) show ?thesis by blast
qed

lemma current_published: "outdated a n attrs = Ok False \<Longrightarrow> published4 a attrs n"
  by (auto simp: outdated_def outdated4_def published4_def split: if_splits)

lemma acquire_published:
  assumes k: "kube_laws kc view" and a: "ksm_annotations ksm = annotations_of p"
    and acq: "ksm_AcquireLease kc ksm attrs w = Some (Ok l, w')" and "publishes4 attrs"
    and n: "view w (ksm_nodeName ksm) = Some n" "annotation n (an_BackendPublicIPOverwrite (ksm_annotations ksm)) = []"
  obtains n' m cs where "view w' (ksm_nodeName ksm) = Some n'" "published4 (ksm_annotations ksm) attrs n'"
    "n' = n\<lparr>node_Annotations := m\<rparr>" "pod_cidrs n = Ok cs" "kube_lease ksm attrs (kc_Now kc w') cs = Ok l"
proof -
  from acq obtain n1 w1 where c: "cached_node kc ksm w = Some (Ok n1, w1)"
    unfolding ksm_AcquireLease_def by (auto simp: io_bind_Ok_iff)
  have v: "view w1 = view w" "n1 = n" using cached_node_view [OF k c] n(1) by auto
  from acq c v obtain cs stale where cs: "pod_cidrs n = Ok cs" "outdated (ksm_annotations ksm) n attrs = Ok stale"
    and rest: "(if stale then io_bind (io_of (annotate (ksm_annotations ksm) attrs n)) (patch_node kc ksm n)
                  else io_ret ()) w1 = Some (Ok (), w')" "kube_lease ksm attrs (kc_Now kc w') cs = Ok l"
    unfolding ksm_AcquireLease_def by (auto simp: io_bind_Ok_iff split: if_splits)
  show ?thesis
  proof (cases stale)
    case True
    with rest(1) obtain n' where n': "annotate (ksm_annotations ksm) attrs n = Ok n'" "patch_node kc ksm n n' w1 = Some (Ok (), w')"
      by (auto simp: io_bind_Ok_iff)
    with annotate_published [OF n'(1) [unfolded a] assms(4) n(2) [unfolded a]]
    obtain x b where "published4 (ksm_annotations ksm) attrs n'" "node_Annotations n = Some x"
      "n' = n\<lparr>node_Annotations := Some b\<rparr>" by (auto simp: a)
    with that patch_node_view [OF k n'(2), of x b] n(1) v cs(1) rest(2) show ?thesis by auto
  next
    case False
    with rest(1) have "w' = w1" by simp
    with that [of n "node_Annotations n"] False v n(1) cs rest(2) current_published show ?thesis by auto
  qed
qed

section \<open>Pod networks\<close>

definition pod_list :: "Node \<Rightarrow> string list" where
  "pod_list n = (if node_PodCIDRs n = [] then [node_PodCIDR n] else node_PodCIDRs n)"

definition ipv4_pods :: "Node \<Rightarrow> IPNet list" where
  "ipv4_pods n =
     concat (map (\<lambda>s. case ParseCIDR s of
                        None \<Rightarrow> []
                      | Some (_, c) \<Rightarrow> if To4 (ipn_IP c) \<noteq> [] then [c] else []) (pod_list n))"

lemma pod_loop_parsed:
  "pod_cidr_loop ss cs0 = Ok cs \<Longrightarrow> \<exists>ns. map parse_pod_cidr ss = map Ok ns \<and> cs = fold add_family ns cs0"
proof (induction ss arbitrary: cs0)
  case (Cons s ss)
  then obtain n where n: "parse_pod_cidr s = Ok n" "pod_cidr_loop ss (add_family n cs0) = Ok cs"
    by (auto simp: go_bind_Ok_iff)
  from Cons.IH [OF n(2)] obtain ns where "map parse_pod_cidr ss = map Ok ns" "cs = fold add_family ns (add_family n cs0)"
    by blast
  with n(1) have "map parse_pod_cidr (s # ss) = map Ok (n # ns) \<and> cs = fold add_family (n # ns) cs0" by simp
  then show ?case by blast
qed simp

lemma first_cidr_parsed: "map parse_pod_cidr ss = map Ok ns \<Longrightarrow> first_cidr want ss = Ok (find want ns)"
  by (induction ss arbitrary: ns) auto

lemma pod_cidrs_parsed:
  assumes "pod_cidrs n = Ok cs"
  obtains ns where "map parse_pod_cidr (pod_list n) = map Ok ns" "cs = fold add_family ns (None, None)"
    "\<And>want. node_cidr want n = Ok (find want ns)"
proof -
  have "length (node_PodCIDRs n) < 3" "pod_cidr_loop (pod_list n) (None, None) = Ok cs"
    using assms by (auto simp: pod_cidrs_def pod_list_def split: if_splits)
  from this(1) pod_loop_parsed [OF this(2)] obtain ns where ns: "map parse_pod_cidr (pod_list n) = map Ok ns"
    "cs = fold add_family ns (None, None)" by blast
  have "node_cidr want n = first_cidr want (pod_list n)" for want
    using \<open>length (node_PodCIDRs n) < 3\<close>
    by (cases "parse_pod_cidr (node_PodCIDR n)") (auto simp: node_cidr_def pod_list_def)
  with ns that first_cidr_parsed [OF ns(1)] show ?thesis by simp
qed

lemma ipv4_pods_filter:
  assumes "map parse_pod_cidr (pod_list n) = map Ok ns"
  shows "ipv4_pods n = filter (\<lambda>c. To4 (ipn_IP c) \<noteq> []) ns"
proof -
  have "concat (map (\<lambda>s. case ParseCIDR s of
           None \<Rightarrow> [] | Some (_, c) \<Rightarrow> if To4 (ipn_IP c) \<noteq> [] then [c] else []) ss)
      = filter (\<lambda>c. To4 (ipn_IP c) \<noteq> []) ns" if "map parse_pod_cidr ss = map Ok ns" for ss ns
    using that by (induction ss arbitrary: ns) (auto simp: parse_pod_cidr_def split: option.splits prod.splits)
  with assms show ?thesis by (simp add: ipv4_pods_def)
qed

lemma fold_family_keep:
  "\<forall>n \<in> set ns. length (ipn_IP n) \<noteq> 4 \<Longrightarrow> fst (fold add_family ns cs) = fst cs"
  by (induction ns arbitrary: cs) (auto simp: add_family_def)

lemma single_ipv4_pod:
  assumes "filter (\<lambda>c. To4 (ipn_IP c) \<noteq> []) ns = [c]" "length (ipn_IP c) = 4"
  shows "fst (fold add_family ns (None, None)) = Some c" "find (\<lambda>c. To4 (ipn_IP c) \<noteq> []) ns = Some c"
proof -
  obtain xs ys where "ns = xs @ c # ys" "\<forall>x \<in> set xs. To4 (ipn_IP x) = []" "[] = filter (\<lambda>c. To4 (ipn_IP c) \<noteq> []) ys"
    using assms(1) [unfolded filter_eq_Cons_iff] by auto
  then have ns: "ns = xs @ c # ys" "\<forall>x \<in> set xs. To4 (ipn_IP x) = []" "\<forall>y \<in> set ys. To4 (ipn_IP y) = []"
    by (simp_all add: filter_empty_conv eq_commute [of "[]"])
  have "\<forall>x \<in> set xs \<union> set ys. length (ipn_IP x) \<noteq> 4" using ns(2,3) To4_four by fastforce
  then show "fst (fold add_family ns (None, None)) = Some c"
    using assms(2) by (simp add: ns(1) fold_family_keep add_family_def)
  show "find (\<lambda>c. To4 (ipn_IP c) \<noteq> []) ns = Some c"
  proof -
    have "find P (us @ c # vs) = Some c" if "\<forall>u \<in> set us. \<not> P u" "P c" for P us vs
      using that by (induction us) auto
    moreover have "To4 (ipn_IP c) \<noteq> []" using To4_four [OF assms(2)] assms(2) by auto
    ultimately show ?thesis using ns(2) by (simp add: ns(1))
  qed
qed

lemma ParseCIDR_four:
  assumes "ParseCIDR s = Some (ip, c)" "length (ipn_IP c) = 4"
  obtains p where "p \<le> 32" "ipn_Mask c = CIDRMask (int p) 32"
proof -
  from assms(1) obtain addr msk bs where "CutChar s chr_slash = Some (addr, msk)" "ParseAddr addr = Some bs"
    by (auto simp: ParseCIDR_def split: option.splits)
  moreover define p where "p = dec_val msk"
  ultimately have bs: "p \<le> 8 * length bs" "ipn_Mask c = CIDRMask (int p) (8 * length bs)"
    "ipn_IP c = IP_Mask (if length bs = 4 then v4InV6Prefix @ bs else bs) (CIDRMask (int p) (8 * length bs))"
    using assms(1) by (auto simp: ParseCIDR_def Let_def split: if_splits)
  have "length bs = 4"
  proof (rule ccontr)
    assume "length bs \<noteq> 4"
    with bs(3) assms(2) show False
      by (cases "length bs = 16") (auto simp: IP_Mask_def CIDRMask_def Let_def split: if_splits)
  qed
  with bs that show ?thesis by simp
qed

lemma containsCIDR_subset:
  assumes nw: "ip4_wf nw" and c: "length (ipn_IP c) = 4" "ipn_Mask c = CIDRMask (int p) 32" "p \<le> 32"
    and co: "containsCIDR (IP4Net_ToIPNet nw) c" and sn: "FromIPNet c = Ok sn"
  shows "ip4_wf sn \<and> ip4_addrs sn \<subseteq> ip4_addrs nw"
proof -
  obtain a b d e where ip: "ipn_IP c = [a, b, d, e]"
    using c(1) by (auto simp: length_Suc_conv numeral_eq_Suc)
  have size: "mask_Size (CIDRMask (int q) 32) = (q, 32)" if "q \<le> 32" for q
    using CIDRMask_32 [OF that] by auto
  have sn': "sn = \<lparr>ip4_IP = octets_word a b d e, ip4_PrefixLen = of_nat p\<rparr>"
    using sn ip c(2) size [OF c(3)] by (simp add: FromIPNet_def FromIP_four)
  then have wf: "ip4_wf sn" using c(3) by (simp add: ip4_wf_def unat_uint_le unat_of_nat)
  have bits: "ip4_bits sn = 32 - p" using c(3) by (simp add: sn' ip4_bits_def unat_of_nat)
  let ?q = "unat (ip4_PrefixLen nw)"
  have q: "?q \<le> 32" using nw by (simp add: ip4_wf_def unat_uint_le)
  have "ip4_PrefixLen nw \<le> 128" using nw order_trans [of "ip4_PrefixLen nw" 32 128] by (simp add: ip4_wf_def)
  then have sq: "sint (ip4_PrefixLen nw) = int ?q" by (rule sint_prefix)
  obtain m1 m2 m3 m4 where m: "CIDRMask (sint (ip4_PrefixLen nw)) 32 = [m1, m2, m3, m4]" "octets_word m1 m2 m3 m4 = IP4Net_Mask nw"
    using CIDRMask_32 [OF q] nw unfolding sq by (auto simp: IP4Net_Mask_def shift_count ip4_wf_def)
  obtain x1 x2 x3 x4 where x: "Octets (ip4_IP nw) = (x1, x2, x3, x4)" "ip4_IP nw = octets_word x1 x2 x3 x4"
    by (rule Octets_cases)
  have t4: "To4 (net_IPv4 x1 x2 x3 x4) = [x1, x2, x3, x4]" by (simp add: To4_def net_IPv4_def v4InV6Prefix_def)
  have nn: "networkNumberAndMask (IP4Net_ToIPNet nw) = ([x1, x2, x3, x4], [m1, m2, m3, m4])"
    by (simp add: networkNumberAndMask_def IP4Net_ToIPNet_def IP4_ToIP_def x(1) t4 m(1))
  have "To4 [a, b, d, e] = [a, b, d, e]" by (simp add: To4_def)
  with co have "x1 AND m1 = a AND m1" "x2 AND m2 = b AND m2" "x3 AND m3 = d AND m3" "x4 AND m4 = e AND m4"
    by (simp_all add: containsCIDR_def IPNet_Contains_def nn ip)
  then have "octets_word (x1 AND m1) (x2 AND m2) (x3 AND m3) (x4 AND m4)
      = octets_word (a AND m1) (b AND m2) (d AND m3) (e AND m4)" by simp
  then have "IP4Net_Contains nw (ip4_IP sn)"
    by (simp add: IP4Net_Contains_def octets_word_AND m(2) sn' flip: x(2))
  then have "ip4_IP sn \<in> ip4_addrs nw" by (simp add: Contains_div [OF nw] in_ip4_addrs_div)
  moreover have "?q \<le> p"
    using co size [OF q] size [OF c(3)] unfolding containsCIDR_def IP4Net_ToIPNet_def sq c(2) by simp
  then have "ip4_bits sn \<le> ip4_bits nw" unfolding bits ip4_bits_def [of nw] by simp
  ultimately show ?thesis using wf subset_blocks_iff [OF nw wf] by simp
qed

lemma lease_subnet4_network:
  assumes "ip4_wf (cfg_Network (ksm_subnetConf ksm))" "pod_cidrs n = Ok cs" "lease_subnet4 ksm (fst cs) = Ok sn"
  shows "sn = empty_IP4Net \<or> (ip4_wf sn \<and> ip4_addrs sn \<subseteq> ip4_addrs (cfg_Network (ksm_subnetConf ksm)))"
proof (cases "sn = empty_IP4Net")
  case False
  with assms(3) obtain c where c: "fst cs = Some c" "containsCIDR (IP4Net_ToIPNet (cfg_Network (ksm_subnetConf ksm))) c"
    "FromIPNet c = Ok sn"
    by (auto simp: lease_subnet4_def Let_def split: option.splits if_splits)
  from assms(2) obtain ns where ns: "map parse_pod_cidr (pod_list n) = map Ok ns" "cs = fold add_family ns (None, None)"
    by (rule pod_cidrs_parsed)
  have "fst (fold add_family xs z) = Some c \<Longrightarrow> fst z = Some c \<or> c \<in> set xs \<and> length (ipn_IP c) = 4" for xs z
    by (induction xs arbitrary: z) (fastforce simp: add_family_def split: if_splits)+
  from this [of ns "(None, None)"] c(1) ns(2) have "c \<in> set ns" "length (ipn_IP c) = 4" by simp_all
  then have "Ok c \<in> set (map parse_pod_cidr (pod_list n))" by (simp add: ns(1))
  then obtain s ip where "ParseCIDR s = Some (ip, c)"
    by (auto simp: parse_pod_cidr_def split: option.splits)
  then obtain p where "p \<le> 32" "ipn_Mask c = CIDRMask (int p) 32"
    using \<open>length (ipn_IP c) = 4\<close> by (rule ParseCIDR_four)
  with containsCIDR_subset [OF assms(1) \<open>length (ipn_IP c) = 4\<close> _ _ c(2,3)] show ?thesis by blast
qed simp

section \<open>A cluster of one node\<close>

type_synonym cluster = "string \<Rightarrow> Node option"

definition once_node :: "('w, Node option) io \<Rightarrow> ('w, Node) io" where
  "once_node c = io_bind c (\<lambda>r. case r of None \<Rightarrow> io_err (ErrorString ''timed out'') | Some n \<Rightarrow> io_ret n)"

definition once_done :: "('w, bool) io \<Rightarrow> ('w, unit) io" where
  "once_done c = io_bind c (\<lambda>d. if d then io_ret () else io_err (ErrorString ''timed out''))"

definition mem_kube :: "(cluster, Node \<times> Node) kube" where
  "mem_kube =
     \<lparr>kc_BuildConfig = (\<lambda>_ _. io_ret ()), kc_NewForConfig = io_ret (), kc_PodNode = (\<lambda>_ _. io_ret []),
      kc_ReadFile = (\<lambda>_. io_ret []), kc_HasSynced = io_ret True,
      kc_GetNode = (\<lambda>name _ w. Some (case w name of None \<Rightarrow> Err (ErrorString ''not found'') | Some n \<Rightarrow> Ok n, w)),
      kc_Store = (\<lambda>name w. Some (Ok (w name), w)),
      kc_CreatePatch = (\<lambda>old new. Ok (old, new)),
      kc_Patch = (\<lambda>name (old, new) w.
        (case w name of
           None \<Rightarrow> Some (Err (ErrorString ''not found''), w)
         | Some cur \<Rightarrow> Some (Ok (), w(name \<mapsto> merge_annotations old new cur)))),
      kc_Condition = (\<lambda>_. Ok []), kc_PatchStatus = (\<lambda>_ _. io_ret ()),
      kc_poll_node = (\<lambda>_ _. once_node), kc_poll = (\<lambda>_ _. once_done), kc_Now = (\<lambda>_. 0)\<rparr>"

lemma mem_kube_laws: "kube_laws mem_kube (\<lambda>w. w)"
proof -
  have "polls c Some (once_node c)" for c :: "(cluster, Node option) io"
    unfolding polls_def once_node_def by (auto simp: io_bind_Ok_iff split: option.splits)
  moreover have "polls c (\<lambda>_. True) (once_done c)" for c :: "(cluster, bool) io"
    unfolding polls_def once_done_def by (auto simp: io_bind_Ok_iff split: if_splits)
  ultimately show ?thesis
    unfolding kube_laws_def mem_kube_def by (auto split: option.splits)
qed

definition kube_conf :: Config where
  "kube_conf = new_Config\<lparr>cfg_EnableIPv4 := True, cfg_Network := \<lparr>ip4_IP = 0x0a000000, ip4_PrefixLen = 8\<rparr>,
     cfg_BackendType := ''host-gw''\<rparr>"

definition kube_mgr :: "kubeSubnetManager" where
  "kube_mgr = \<lparr>ksm_enableIPv4 = True, ksm_enableIPv6 = False, ksm_annotations = annotations_of ''a.b/'',
     ksm_annotationPrefix = ''a.b'', ksm_nodeName = ''n1'', ksm_subnetConf = kube_conf, ksm_queueDepth = 5000,
     ksm_hasClusterCIDRController = False, ksm_setNodeNetworkUnavailable = False, ksm_disableNodeInformer = False,
     ksm_snFileInfo = None\<rparr>"

definition kube_node :: "(string \<Rightarrow> string option) option \<Rightarrow> Node" where
  "kube_node am = \<lparr>node_Name = ''n1'', node_Annotations = am, node_PodCIDR = ''10.1.2.0/24'', node_PodCIDRs = [''10.1.2.0/24'']\<rparr>"

definition kube_attrs :: LeaseAttrs where
  "kube_attrs = \<lparr>la_PublicIP = 0xC0A80105, la_PublicIPv6 = None, la_BackendType = ''host-gw'', la_BackendData = None,
     la_BackendV6Data = None\<rparr>"

lemma kube_mgr_new: "newKubeSubnetManager (\<lambda>_. []) kube_conf ''n1'' ''a.b'' = Ok kube_mgr"
  by (simp add: go_eval kube_mgr_def kube_conf_def new_Config_def)

lemma kube_prefix: "newAnnotations ''a.b'' = Ok (ksm_annotations kube_mgr)"
  by (simp add: go_eval kube_mgr_def)

definition pod_net :: IPNet where
  "pod_net = \<lparr>ipn_IP = [10, 1, 2, 0], ipn_Mask = [255, 255, 255, 0]\<rparr>"

lemma parse_pod_net: "ParseCIDR ''10.1.2.0/24'' = Some (net_IPv4 10 1 2 0, pod_net)"
  by (simp add: go_eval pod_net_def)

lemma kube_pods: "pod_cidrs (kube_node am) = Ok (Some pod_net, None)" "ipv4_pods (kube_node am) = [pod_net]"
  by (simp_all add: pod_cidrs_def kube_node_def parse_pod_cidr_def parse_pod_net add_family_def pod_net_def
      ipv4_pods_def pod_list_def To4_def)

lemma kube_acquired:
  "\<exists>l w'. ksm_AcquireLease mem_kube kube_mgr kube_attrs [''n1'' \<mapsto> kube_node (Some Map.empty)] = Some (Ok l, w') \<and>
     lease_Subnet l = \<lparr>ip4_IP = 0x0a010200, ip4_PrefixLen = 24\<rparr>"
  by (simp add: go_eval mem_kube_def kube_mgr_def kube_attrs_def kube_conf_def new_Config_def once_node_def once_done_def
      kube_node_def)

definition demo_added :: Event where
  "demo_added = \<lparr>ev_Type = EventAdded, ev_Lease = empty_lease\<rparr>"

definition demo_removed :: Event where
  "demo_removed = \<lparr>ev_Type = EventRemoved, ev_Lease = empty_lease\<rparr>"

definition dual_mgr :: kubeSubnetManager where
  "dual_mgr = kube_mgr\<lparr>ksm_enableIPv6 := True\<rparr>"

definition dual_node :: "string \<Rightarrow> Node" where
  "dual_node ip6 = \<lparr>node_Name = ''n2'',
     node_Annotations = Some [''a.b/kube-subnet-manager'' \<mapsto> ''true'', ''a.b/backend-type'' \<mapsto> ''host-gw'',
       ''a.b/public-ip'' \<mapsto> ''192.168.1.5'', ''a.b/public-ipv6'' \<mapsto> ip6],
     node_PodCIDR = ''10.1.2.0/24'', node_PodCIDRs = [''10.1.2.0/24'', ''fd01::/64'']\<rparr>"

lemma dual_leases:
  "\<exists>l l'. nodeToLease dual_mgr (dual_node ''fd00::1'') = Ok l \<and> nodeToLease dual_mgr (dual_node ''fd00::2'') = Ok l' \<and>
     la_PublicIPv6 (lease_Attrs l) \<noteq> la_PublicIPv6 (lease_Attrs l')"
  by (simp add: go_eval dual_mgr_def kube_mgr_def dual_node_def)

lemma dual_unchanged:
  "informer_handler dual_mgr (OnUpdate (NodeObj (dual_node a)) (NodeObj (dual_node b))) = Ok None"
  by (simp add: go_eval dual_mgr_def kube_mgr_def dual_node_def)

section \<open>Properties\<close>

text \<open>
  C25. No lease event is lost or made up in the queue between the informer and \<open>WatchLeases\<close>:
  for every schedule of handlers, asynchronous senders and receives, without cancellation,
  the events delivered, queued and held by a sender are together the events handed in. The
  channel never exceeds its capacity, at most a hundred senders wait, and their backoff is
  at most five seconds.
\<close>

theorem queue_keeps_events:
  assumes "queue_run as (new_queue ksm) = Some q" "CancelContext \<notin> set as"
  shows "mset (delivered q) + mset (eq_events q) + mset (map fst (eq_async q)) = mset (enqueued as) \<and>
    length (eq_events q) \<le> ksm_queueDepth ksm \<and> length (eq_async q) \<le> 100 \<and>
    (\<forall>(e, b) \<in> set (eq_async q). b \<le> 5000000000)"
proof -
  have "queue_ok (new_queue ksm)" by (simp add: queue_ok_def new_queue_def)
  from queue_run_ok [OF assms(1) this] have "queue_ok q" "eq_cap q = ksm_queueDepth ksm" by (simp_all add: new_queue_def)
  moreover have "queue_content q = queue_content (new_queue ksm) + mset (enqueued as)"
    by (rule queue_run_content [OF assms(1) _ assms(2)]) (simp add: new_queue_def)
  ultimately show ?thesis
    by (auto simp: queue_ok_def asyncSlots_def maxBackoff_def queue_content_def new_queue_def delivered_def)
qed

theorem queue_keeps_events_witness:
  "\<exists>q. queue_run [Enqueue demo_added, Receive, Enqueue demo_added] (new_queue kube_mgr) = Some q \<and>
     mset (delivered q) + mset (eq_events q) + mset (map fst (eq_async q)) = {#demo_added, demo_added#}"
proof -
  obtain q where q: "queue_run [Enqueue demo_added, Receive, Enqueue demo_added] (new_queue kube_mgr) = Some q"
    by (simp add: go_eval kube_mgr_def)
  with queue_keeps_events [OF q] show ?thesis by simp
qed


text \<open>
  The queue does not keep the order of events. When the channel is full, an event is left
  to an asynchronous sender, and a later event that finds room overtakes it: a node that was
  added and then removed can be reported as removed first and added last.
\<close>

theorem async_event_overtaken:
  assumes "ksm_queueDepth ksm = length fs" "fs \<noteq> []"
  shows "\<exists>q. queue_run (map Enqueue fs @ [Enqueue a, Receive, Enqueue b, Receive, AsyncRound 0 False] @
           replicate (length fs) Receive) (new_queue ksm) = Some q \<and> delivered q = fs @ [b, a]"
proof -
  obtain f gs where fs: "fs = f # gs" using assms(2) by (cases fs) auto
  let ?r = "\<lambda>e. [\<lparr>wr_Events = [e], wr_Snapshot = [], wr_Cursor = None\<rparr>]"
  define q1 where "q1 = (new_queue ksm)\<lparr>eq_events := fs\<rparr>"
  have 1: "queue_run (map Enqueue fs) (new_queue ksm) = Some q1"
    using fill_queue [of "new_queue ksm" fs] assms(1) by (simp add: new_queue_def q1_def)
  obtain h hs where h: "gs @ [b] = h # hs" by (cases gs) auto
  define q2 where "q2 = \<lparr>eq_cap = length fs, eq_events = hs @ [a], eq_async = [], eq_cancelled = False,
    eq_sent = [?r f, ?r h]\<rparr>"
  have len: "length hs = length gs" using arg_cong [OF h, of length] by simp
  have 2: "queue_run [Enqueue a, Receive, Enqueue b, Receive, AsyncRound 0 False] q1 = Some q2"
    by (simp add: q1_def q2_def new_queue_def assms(1) fs enqueueLeaseEvent_def has_room_def asyncSlots_def
        ksm_WatchLeases_step_def async_round_def drop_at_def h len)
  have "length (eq_events q2) = length fs" by (simp add: q2_def fs len)
  with drain_queue [of q2] obtain q where 3: "queue_run (replicate (length fs) Receive) q2 = Some q"
    "eq_sent q = eq_sent q2 @ map ?r (eq_events q2)" by auto
  have "delivered q = f # h # hs @ [a]" by (simp add: delivered_def 3(2) q2_def comp_def)
  then have "delivered q = fs @ [b, a]" using h by (simp add: fs)
  with run_then [OF 1 run_then [OF 2 3(1)]] show ?thesis by blast
qed

theorem async_event_overtaken_witness:
  "\<exists>q. queue_run [Enqueue demo_added, Enqueue demo_added, Receive, Enqueue demo_removed, Receive, AsyncRound 0 False, Receive]
       (new_queue (kube_mgr\<lparr>ksm_queueDepth := 1\<rparr>)) = Some q \<and> delivered q = [demo_added, demo_removed, demo_added]"
  using async_event_overtaken [of "kube_mgr\<lparr>ksm_queueDepth := 1\<rparr>" "[demo_added]" demo_added demo_removed] by simp


text \<open>
  In a dual-stack cluster, an update of a node that changes only its IPv6 address gives the
  node a different lease but produces no event, so that the other nodes keep the old address.
\<close>

theorem dual_stack_update_dropped:
  "\<exists>l l'. nodeToLease dual_mgr (dual_node ''fd00::1'') = Ok l \<and> nodeToLease dual_mgr (dual_node ''fd00::2'') = Ok l' \<and>
     la_PublicIPv6 (lease_Attrs l) \<noteq> la_PublicIPv6 (lease_Attrs l') \<and>
     informer_handler dual_mgr (OnUpdate (NodeObj (dual_node ''fd00::1'')) (NodeObj (dual_node ''fd00::2''))) = Ok None"
  using dual_leases dual_unchanged by blast

text \<open>
  A node object without annotations makes \<open>AcquireLease\<close> panic: the annotations are
  written into a nil map.
\<close>

theorem unannotated_node_panics:
  assumes "cached_node kc ksm w = Some (Ok n, w')" "node_Annotations n = None" "node_PodCIDR n \<noteq> []"
    "pod_cidrs n = Ok cs"
  shows "ksm_AcquireLease kc ksm attrs w = Some (Panic (ExplicitPanic ''assignment to entry in nil map''), w')"
proof -
  have "outdated (ksm_annotations ksm) n attrs = Ok True"
    using assms(2) by (simp add: outdated_def outdated4_def annotation_def)
  moreover have "annotate (ksm_annotations ksm) attrs n = Panic nilMap" using assms(2) by (simp add: annotate_def)
  ultimately show ?thesis using assms by (simp add: ksm_AcquireLease_def nilMap_def)
qed

theorem unannotated_node_panics_witness:
  "ksm_AcquireLease mem_kube kube_mgr kube_attrs [''n1'' \<mapsto> kube_node None] =
     Some (Panic (ExplicitPanic ''assignment to entry in nil map''), [''n1'' \<mapsto> kube_node None])"
proof -
  have "cached_node mem_kube kube_mgr [''n1'' \<mapsto> kube_node None] = Some (Ok (kube_node None), [''n1'' \<mapsto> kube_node None])"
    by (simp add: go_eval mem_kube_def kube_mgr_def once_node_def)
  moreover have "node_Annotations (kube_node None) = None" "node_PodCIDR (kube_node None) \<noteq> []" by (simp_all add: kube_node_def)
  ultimately show ?thesis using kube_pods(1) by (intro unannotated_node_panics)
qed


text \<open>
  C26. A lease acquired from Kubernetes has no IPv4 subnet or one that lies inside the
  configured network, whatever pod CIDRs the node carries.
\<close>

theorem kube_subnet_in_network:
  assumes "ksm_AcquireLease kc ksm attrs w = Some (Ok l, w')"
    "ip4_PrefixLen (cfg_Network (ksm_subnetConf ksm)) \<le> 32"
  shows "lease_Subnet l = empty_IP4Net \<or>
    {ip. IP4Net_Contains (lease_Subnet l) ip} \<subseteq> {ip. IP4Net_Contains (cfg_Network (ksm_subnetConf ksm)) ip}"
proof -
  from assms(1) obtain n cs where "pod_cidrs n = Ok cs" "kube_lease ksm attrs (kc_Now kc w') cs = Ok l"
    unfolding ksm_AcquireLease_def by (auto simp: io_bind_Ok_iff split: if_splits)
  moreover from this(2) have "lease_subnet4 ksm (fst cs) = Ok (lease_Subnet l)"
    by (auto simp: kube_lease_def go_bind_Ok_iff)
  moreover have nw: "ip4_wf (cfg_Network (ksm_subnetConf ksm))" using assms(2) by (simp add: ip4_wf_def)
  ultimately have "lease_Subnet l = empty_IP4Net \<or>
      (ip4_wf (lease_Subnet l) \<and> ip4_addrs (lease_Subnet l) \<subseteq> ip4_addrs (cfg_Network (ksm_subnetConf ksm)))"
    by (intro lease_subnet4_network)
  moreover have "{ip. IP4Net_Contains x ip} = ip4_addrs x" if "ip4_wf x" for x
    using that by (auto simp: Contains_div in_ip4_addrs_div)
  ultimately show ?thesis using nw by auto
qed

theorem kube_subnet_in_network_witness:
  "\<exists>l w'. ksm_AcquireLease mem_kube kube_mgr kube_attrs [''n1'' \<mapsto> kube_node (Some Map.empty)] = Some (Ok l, w') \<and>
     lease_Subnet l \<noteq> empty_IP4Net \<and>
     {ip. IP4Net_Contains (lease_Subnet l) ip} \<subseteq> {ip. IP4Net_Contains \<lparr>ip4_IP = 0x0a000000, ip4_PrefixLen = 8\<rparr> ip}"
proof -
  obtain l w' where l: "ksm_AcquireLease mem_kube kube_mgr kube_attrs [''n1'' \<mapsto> kube_node (Some Map.empty)] = Some (Ok l, w')"
    "lease_Subnet l = \<lparr>ip4_IP = 0x0a010200, ip4_PrefixLen = 24\<rparr>" using kube_acquired by blast
  have nw: "cfg_Network (ksm_subnetConf kube_mgr) = \<lparr>ip4_IP = 0x0a000000, ip4_PrefixLen = 8\<rparr>"
    by (simp add: kube_mgr_def kube_conf_def)
  with kube_subnet_in_network [OF l(1)] l show ?thesis by auto
qed




end
