(* ===== verification/Netlink.thy ===== *)
theory Netlink
  imports Etcd_Registry
begin

text \<open>
  The kernel as the program sees it through the \<open>netlink\<close> package and the interface queries
  of \<open>net\<close>: routes, addresses, links and neighbour entries as data, and every call the
  program makes as a field of the record \<open>netlink\<close>. What the development assumes of these
  calls is stated where it is used. \<open>nl_retry\<close> is the retry library's \<open>Do\<close>.
\<close>

record Route =
  rt_Dst :: "IPNet option"
  rt_Gw :: net_IP
  rt_Src :: net_IP
  rt_LinkIndex :: int
  rt_Scope :: int
  rt_Type :: int
  rt_Family :: int
  rt_Flags :: int

definition no_route :: Route where
  "no_route = \<lparr>rt_Dst = None, rt_Gw = [], rt_Src = [], rt_LinkIndex = 0, rt_Scope = 0, rt_Type = 0,
     rt_Family = 0, rt_Flags = 0\<rparr>"

record Addr =
  addr_IPNet :: IPNet
  addr_Flags :: int

type_synonym HardwareAddr = "byte list"

record LinkAttrs =
  lk_Index :: int
  lk_MTU :: int
  lk_Name :: string
  lk_HardwareAddr :: HardwareAddr

record Vxlan =
  vx_Attrs :: LinkAttrs
  vx_VxlanId :: int
  vx_VtepDevIndex :: int
  vx_SrcAddr :: net_IP
  vx_Group :: net_IP
  vx_Port :: int
  vx_Learning :: bool
  vx_L2miss :: bool
  vx_GBP :: bool

record Iptun =
  tun_Attrs :: LinkAttrs
  tun_Local :: net_IP
  tun_Remote :: net_IP

datatype Link = VxlanLink Vxlan | IptunLink Iptun | OtherLink LinkAttrs string

primrec Link_Attrs :: "Link \<Rightarrow> LinkAttrs" where
  "Link_Attrs (VxlanLink v) = vx_Attrs v"
| "Link_Attrs (IptunLink t) = tun_Attrs t"
| "Link_Attrs (OtherLink a ty) = a"

primrec Link_Type :: "Link \<Rightarrow> string" where
  "Link_Type (VxlanLink v) = ''vxlan''"
| "Link_Type (IptunLink t) = ''ipip''"
| "Link_Type (OtherLink a ty) = ty"

record Neigh =
  ng_LinkIndex :: int
  ng_Family :: int
  ng_State :: int
  ng_Type :: int
  ng_Flags :: int
  ng_IP :: net_IP
  ng_HardwareAddr :: HardwareAddr

record Interface =
  if_Index :: int
  if_MTU :: int
  if_Name :: string

abbreviation (input) FAMILY_V4 :: int where "FAMILY_V4 \<equiv> 2"
abbreviation (input) FAMILY_V6 :: int where "FAMILY_V6 \<equiv> 10"
abbreviation (input) AF_BRIDGE :: int where "AF_BRIDGE \<equiv> 7"
abbreviation (input) FLAG_ONLINK :: int where "FLAG_ONLINK \<equiv> 4"
abbreviation (input) RTN_UNICAST :: int where "RTN_UNICAST \<equiv> 1"
abbreviation (input) RTN_BLACKHOLE :: int where "RTN_BLACKHOLE \<equiv> 6"
abbreviation (input) NUD_PERMANENT :: int where "NUD_PERMANENT \<equiv> 128"
abbreviation (input) NTF_SELF :: int where "NTF_SELF \<equiv> 2"
abbreviation (input) RT_FILTER_DST :: int where "RT_FILTER_DST \<equiv> 64"
abbreviation (input) RT_FILTER_TYPE :: int where "RT_FILTER_TYPE \<equiv> 4"
abbreviation (input) EEXIST :: goerror where "EEXIST \<equiv> Sentinel ''syscall.EEXIST''"

record 'w netlink =
  nl_RouteList :: "int \<Rightarrow> ('w, Route list) io"
  nl_RouteListFiltered :: "int \<Rightarrow> Route \<Rightarrow> int \<Rightarrow> ('w, Route list) io"
  nl_RouteGet :: "net_IP \<Rightarrow> ('w, Route list) io"
  nl_RouteAdd :: "Route \<Rightarrow> ('w, unit) io"
  nl_RouteReplace :: "Route \<Rightarrow> ('w, unit) io"
  nl_RouteDel :: "Route \<Rightarrow> ('w, unit) io"
  nl_AddrList :: "LinkAttrs \<Rightarrow> int \<Rightarrow> ('w, Addr list) io"
  nl_AddrAdd :: "LinkAttrs \<Rightarrow> Addr \<Rightarrow> ('w, unit) io"
  nl_AddrDel :: "LinkAttrs \<Rightarrow> Addr \<Rightarrow> ('w, unit) io"
  nl_AddrEqual :: "Addr \<Rightarrow> Addr \<Rightarrow> bool"
  nl_LinkAdd :: "Link \<Rightarrow> ('w, Link) io"
  nl_LinkByName :: "string \<Rightarrow> ('w, Link) io"
  nl_LinkByIndex :: "int \<Rightarrow> ('w, Link) io"
  nl_LinkDel :: "Link \<Rightarrow> ('w, unit) io"
  nl_LinkSetUp :: "Link \<Rightarrow> ('w, unit) io"
  nl_LinkSetMTU :: "Link \<Rightarrow> int \<Rightarrow> ('w, Link) io"
  nl_NeighSet :: "Neigh \<Rightarrow> ('w, unit) io"
  nl_NeighDel :: "Neigh \<Rightarrow> ('w, unit) io"
  nl_Interfaces :: "('w, Interface list) io"
  nl_InterfaceByIndex :: "int \<Rightarrow> ('w, Interface) io"
  nl_InterfaceByName :: "string \<Rightarrow> ('w, Interface) io"
  nl_Sysctl :: "string \<Rightarrow> string \<Rightarrow> ('w, string) io"
  nl_RandRead :: "nat \<Rightarrow> ('w, byte list) io"
  nl_retry :: "('w, unit) io \<Rightarrow> ('w, unit) io"

text \<open>A call whose error is logged and otherwise ignored.\<close>

definition io_logged :: "('w, 'a) io \<Rightarrow> ('w, unit) io" where
  "io_logged m = io_try m (\<lambda>_. io_ret ()) (\<lambda>_. io_ret ())"

lemmas [go_eval] = no_route_def io_logged_def

lemma io_try_Ok_iff:
  "io_try m f (\<lambda>e. io_err (g e)) w = Some (Ok y, w'') \<longleftrightarrow>
     (\<exists>x w'. m w = Some (Ok x, w') \<and> f x w' = Some (Ok y, w''))"
  by (auto simp: io_try_apply split: option.splits go.splits prod.splits)

section \<open>Classes of addresses\<close>

definition IP_IsUnspecified :: "net_IP \<Rightarrow> bool" where
  "IP_IsUnspecified ip \<longleftrightarrow> IP_Equal ip (net_IPv4 0 0 0 0) \<or> IP_Equal ip (replicate 16 0)"

definition IP_IsLoopback :: "net_IP \<Rightarrow> bool" where
  "IP_IsLoopback ip =
     (case To4 ip of a # _ \<Rightarrow> a = 127 | [] \<Rightarrow> IP_Equal ip (replicate 15 0 @ [1]))"

definition IP_IsMulticast :: "net_IP \<Rightarrow> bool" where
  "IP_IsMulticast ip =
     (case To4 ip of a # _ \<Rightarrow> a AND 0xf0 = 0xe0 | [] \<Rightarrow> length ip = 16 \<and> hd ip = 0xff)"

definition IP_IsLinkLocalUnicast :: "net_IP \<Rightarrow> bool" where
  "IP_IsLinkLocalUnicast ip =
     (case To4 ip of
        a # b # _ \<Rightarrow> a = 169 \<and> b = 254
      | _ \<Rightarrow> length ip = 16 \<and> hd ip = 0xfe \<and> ip ! 1 AND 0xc0 = 0x80)"

definition IP_IsGlobalUnicast :: "net_IP \<Rightarrow> bool" where
  "IP_IsGlobalUnicast ip \<longleftrightarrow>
     (length ip = 4 \<or> length ip = 16) \<and> \<not> IP_Equal ip (net_IPv4 255 255 255 255) \<and> \<not> IP_IsUnspecified ip \<and>
     \<not> IP_IsLoopback ip \<and> \<not> IP_IsMulticast ip \<and> \<not> IP_IsLinkLocalUnicast ip"

lemmas [go_eval] = IP_IsUnspecified_def IP_IsLoopback_def IP_IsMulticast_def IP_IsLinkLocalUnicast_def IP_IsGlobalUnicast_def

lemma global_not_link_local: "IP_IsGlobalUnicast ip \<Longrightarrow> \<not> IP_IsLinkLocalUnicast ip"
  by (simp add: IP_IsGlobalUnicast_def)

section \<open>Routes as a table\<close>

text \<open>
  Two addresses are the same when their sixteen-byte forms are; a route leads to a destination
  through a gateway and a link.
\<close>

datatype dest = Dest net_IP IPMask

datatype hop = Hop net_IP int

type_synonym route_table = "dest \<Rightarrow> hop option"

definition ip_ok :: "net_IP \<Rightarrow> bool" where
  "ip_ok ip \<longleftrightarrow> length ip = 0 \<or> length ip = 4 \<or> length ip = 16"

definition net_key :: "IPNet \<Rightarrow> dest" where
  "net_key d = Dest (To16 (ipn_IP d)) (ipn_Mask d)"

definition route_target :: "Route \<Rightarrow> hop" where
  "route_target r = Hop (To16 (rt_Gw r)) (rt_LinkIndex r)"

definition route_ok :: "Route \<Rightarrow> bool" where
  "route_ok r \<longleftrightarrow> (case rt_Dst r of None \<Rightarrow> False | Some d \<Rightarrow> ip_ok (ipn_IP d)) \<and> ip_ok (rt_Gw r)"

definition route_key :: "Route \<Rightarrow> dest" where
  "route_key r = net_key (the (rt_Dst r))"

lemma IP_Equal_To16: "ip_ok x \<Longrightarrow> ip_ok y \<Longrightarrow> IP_Equal x y \<longleftrightarrow> To16 x = To16 y"
proof -
  have p: "length v4InV6Prefix = 12" by (simp add: v4InV6Prefix_def)
  have "take 12 b = v4InV6Prefix \<and> drop 12 b = a \<longleftrightarrow> v4InV6Prefix @ a = b" if "length b = 16" for a b
  proof
    assume "take 12 b = v4InV6Prefix \<and> drop 12 b = a"
    then show "v4InV6Prefix @ a = b" using append_take_drop_id [of 12 b] by simp
  next
    assume "v4InV6Prefix @ a = b"
    then show "take 12 b = v4InV6Prefix \<and> drop 12 b = a" using p by auto
  qed
  then show "ip_ok x \<Longrightarrow> ip_ok y \<Longrightarrow> IP_Equal x y \<longleftrightarrow> To16 x = To16 y"
    by (auto simp: ip_ok_def IP_Equal_def To16_def p)
qed

end
