(* ===== verification/Kernel_Memory.thy ===== *)
theory Kernel_Memory
  imports Netlink
begin

text \<open>
  A kernel kept in memory: IPv4 routes with one entry per destination, addresses per link,
  neighbour entries, links and interfaces. It is an instance of the record \<open>netlink\<close> that satisfies what the
  components assume of the kernel; the properties are applied to it on concrete inputs.
\<close>

record kern =
  k_routes :: "(dest \<times> hop) list"
  k_addrs :: "int \<Rightarrow> Addr list"
  k_arp :: "int \<times> net_IP \<Rightarrow> HardwareAddr option"
  k_fdb :: "int \<times> HardwareAddr \<Rightarrow> net_IP option"
  k_links :: "Link list"
  k_ifaces :: "Interface list"

definition ENOENT :: goerror where "ENOENT = Sentinel ''ENOENT''"

definition k_unsupported :: "(kern, 'a) io" where "k_unsupported = io_err (ErrorString ''not supported'')"

fun norm_dest :: "dest \<Rightarrow> bool" where
  "norm_dest (Dest ip m) \<longleftrightarrow> To16 ip = ip"

fun norm_hop :: "hop \<Rightarrow> bool" where
  "norm_hop (Hop gw l) \<longleftrightarrow> To16 gw = gw"

definition k_table :: "kern \<Rightarrow> route_table" where
  "k_table w d =
     (case map_of (k_routes w) d of
        None \<Rightarrow> None
      | Some h \<Rightarrow> if norm_dest d \<and> norm_hop h then Some h else None)"

fun to_route :: "dest \<Rightarrow> hop \<Rightarrow> Route" where
  "to_route (Dest ip m) (Hop gw l) = no_route\<lparr>rt_Dst := Some \<lparr>ipn_IP = ip, ipn_Mask = m\<rparr>, rt_Gw := gw, rt_LinkIndex := l\<rparr>"

definition k_listed :: "kern \<Rightarrow> dest \<Rightarrow> Route list" where
  "k_listed w d = (case k_table w d of None \<Rightarrow> [] | Some h \<Rightarrow> [to_route d h])"

definition k_RouteAdd :: "Route \<Rightarrow> (kern, unit) io" where
  "k_RouteAdd r w =
     (if k_table w (route_key r) \<noteq> None then Some (Err EEXIST, w)
      else Some (Ok (), w\<lparr>k_routes := (route_key r, route_target r) # k_routes w\<rparr>))"

definition k_RouteDel :: "Route \<Rightarrow> (kern, unit) io" where
  "k_RouteDel r w =
     (if k_table w (route_key r) = Some (route_target r) then
        Some (Ok (), w\<lparr>k_routes := filter (\<lambda>(d, h). d \<noteq> route_key r) (k_routes w)\<rparr>)
      else Some (Err ENOENT, w))"

definition k_RouteReplace :: "Route \<Rightarrow> (kern, unit) io" where
  "k_RouteReplace r w = Some (Ok (), w\<lparr>k_routes := (route_key r, route_target r) # k_routes w\<rparr>)"

definition same_addr :: "Addr \<Rightarrow> Addr \<Rightarrow> bool" where
  "same_addr a b \<longleftrightarrow> To16 (ipn_IP (addr_IPNet a)) = To16 (ipn_IP (addr_IPNet b)) \<and>
     fst (mask_Size (ipn_Mask (addr_IPNet a))) = fst (mask_Size (ipn_Mask (addr_IPNet b)))"

definition k_NeighSet :: "Neigh \<Rightarrow> (kern, unit) io" where
  "k_NeighSet n w =
     Some (Ok (), if ng_Family n = AF_BRIDGE then w\<lparr>k_fdb := (k_fdb w)((ng_LinkIndex n, ng_HardwareAddr n) \<mapsto> ng_IP n)\<rparr>
                  else w\<lparr>k_arp := (k_arp w)((ng_LinkIndex n, ng_IP n) \<mapsto> ng_HardwareAddr n)\<rparr>)"

definition k_NeighDel :: "Neigh \<Rightarrow> (kern, unit) io" where
  "k_NeighDel n w =
     (if ng_Family n = AF_BRIDGE then
        (if k_fdb w (ng_LinkIndex n, ng_HardwareAddr n) = Some (ng_IP n) then
           Some (Ok (), w\<lparr>k_fdb := (k_fdb w)((ng_LinkIndex n, ng_HardwareAddr n) := None)\<rparr>)
         else Some (Err ENOENT, w))
      else
        (if k_arp w (ng_LinkIndex n, ng_IP n) \<noteq> None then
           Some (Ok (), w\<lparr>k_arp := (k_arp w)((ng_LinkIndex n, ng_IP n) := None)\<rparr>)
         else Some (Err ENOENT, w)))"

primrec set_index :: "int \<Rightarrow> Link \<Rightarrow> Link" where
  "set_index i (VxlanLink v) = VxlanLink (v\<lparr>vx_Attrs := (vx_Attrs v)\<lparr>lk_Index := i\<rparr>\<rparr>)"
| "set_index i (IptunLink t) = IptunLink (t\<lparr>tun_Attrs := (tun_Attrs t)\<lparr>lk_Index := i\<rparr>\<rparr>)"
| "set_index i (OtherLink a ty) = OtherLink (a\<lparr>lk_Index := i\<rparr>) ty"

definition k_found :: "'a option \<Rightarrow> (kern, 'a) io" where
  "k_found x w = Some (case x of None \<Rightarrow> Err ENOENT | Some y \<Rightarrow> Ok y, w)"

definition k_LinkByName :: "string \<Rightarrow> (kern, Link) io" where
  "k_LinkByName name w = k_found (find (\<lambda>l. lk_Name (Link_Attrs l) = name) (k_links w)) w"

definition k_LinkByIndex :: "int \<Rightarrow> (kern, Link) io" where
  "k_LinkByIndex i w = k_found (find (\<lambda>l. lk_Index (Link_Attrs l) = i) (k_links w)) w"

definition k_LinkAdd :: "Link \<Rightarrow> (kern, Link) io" where
  "k_LinkAdd l w =
     (if \<exists>x \<in> set (k_links w). lk_Name (Link_Attrs x) = lk_Name (Link_Attrs l) then Some (Err EEXIST, w)
      else let l' = set_index (int (length (k_links w)) + 7) l in Some (Ok l', w\<lparr>k_links := k_links w @ [l']\<rparr>))"

definition k_LinkDel :: "Link \<Rightarrow> (kern, unit) io" where
  "k_LinkDel l w = Some (Ok (), w\<lparr>k_links := filter (\<lambda>x. lk_Index (Link_Attrs x) \<noteq> lk_Index (Link_Attrs l)) (k_links w)\<rparr>)"

definition mem_netlink :: "kern netlink" where
  "mem_netlink =
     \<lparr>nl_RouteList = (\<lambda>_ w. Some (Ok (concat (map (k_listed w) (remdups (map fst (k_routes w))))), w)),
      nl_RouteListFiltered = (\<lambda>_ f _ w. Some (Ok (k_listed w (route_key f)), w)),
      nl_RouteGet = (\<lambda>_. io_ret []),
      nl_RouteAdd = k_RouteAdd, nl_RouteReplace = k_RouteReplace, nl_RouteDel = k_RouteDel,
      nl_AddrList = (\<lambda>l _ w. Some (Ok (k_addrs w (lk_Index l)), w)),
      nl_AddrAdd = (\<lambda>l a w. Some (Ok (), w\<lparr>k_addrs := (k_addrs w)(lk_Index l := k_addrs w (lk_Index l) @ [a])\<rparr>)),
      nl_AddrDel = (\<lambda>l a w. Some (Ok (), w\<lparr>k_addrs := (k_addrs w)(lk_Index l := filter (\<lambda>y. \<not> same_addr y a) (k_addrs w (lk_Index l)))\<rparr>)),
      nl_AddrEqual = same_addr,
      nl_LinkAdd = k_LinkAdd, nl_LinkByName = k_LinkByName, nl_LinkByIndex = k_LinkByIndex,
      nl_LinkDel = k_LinkDel, nl_LinkSetUp = (\<lambda>_. io_ret ()), nl_LinkSetMTU = (\<lambda>_ _. k_unsupported),
      nl_NeighSet = k_NeighSet, nl_NeighDel = k_NeighDel,
      nl_Interfaces = (\<lambda>w. Some (Ok (k_ifaces w), w)),
      nl_InterfaceByIndex = (\<lambda>i w. k_found (find (\<lambda>x. if_Index x = i) (k_ifaces w)) w),
      nl_InterfaceByName = (\<lambda>name w. k_found (find (\<lambda>x. if_Name x = name) (k_ifaces w)) w),
      nl_Sysctl = (\<lambda>_ _. io_ret []), nl_RandRead = (\<lambda>n. io_ret (replicate n 0)), nl_retry = (\<lambda>m. m)\<rparr>"

definition no_kern :: kern where
  "no_kern = \<lparr>k_routes = [], k_addrs = (\<lambda>_. []), k_arp = Map.empty, k_fdb = Map.empty, k_links = [], k_ifaces = []\<rparr>"

lemma To16_idem [simp]: "To16 (To16 ip) = To16 ip"
  by (auto simp: To16_def v4InV6Prefix_def)

lemma norm_route [simp]: "norm_dest (route_key r)" "norm_hop (route_target r)"
  by (simp_all add: route_key_def net_key_def route_target_def)

lemma To16_fix: "To16 ip = ip \<Longrightarrow> ip_ok ip"
  by (auto simp: To16_def ip_ok_def split: if_splits)

lemma to_route_ok:
  assumes "k_table w d = Some h"
  shows "route_ok (to_route d h) \<and> route_key (to_route d h) = d \<and> route_target (to_route d h) = h"
proof -
  obtain ip m gw l where d: "d = Dest ip m" "h = Hop gw l" by (cases d; cases h) auto
  with assms have "To16 ip = ip" "To16 gw = gw" by (auto simp: k_table_def split: option.splits if_splits)
  with d show ?thesis by (simp add: route_ok_def route_key_def net_key_def route_target_def no_route_def To16_fix)
qed

lemma k_listed_ok: "x \<in> set (k_listed w d) \<Longrightarrow> route_ok x \<and> route_key x = d \<and> k_table w d = Some (route_target x)"
  using to_route_ok by (auto simp: k_listed_def split: option.splits)

lemma k_table_cons: "k_table (w\<lparr>k_routes := (route_key r, route_target r) # k_routes w\<rparr>) = (k_table w)(route_key r \<mapsto> route_target r)"
  by (auto simp: k_table_def fun_eq_iff)

lemma k_table_del: "k_table (w\<lparr>k_routes := filter (\<lambda>(d, h). d \<noteq> k) (k_routes w)\<rparr>) = (k_table w)(k := None)"
proof -
  have "map_of (filter (\<lambda>(d, h). d \<noteq> k) xs) d = (if d = k then None else map_of xs d)" for d and xs :: "(dest \<times> hop) list"
    by (induction xs) auto
  then show ?thesis by (auto simp: k_table_def fun_eq_iff)
qed

lemmas kern_eval =
  ENOENT_def k_unsupported_def k_table_def k_listed_def k_RouteAdd_def k_RouteDel_def k_RouteReplace_def same_addr_def k_NeighSet_def
  k_NeighDel_def k_found_def k_LinkByName_def k_LinkByIndex_def k_LinkAdd_def k_LinkDel_def mem_netlink_def no_kern_def

end
