(* ===== verification/Link_Addresses.thy ===== *)
theory Link_Addresses
  imports Kernel_Memory
begin

text \<open>
  Interfaces and their addresses (\<open>pkg/ip/iface.go\<close>): choosing the addresses of an interface,
  finding an interface by address or route, and keeping the address of a flannel device.
  \<open>slices.SortFunc\<close> is the library's insertion sort, which it runs on up to twelve elements.
\<close>

abbreviation (input) IFA_F_TEMPORARY :: int where "IFA_F_TEMPORARY \<equiv> 0x01"
abbreviation (input) IFA_F_DEPRECATED :: int where "IFA_F_DEPRECATED \<equiv> 0x20"
abbreviation (input) IFA_F_PERMANENT :: int where "IFA_F_PERMANENT \<equiv> 0x80"

definition addr_IP :: "Addr \<Rightarrow> net_IP" where
  "addr_IP a = ipn_IP (addr_IPNet a)"

section \<open>The preferred address\<close>

definition compareAddrs :: "Addr \<Rightarrow> Addr \<Rightarrow> int" where
  "compareAddrs a b =
     (if IP_IsGlobalUnicast (addr_IP a) \<and> IP_IsLinkLocalUnicast (addr_IP b) then - 1
      else if IP_IsLinkLocalUnicast (addr_IP a) \<and> IP_IsGlobalUnicast (addr_IP b) then 1
      else if addr_Flags a AND IFA_F_PERMANENT = IFA_F_PERMANENT \<and> addr_Flags b AND IFA_F_PERMANENT = 0 then - 1
      else if addr_Flags a AND IFA_F_PERMANENT = 0 \<and> addr_Flags b AND IFA_F_PERMANENT = IFA_F_PERMANENT then 1
      else if addr_Flags a AND IFA_F_TEMPORARY = 0 \<and> addr_Flags b AND IFA_F_TEMPORARY = IFA_F_TEMPORARY then - 1
      else if addr_Flags a AND IFA_F_TEMPORARY = IFA_F_TEMPORARY \<and> addr_Flags b AND IFA_F_TEMPORARY = 0 then 1
      else 0)"

fun insert_back :: "('a \<Rightarrow> 'a \<Rightarrow> int) \<Rightarrow> 'a \<Rightarrow> 'a list \<Rightarrow> 'a list" where
  "insert_back cmp x [] = [x]"
| "insert_back cmp x (p # ps) = (if cmp x p < 0 then p # insert_back cmp x ps else x # p # ps)"

definition SortFunc :: "('a \<Rightarrow> 'a \<Rightarrow> int) \<Rightarrow> 'a list \<Rightarrow> 'a list" where
  "SortFunc cmp xs = rev (fold (insert_back cmp) xs [])"

definition iface_attrs :: "Interface \<Rightarrow> LinkAttrs" where
  "iface_attrs i = \<lparr>lk_Index = if_Index i, lk_MTU = 0, lk_Name = [], lk_HardwareAddr = []\<rparr>"

definition getIfaceAddrs :: "'w netlink \<Rightarrow> Interface \<Rightarrow> ('w, Addr list) io" where
  "getIfaceAddrs nl i = nl_AddrList nl (iface_attrs i) FAMILY_V4"

definition getIfaceV6Addrs :: "'w netlink \<Rightarrow> Interface \<Rightarrow> ('w, Addr list) io" where
  "getIfaceV6Addrs nl i = nl_AddrList nl (iface_attrs i) FAMILY_V6"

definition usable :: "Addr \<Rightarrow> bool" where
  "usable a \<longleftrightarrow> (IP_IsGlobalUnicast (addr_IP a) \<or> IP_IsLinkLocalUnicast (addr_IP a)) \<and>
     addr_Flags a AND IFA_F_DEPRECATED = 0"

definition errNoIPv4 :: goerror where "errNoIPv4 = ErrorString ''no IPv4 address found for given interface''"
definition errNoIPv6 :: goerror where "errNoIPv6 = ErrorString ''no IPv6 address found for given interface''"

definition usable_ips :: "(net_IP \<Rightarrow> net_IP) \<Rightarrow> goerror \<Rightarrow> Addr list \<Rightarrow> net_IP list go" where
  "usable_ips conv e addrs =
     (let ips = map addr_IP (filter (\<lambda>a. conv (addr_IP a) \<noteq> [] \<and> usable a) (SortFunc compareAddrs addrs)) in
      if length ips > 0 then Ok ips else Err e)"

definition GetInterfaceIP4Addrs :: "'w netlink \<Rightarrow> Interface \<Rightarrow> ('w, net_IP list) io" where
  "GetInterfaceIP4Addrs nl i = io_bind (getIfaceAddrs nl i) (\<lambda>addrs. io_of (usable_ips To4 errNoIPv4 addrs))"

definition GetInterfaceIP6Addrs :: "'w netlink \<Rightarrow> Interface \<Rightarrow> ('w, net_IP list) io" where
  "GetInterfaceIP6Addrs nl i = io_bind (getIfaceV6Addrs nl i) (\<lambda>addrs. io_of (usable_ips To16 errNoIPv6 addrs))"

section \<open>Finding interfaces\<close>

definition GetInterfaceIP4AddrMatch :: "'w netlink \<Rightarrow> Interface \<Rightarrow> net_IP \<Rightarrow> ('w, unit) io" where
  "GetInterfaceIP4AddrMatch nl i matchAddr =
     io_bind (getIfaceAddrs nl i) (\<lambda>addrs.
       if \<exists>a \<in> set addrs. To4 (addr_IP a) \<noteq> [] \<and> IP_Equal (To4 (addr_IP a)) matchAddr then io_ret ()
       else io_err errNoIPv4)"

definition GetInterfaceIP6AddrMatch :: "'w netlink \<Rightarrow> Interface \<Rightarrow> net_IP \<Rightarrow> ('w, unit) io" where
  "GetInterfaceIP6AddrMatch nl i matchAddr =
     io_bind (getIfaceV6Addrs nl i) (\<lambda>addrs.
       if \<exists>a \<in> set addrs. To16 (addr_IP a) \<noteq> [] \<and> IP_Equal (To16 (addr_IP a)) matchAddr then io_ret ()
       else io_err errNoIPv6)"

fun first_iface :: "(Interface \<Rightarrow> ('w, unit) io) \<Rightarrow> goerror \<Rightarrow> Interface list \<Rightarrow> ('w, Interface) io" where
  "first_iface matches e [] = io_err e"
| "first_iface matches e (i # is) = io_try (matches i) (\<lambda>_. io_ret i) (\<lambda>_. first_iface matches e is)"

definition GetInterfaceByIP :: "'w netlink \<Rightarrow> net_IP \<Rightarrow> ('w, Interface) io" where
  "GetInterfaceByIP nl ip =
     io_bind (nl_Interfaces nl)
       (first_iface (\<lambda>i. GetInterfaceIP4AddrMatch nl i ip) (ErrorString ''no interface with given IP found''))"

definition GetInterfaceByIP6 :: "'w netlink \<Rightarrow> net_IP \<Rightarrow> ('w, Interface) io" where
  "GetInterfaceByIP6 nl ip =
     io_bind (nl_Interfaces nl)
       (first_iface (\<lambda>i. GetInterfaceIP6AddrMatch nl i ip) (ErrorString ''no interface with given IPv6 found''))"

definition default_route :: "string \<Rightarrow> Route \<Rightarrow> bool" where
  "default_route d r = (case rt_Dst r of None \<Rightarrow> True | Some n \<Rightarrow> IPNet_String n = d)"

definition default_gateway :: "'w netlink \<Rightarrow> string \<Rightarrow> string \<Rightarrow> string \<Rightarrow> Route list \<Rightarrow> ('w, Interface) io" where
  "default_gateway nl d noIface noRoute routes =
     (case find (default_route d) routes of
        None \<Rightarrow> io_err (ErrorString noRoute)
      | Some r \<Rightarrow>
          if rt_LinkIndex r \<le> 0 then io_err (ErrorString noIface)
          else nl_InterfaceByIndex nl (rt_LinkIndex r))"

definition GetDefaultGatewayInterface :: "'w netlink \<Rightarrow> ('w, Interface) io" where
  "GetDefaultGatewayInterface nl =
     io_bind (nl_RouteList nl FAMILY_V4)
       (default_gateway nl ''0.0.0.0/0'' ''found default route but could not determine interface''
          ''unable to find default route'')"

definition GetDefaultV6GatewayInterface :: "'w netlink \<Rightarrow> ('w, Interface) io" where
  "GetDefaultV6GatewayInterface nl =
     io_bind (nl_RouteList nl FAMILY_V6)
       (default_gateway nl ''::/0'' ''found default v6 route but could not determine interface''
          ''unable to find default v6 route'')"

definition errRouteLookup :: "net_IP \<Rightarrow> goerror \<Rightarrow> goerror" where
  "errRouteLookup ip e = Wrapped (''couldn't lookup route to '' @ IP_String ip) e"

definition GetInterfaceBySpecificIPRouting :: "'w netlink \<Rightarrow> net_IP \<Rightarrow> ('w, Interface \<times> net_IP) io" where
  "GetInterfaceBySpecificIPRouting nl ip =
     io_try (nl_RouteGet nl ip)
       (\<lambda>routes.
          case routes of
            [] \<Rightarrow> io_err (ErrorString ''no interface with given IP found'')
          | r # _ \<Rightarrow>
              io_try (nl_InterfaceByIndex nl (rt_LinkIndex r)) (\<lambda>i. io_ret (i, rt_Src r))
                (\<lambda>e. io_err (Wrapped ''couldn't lookup interface'' e)))
       (\<lambda>e. io_err (errRouteLookup ip e))"

definition DirectRouting :: "'w netlink \<Rightarrow> net_IP \<Rightarrow> ('w, bool) io" where
  "DirectRouting nl ip =
     io_try (nl_RouteGet nl ip) (\<lambda>routes. io_ret (case routes of [r] \<Rightarrow> rt_Gw r = [] | _ \<Rightarrow> False))
       (\<lambda>e. io_err (errRouteLookup ip e))"

section \<open>The address of a device\<close>

definition new_addr :: "IPNet \<Rightarrow> Addr" where
  "new_addr n = \<lparr>addr_IPNet = n, addr_Flags = 0\<rparr>"

fun clean_addrs4 :: "'w netlink \<Rightarrow> Addr \<Rightarrow> IP4Net \<Rightarrow> LinkAttrs \<Rightarrow> Addr list \<Rightarrow> bool \<Rightarrow> ('w, bool) io" where
  "clean_addrs4 nl addr ipn link [] hasAddr = io_ret hasAddr"
| "clean_addrs4 nl addr ipn link (x # xs) hasAddr =
     (if nl_AddrEqual nl x addr then clean_addrs4 nl addr ipn link xs True
      else
        io_bind (io_of (FromIP (addr_IP x))) (\<lambda>ip.
          if IP4Net_Contains ipn ip then
            io_try (nl_AddrDel nl link x) (\<lambda>_. clean_addrs4 nl addr ipn link xs hasAddr)
              (\<lambda>e. io_err (Wrapped ''failed to remove IP address'' e))
          else clean_addrs4 nl addr ipn link xs hasAddr))"

definition EnsureV4AddressOnLink :: "'w netlink \<Rightarrow> IP4Net \<Rightarrow> IP4Net \<Rightarrow> LinkAttrs \<Rightarrow> ('w, unit) io" where
  "EnsureV4AddressOnLink nl ipa ipn link =
     (let addr = new_addr (IP4Net_ToIPNet ipa) in
      io_bind (nl_AddrList nl link FAMILY_V4) (\<lambda>existingAddrs.
      io_bind (clean_addrs4 nl addr ipn link existingAddrs False) (\<lambda>hasAddr.
        if \<not> hasAddr then
          io_try (nl_AddrAdd nl link addr) io_ret (\<lambda>e. io_err (Wrapped ''failed to add IP address'' e))
        else io_ret ())))"

text \<open>The loop ends early, without adding anything, at the wanted address; \<open>removed\<close> records a deletion.\<close>

fun clean_addrs6 :: "'w netlink \<Rightarrow> Addr \<Rightarrow> LinkAttrs \<Rightarrow> Addr list \<Rightarrow> ('w, bool) io" where
  "clean_addrs6 nl addr link [] = io_ret False"
| "clean_addrs6 nl addr link (x # xs) =
     (if IP_IsLinkLocalUnicast (addr_IP x) then clean_addrs6 nl addr link xs
      else if nl_AddrEqual nl x addr then io_ret True
      else
        io_try (nl_AddrDel nl link x) (\<lambda>_. clean_addrs6 nl addr link xs)
          (\<lambda>e. io_err (Wrapped ''failed to remove v6 IP address'' e)))"

definition EnsureV6AddressOnLink :: "'w netlink \<Rightarrow> IP6Net \<Rightarrow> IP6Net \<Rightarrow> LinkAttrs \<Rightarrow> ('w, unit) io" where
  "EnsureV6AddressOnLink nl ipa ipn link =
     io_bind (io_of (IP6Net_ToIPNet ipa)) (\<lambda>n.
     io_bind (nl_AddrList nl link FAMILY_V6) (\<lambda>existingAddrs.
     io_bind (clean_addrs6 nl (new_addr n) link existingAddrs) (\<lambda>found.
       if found then io_ret ()
       else
         io_try (nl_AddrAdd nl link (new_addr n)) io_ret
           (\<lambda>e. io_err (Wrapped ''failed to add v6 IP address'' e)))))"

definition blackhole :: "IPNet \<Rightarrow> int \<Rightarrow> Route" where
  "blackhole dst family = no_route\<lparr>rt_Dst := Some dst, rt_Type := RTN_BLACKHOLE, rt_Family := family\<rparr>"

definition add_blackhole :: "'w netlink \<Rightarrow> IPNet \<Rightarrow> int \<Rightarrow> ('w, unit) io" where
  "add_blackhole nl dst family =
     io_bind (nl_RouteListFiltered nl family (blackhole dst family) (RT_FILTER_DST OR RT_FILTER_TYPE)) (\<lambda>routes.
       if length routes = 0 then nl_RouteAdd nl (blackhole dst family) else io_ret ())"

definition AddBlackholeV4Route :: "'w netlink \<Rightarrow> IPNet \<Rightarrow> ('w, unit) io" where
  "AddBlackholeV4Route nl dst = add_blackhole nl dst FAMILY_V4"

definition AddBlackholeV6Route :: "'w netlink \<Rightarrow> IPNet \<Rightarrow> ('w, unit) io" where
  "AddBlackholeV6Route nl dst = add_blackhole nl dst FAMILY_V6"

lemmas [go_eval] =
  addr_IP_def compareAddrs_def SortFunc_def iface_attrs_def getIfaceAddrs_def getIfaceV6Addrs_def usable_def
  errNoIPv4_def errNoIPv6_def usable_ips_def GetInterfaceIP4Addrs_def GetInterfaceIP6Addrs_def
  GetInterfaceIP4AddrMatch_def GetInterfaceIP6AddrMatch_def GetInterfaceByIP_def GetInterfaceByIP6_def
  default_route_def default_gateway_def GetDefaultGatewayInterface_def GetDefaultV6GatewayInterface_def
  errRouteLookup_def GetInterfaceBySpecificIPRouting_def DirectRouting_def new_addr_def EnsureV4AddressOnLink_def
  EnsureV6AddressOnLink_def blackhole_def add_blackhole_def AddBlackholeV4Route_def AddBlackholeV6Route_def

section \<open>The address calls of the kernel\<close>

text \<open>
  Over a view of the IPv4 addresses of each link: listing returns them, a successful deletion
  removes the given address, a successful addition appends one, and \<open>Addr.Equal\<close> is an
  equivalence.
\<close>

definition addr_laws :: "'w netlink \<Rightarrow> ('w \<Rightarrow> LinkAttrs \<Rightarrow> Addr list) \<Rightarrow> bool" where
  "addr_laws nl view \<longleftrightarrow>
     (\<forall>link w r w'. nl_AddrList nl link FAMILY_V4 w = Some (r, w') \<longrightarrow>
        view w' = view w \<and> (\<forall>xs. r = Ok xs \<longrightarrow> xs = view w link)) \<and>
     (\<forall>link x w w'. nl_AddrDel nl link x w = Some (Ok (), w') \<longrightarrow>
        view w' link = filter (\<lambda>y. \<not> nl_AddrEqual nl y x) (view w link)) \<and>
     (\<forall>link x w w'. nl_AddrAdd nl link x w = Some (Ok (), w') \<longrightarrow> view w' link = view w link @ [x]) \<and>
     equivp (nl_AddrEqual nl)"

lemma addr_lawsD:
  assumes "addr_laws nl view"
  shows "nl_AddrList nl link FAMILY_V4 w = Some (r, w') \<Longrightarrow> view w' = view w \<and> (\<forall>xs. r = Ok xs \<longrightarrow> xs = view w link)"
    and "nl_AddrDel nl link x w = Some (Ok (), w') \<Longrightarrow> view w' link = filter (\<lambda>y. \<not> nl_AddrEqual nl y x) (view w link)"
    and "nl_AddrAdd nl link x w = Some (Ok (), w') \<Longrightarrow> view w' link = view w link @ [x]"
    and "nl_AddrEqual nl x x"
    and "nl_AddrEqual nl x y \<Longrightarrow> nl_AddrEqual nl y x"
    and "nl_AddrEqual nl x y \<Longrightarrow> nl_AddrEqual nl y z \<Longrightarrow> nl_AddrEqual nl x z"
proof -
  note laws = assms [unfolded addr_laws_def]
  show "nl_AddrList nl link FAMILY_V4 w = Some (r, w') \<Longrightarrow> view w' = view w \<and> (\<forall>xs. r = Ok xs \<longrightarrow> xs = view w link)"
    using conjunct1 [OF laws] by blast
  show "nl_AddrDel nl link x w = Some (Ok (), w') \<Longrightarrow> view w' link = filter (\<lambda>y. \<not> nl_AddrEqual nl y x) (view w link)"
    using conjunct1 [OF conjunct2 [OF laws]] by blast
  show "nl_AddrAdd nl link x w = Some (Ok (), w') \<Longrightarrow> view w' link = view w link @ [x]"
    using conjunct1 [OF conjunct2 [OF conjunct2 [OF laws]]] by blast
  have eq: "equivp (nl_AddrEqual nl)" using laws by blast
  show "nl_AddrEqual nl x x" using eq by (rule equivp_reflp)
  show "nl_AddrEqual nl x y \<Longrightarrow> nl_AddrEqual nl y x" using eq by (rule equivp_symp)
  show "nl_AddrEqual nl x y \<Longrightarrow> nl_AddrEqual nl y z \<Longrightarrow> nl_AddrEqual nl x z" using eq by (rule equivp_transp)
qed

definition foreign4 :: "IP4Net \<Rightarrow> Addr \<Rightarrow> bool" where
  "foreign4 ipn x \<longleftrightarrow> (\<exists>ip. FromIP (addr_IP x) = Ok ip \<and> \<not> IP4Net_Contains ipn ip)"

lemma clean_addrs4_view:
  assumes l: "addr_laws nl view"
  shows "clean_addrs4 nl addr ipn link xs h w = Some (Ok h', w') \<Longrightarrow>
    (h' \<longleftrightarrow> h \<or> (\<exists>x \<in> set xs. nl_AddrEqual nl x addr)) \<and> set (view w' link) \<subseteq> set (view w link) \<and>
    (\<forall>x \<in> set xs \<inter> set (view w' link). nl_AddrEqual nl x addr \<or> foreign4 ipn x) \<and>
    (\<forall>y \<in> set (view w link). nl_AddrEqual nl y addr \<longrightarrow> y \<in> set (view w' link))"
proof (induction xs arbitrary: h w)
  case (Cons x xs)
  show ?case
  proof (cases "nl_AddrEqual nl x addr")
    case True
    with Cons.prems have "clean_addrs4 nl addr ipn link xs True w = Some (Ok h', w')" by simp
    from Cons.IH [OF this] True show ?thesis by auto
  next
    case False
    with Cons.prems obtain ip where ip: "FromIP (addr_IP x) = Ok ip" by (auto simp: io_bind_Ok_iff)
    show ?thesis
    proof (cases "IP4Net_Contains ipn ip")
      case True
      with Cons.prems False ip obtain w1 where w1: "nl_AddrDel nl link x w = Some (Ok (), w1)"
        "clean_addrs4 nl addr ipn link xs h w1 = Some (Ok h', w')"
        by (auto simp: io_try_Ok_iff)
      have v: "view w1 link = filter (\<lambda>y. \<not> nl_AddrEqual nl y x) (view w link)" by (rule addr_lawsD(2) [OF l w1(1)])
      have "x \<notin> set (view w1 link)" using addr_lawsD(4) [OF l, of x] by (simp add: v)
      moreover have "\<forall>y \<in> set (view w link). nl_AddrEqual nl y addr \<longrightarrow> y \<in> set (view w1 link)"
      proof (intro ballI impI)
        fix y assume y: "y \<in> set (view w link)" "nl_AddrEqual nl y addr"
        have "\<not> nl_AddrEqual nl y x"
          using False addr_lawsD(6) [OF l addr_lawsD(5) [OF l] y(2), of x] by blast
        with y(1) show "y \<in> set (view w1 link)" by (simp add: v)
      qed
      moreover note Cons.IH [OF w1(2)]
      ultimately show ?thesis using False by (auto simp: v)
    next
      case no: False
      with Cons.prems False ip have "clean_addrs4 nl addr ipn link xs h w = Some (Ok h', w')" by simp
      from Cons.IH [OF this] False no ip show ?thesis by (auto simp: foreign4_def)
    qed
  qed
qed simp

lemma ensure_v4:
  assumes l: "addr_laws nl view" and e: "EnsureV4AddressOnLink nl ipa ipn link w = Some (Ok (), w')"
  shows "(\<exists>x \<in> set (view w' link). nl_AddrEqual nl x (new_addr (IP4Net_ToIPNet ipa))) \<and>
    (\<forall>x \<in> set (view w' link). nl_AddrEqual nl x (new_addr (IP4Net_ToIPNet ipa)) \<or> foreign4 ipn x)"
proof -
  let ?a = "new_addr (IP4Net_ToIPNet ipa)"
  from e obtain xs w1 h w2 where x: "nl_AddrList nl link FAMILY_V4 w = Some (Ok xs, w1)"
    "clean_addrs4 nl ?a ipn link xs False w1 = Some (Ok h, w2)"
    "(if \<not> h then io_try (nl_AddrAdd nl link ?a) io_ret (\<lambda>e. io_err (Wrapped ''failed to add IP address'' e)) else io_ret ()) w2
       = Some (Ok (), w')"
    by (auto simp: EnsureV4AddressOnLink_def Let_def io_bind_Ok_iff)
  have v: "view w1 = view w" "xs = view w link" using addr_lawsD(1) [OF l x(1)] by auto
  note c = clean_addrs4_view [OF l x(2)]
  show ?thesis
  proof (cases h)
    case True
    with x(3) have "w' = w2" by simp
    with c True v show ?thesis by auto
  next
    case False
    with x(3) have "nl_AddrAdd nl link ?a w2 = Some (Ok (), w')" by (auto simp: io_try_Ok_iff)
    with addr_lawsD(3) [OF l this] addr_lawsD(4) [OF l, of ?a] c v show ?thesis by auto
  qed
qed

section \<open>The order of addresses\<close>

definition addr_rank :: "Addr \<Rightarrow> nat" where
  "addr_rank a =
     (if IP_IsLinkLocalUnicast (addr_IP a) then 4 else 0) +
     (if addr_Flags a AND IFA_F_PERMANENT = 0 then 2 else 0) +
     (if addr_Flags a AND IFA_F_TEMPORARY = 0 then 0 else 1)"

definition unicast :: "Addr \<Rightarrow> bool" where
  "unicast a \<longleftrightarrow> IP_IsGlobalUnicast (addr_IP a) \<or> IP_IsLinkLocalUnicast (addr_IP a)"

lemma flag_cases: "(x :: int) AND 2 ^ n = 0 \<or> x AND 2 ^ n = 2 ^ n"
  by (cases "bit x n") (auto intro!: bit_eqI simp: bit_simps)

lemma flag_permanent: "x AND IFA_F_PERMANENT = IFA_F_PERMANENT \<longleftrightarrow> x AND IFA_F_PERMANENT \<noteq> 0"
  using flag_cases [of x 7] by auto

lemma flag_temporary: "x AND IFA_F_TEMPORARY = IFA_F_TEMPORARY \<longleftrightarrow> x AND IFA_F_TEMPORARY \<noteq> 0"
  using flag_cases [of x 0] by auto

lemma compareAddrs_rank:
  assumes "unicast a" "unicast b"
  shows "compareAddrs a b < 0 \<longleftrightarrow> addr_rank a < addr_rank b"
proof -
  have "\<not> (IP_IsGlobalUnicast (addr_IP x) \<and> IP_IsLinkLocalUnicast (addr_IP x))" for x
    using global_not_link_local by blast
  with assms show ?thesis
    unfolding compareAddrs_def addr_rank_def unicast_def flag_permanent flag_temporary by auto
qed

lemma set_insert_back [simp]: "set (insert_back cmp x ps) = insert x (set ps)"
  by (induction ps) auto

lemma mset_SortFunc [simp]: "set (SortFunc cmp xs) = set xs"
proof -
  have "set (fold (insert_back cmp) xs ps) = set xs \<union> set ps" for ps
    by (induction xs arbitrary: ps) auto
  then show ?thesis by (simp add: SortFunc_def)
qed

lemma insert_back_desc:
  assumes "\<And>y. y \<in> set ps \<Longrightarrow> cmp x y < 0 \<longleftrightarrow> f x < f y" "sorted_wrt (\<lambda>u v. f v \<le> (f u :: nat)) ps"
  shows "sorted_wrt (\<lambda>u v. f v \<le> f u) (insert_back cmp x ps)"
  using assms by (induction ps) fastforce+

lemma SortFunc_sorted:
  assumes "\<And>x y. x \<in> set xs \<Longrightarrow> y \<in> set xs \<Longrightarrow> cmp x y < 0 \<longleftrightarrow> f x < (f y :: nat)"
  shows "sorted_wrt (\<lambda>u v. f u \<le> f v) (SortFunc cmp xs)"
proof -
  have "sorted_wrt (\<lambda>u v. f v \<le> f u) (fold (insert_back cmp) ys ps)"
    if "sorted_wrt (\<lambda>u v. f v \<le> f u) ps" "set ps \<subseteq> set xs" "set ys \<subseteq> set xs" for ys ps
    using that
  proof (induction ys arbitrary: ps)
    case (Cons y ys)
    have "sorted_wrt (\<lambda>u v. f v \<le> f u) (insert_back cmp y ps)"
      using Cons.prems by (intro insert_back_desc assms) auto
    with Cons show ?case by auto
  qed simp
  from this [of "[]" xs] show ?thesis by (simp add: SortFunc_def sorted_wrt_rev)
qed

lemma mem_addr_laws: "addr_laws mem_netlink (\<lambda>w l. k_addrs w (lk_Index l))"
proof -
  have "equivp same_addr" by (auto simp: equivp_def same_addr_def fun_eq_iff)
  then show ?thesis unfolding addr_laws_def mem_netlink_def by simp
qed

section \<open>Properties\<close>

text \<open>
  C34. \<open>EnsureV4AddressOnLink\<close> leaves one address of the given network on the link: when it
  succeeds, the wanted address is there and every other address on the link lies outside
  the network.
\<close>

theorem ensure_v4_sole_address:
  assumes "addr_laws nl view" "EnsureV4AddressOnLink nl ipa ipn link w = Some (Ok (), w')"
  shows "(\<exists>x \<in> set (view w' link). nl_AddrEqual nl x (new_addr (IP4Net_ToIPNet ipa))) \<and>
    (\<forall>x \<in> set (view w' link). nl_AddrEqual nl x (new_addr (IP4Net_ToIPNet ipa)) \<or>
       (\<exists>ip. FromIP (addr_IP x) = Ok ip \<and> \<not> IP4Net_Contains ipn ip))"
  using ensure_v4 [OF assms] by (simp add: foreign4_def)

definition old_addr :: Addr where
  "old_addr = new_addr \<lparr>ipn_IP = [10, 1, 9, 0], ipn_Mask = [255, 255, 255, 255]\<rparr>"

definition dev_attrs :: LinkAttrs where
  "dev_attrs = \<lparr>lk_Index = 7, lk_MTU = 1450, lk_Name = ''flannel.1'', lk_HardwareAddr = []\<rparr>"

lemma ensure_demo:
  "\<exists>w'. EnsureV4AddressOnLink mem_netlink \<lparr>ip4_IP = 0x0a010200, ip4_PrefixLen = 32\<rparr> \<lparr>ip4_IP = 0x0a000000, ip4_PrefixLen = 8\<rparr>
     dev_attrs (no_kern\<lparr>k_addrs := (\<lambda>_. [old_addr])\<rparr>) = Some (Ok (), w') \<and> length (k_addrs w' 7) = 1"
  by (simp add: go_eval kern_eval old_addr_def dev_attrs_def)

theorem ensure_v4_sole_address_witness:
  "\<exists>w'. EnsureV4AddressOnLink mem_netlink \<lparr>ip4_IP = 0x0a010200, ip4_PrefixLen = 32\<rparr> \<lparr>ip4_IP = 0x0a000000, ip4_PrefixLen = 8\<rparr>
     dev_attrs (no_kern\<lparr>k_addrs := (\<lambda>_. [old_addr])\<rparr>) = Some (Ok (), w') \<and>
     (\<exists>x \<in> set (k_addrs w' 7). same_addr x (new_addr (IP4Net_ToIPNet \<lparr>ip4_IP = 0x0a010200, ip4_PrefixLen = 32\<rparr>)))"
proof -
  obtain w' where e: "EnsureV4AddressOnLink mem_netlink \<lparr>ip4_IP = 0x0a010200, ip4_PrefixLen = 32\<rparr> \<lparr>ip4_IP = 0x0a000000, ip4_PrefixLen = 8\<rparr>
     dev_attrs (no_kern\<lparr>k_addrs := (\<lambda>_. [old_addr])\<rparr>) = Some (Ok (), w')" using ensure_demo by blast
  have "nl_AddrEqual mem_netlink = same_addr" "lk_Index dev_attrs = 7" by (simp_all add: mem_netlink_def dev_attrs_def)
  with ensure_v4_sole_address [OF mem_addr_laws e] e show ?thesis by auto
qed

text \<open>
  The order in which the addresses of an interface are tried is not an order: a temporary
  global address comes before a permanent link-local one, that one before a loopback
  address, and the loopback address before the first.
\<close>

theorem address_order_has_cycle:
  "\<exists>a b c. compareAddrs a b < 0 \<and> compareAddrs b c < 0 \<and> compareAddrs c a < 0"
proof -
  let ?a = "\<lparr>addr_IPNet = \<lparr>ipn_IP = [10, 0, 0, 1], ipn_Mask = []\<rparr>, addr_Flags = 1\<rparr>"
  let ?b = "\<lparr>addr_IPNet = \<lparr>ipn_IP = [169, 254, 0, 1], ipn_Mask = []\<rparr>, addr_Flags = 128\<rparr>"
  let ?c = "\<lparr>addr_IPNet = \<lparr>ipn_IP = [127, 0, 0, 1], ipn_Mask = []\<rparr>, addr_Flags = 0\<rparr>"
  have "compareAddrs ?a ?b < 0" "compareAddrs ?b ?c < 0" "compareAddrs ?c ?a < 0" by (simp_all add: go_eval)
  then show ?thesis by blast
qed

end
