(* ===== verification/Route_Network.thy ===== *)
theory Route_Network
  imports Link_Addresses
begin

text \<open>
  The backend manager and the backends that program host routes: the registry of backends
  (\<open>pkg/backend/manager.go\<close>), the network that keeps one route per remote lease
  (\<open>route_network.go\<close>) and its users \<open>host-gw\<close> and \<open>ipip\<close>, and \<open>alloc\<close>, which only
  acquires a lease. The subnet manager is the record \<open>subnet_manager\<close> of the calls the
  backends make; the Kubernetes and the etcd manager provide them.
\<close>

section \<open>Backends and their manager\<close>

record ExternalInterface =
  ei_Iface :: Interface
  ei_IfaceName :: string
  ei_IfaceAddr :: net_IP
  ei_IfaceV6Addr :: net_IP
  ei_ExtAddr :: net_IP
  ei_ExtV6Addr :: net_IP

record 'w subnet_manager =
  sm_AcquireLease :: "LeaseAttrs \<Rightarrow> ('w, Lease) io"
  sm_GetNetworkConfig :: "('w, Config) io"
  sm_GetStoredMacAddresses :: "('w, string \<times> string) io"

type_synonym ('w, 'b) ctor = "'w subnet_manager \<Rightarrow> ExternalInterface \<Rightarrow> ('w, 'b) io"

record ('w, 'b) manager =
  bm_sm :: "'w subnet_manager"
  bm_extIface :: ExternalInterface
  bm_active :: "string \<Rightarrow> 'b option"

definition NewManager :: "'w subnet_manager \<Rightarrow> ExternalInterface \<Rightarrow> ('w, 'b) manager" where
  "NewManager sm extIface = \<lparr>bm_sm = sm, bm_extIface = extIface, bm_active = Map.empty\<rparr>"

definition Register ::
  "string \<Rightarrow> ('w, 'b) ctor \<Rightarrow> (string \<Rightarrow> ('w, 'b) ctor option) \<Rightarrow> (string \<Rightarrow> ('w, 'b) ctor option)" where
  "Register name ctor constructors = constructors(name \<mapsto> ctor)"

definition GetBackend ::
  "(string \<Rightarrow> ('w, 'b) ctor option) \<Rightarrow> string \<Rightarrow> ('w, 'b) manager \<Rightarrow> ('w, 'b \<times> ('w, 'b) manager) io" where
  "GetBackend constructors backendType bm =
     (let betype = ToLower backendType in
      case bm_active bm betype of
        Some be \<Rightarrow> io_ret (be, bm)
      | None \<Rightarrow>
          (case constructors betype of
             None \<Rightarrow> io_err (ErrorString (''unknown backend type: '' @ betype))
           | Some befunc \<Rightarrow>
               io_bind (befunc (bm_sm bm) (bm_extIface bm)) (\<lambda>be.
                 io_ret (be, bm\<lparr>bm_active := (bm_active bm)(betype \<mapsto> be)\<rparr>))))"

definition backend_done :: "string \<Rightarrow> ('w, 'b) manager \<Rightarrow> ('w, 'b) manager" where
  "backend_done betype bm = bm\<lparr>bm_active := (bm_active bm)(betype := None)\<rparr>"

record SimpleNetwork =
  sn_SubnetLease :: Lease
  sn_ExtIface :: ExternalInterface

definition sn_Lease :: "SimpleNetwork \<Rightarrow> Lease" where
  "sn_Lease n = sn_SubnetLease n"

definition sn_MTU :: "SimpleNetwork \<Rightarrow> int" where
  "sn_MTU n = if_MTU (ei_Iface (sn_ExtIface n))"

text \<open>The errors of an acquisition: a cancelled context is passed on, others are wrapped.\<close>

definition acquire_or_fail :: "'w subnet_manager \<Rightarrow> LeaseAttrs \<Rightarrow> ('w, Lease) io" where
  "acquire_or_fail sm attrs =
     io_try (sm_AcquireLease sm attrs) io_ret
       (\<lambda>e. if e = Sentinel ''context.Canceled'' \<or> e = Sentinel ''context.DeadlineExceeded'' then io_err e
            else io_err (Wrapped ''failed to acquire lease'' e))"

section \<open>The list of routes\<close>

text \<open>Comparing destinations dereferences them.\<close>

definition routeEqual :: "Route \<Rightarrow> Route \<Rightarrow> bool go" where
  "routeEqual x y =
     go_bind (deref (rt_Dst x)) (\<lambda>dx. go_bind (deref (rt_Dst y)) (\<lambda>dy.
       Ok (IP_Equal (ipn_IP dx) (ipn_IP dy) \<and> IP_Equal (rt_Gw x) (rt_Gw y) \<and> ipn_Mask dx = ipn_Mask dy \<and>
           rt_LinkIndex x = rt_LinkIndex y)))"

fun in_routes :: "Route \<Rightarrow> Route list \<Rightarrow> bool go" where
  "in_routes route [] = Ok False"
| "in_routes route (r # rs) = go_bind (routeEqual r route) (\<lambda>eq. if eq then Ok True else in_routes route rs)"

definition addToRouteList :: "Route \<Rightarrow> Route list \<Rightarrow> Route list go" where
  "addToRouteList route routes =
     go_bind (in_routes route routes) (\<lambda>found. Ok (if found then routes else routes @ [route]))"

fun removeFromRouteList :: "Route \<Rightarrow> Route list \<Rightarrow> Route list go" where
  "removeFromRouteList route [] = Ok []"
| "removeFromRouteList route (r # rs) =
     go_bind (routeEqual r route) (\<lambda>eq.
       if eq then Ok rs else go_bind (removeFromRouteList route rs) (\<lambda>rs'. Ok (r # rs')))"

definition routes_to :: "'w netlink \<Rightarrow> int \<Rightarrow> Route \<Rightarrow> ('w, Route list) io" where
  "routes_to nl ipFamily route =
     io_try (nl_RouteListFiltered nl ipFamily (no_route\<lparr>rt_Dst := rt_Dst route\<rparr>) RT_FILTER_DST) io_ret (\<lambda>_. io_ret [])"

definition first_equal :: "Route list \<Rightarrow> Route \<Rightarrow> bool option go" where
  "first_equal routeList route =
     (case routeList of [] \<Rightarrow> Ok None | r # _ \<Rightarrow> go_bind (routeEqual r route) (\<lambda>eq. Ok (Some eq)))"

definition install_route :: "'w netlink \<Rightarrow> int \<Rightarrow> Route \<Rightarrow> Route list \<Rightarrow> ('w, Route list) io" where
  "install_route nl ipFamily route routes =
     io_bind (routes_to nl ipFamily route) (\<lambda>routeList.
     io_bind (io_of (first_equal routeList route)) (\<lambda>eq.
     io_try (if eq = Some True then io_ret () else nl_RouteAdd nl route)
       (\<lambda>_. io_bind (routes_to nl ipFamily route) (\<lambda>_. io_ret routes))
       (\<lambda>_. io_ret routes)))"

definition routeAdd :: "'w netlink \<Rightarrow> int \<Rightarrow> Route \<Rightarrow> Route list \<Rightarrow> ('w, Route list) io" where
  "routeAdd nl ipFamily route routes0 =
     io_bind (io_of (addToRouteList route routes0)) (\<lambda>routes.
     io_bind (routes_to nl ipFamily route) (\<lambda>routeList.
     io_bind (io_of (first_equal routeList route)) (\<lambda>eq.
       if eq = Some False then
         io_try (nl_RouteDel nl (hd routeList))
           (\<lambda>_. io_bind (io_of (removeFromRouteList (hd routeList) routes)) (install_route nl ipFamily route))
           (\<lambda>_. io_ret routes)
       else install_route nl ipFamily route routes)))"

section \<open>The network\<close>

text \<open>A function-typed field that was not set is nil; calling it panics.\<close>

record 'w RouteNetwork =
  rn_SubnetLease :: "Lease option"
  rn_ExtIface :: ExternalInterface
  rn_BackendType :: string
  rn_routes :: "Route list"
  rn_v6Routes :: "Route list"
  rn_GetRoute :: "(Lease \<Rightarrow> ('w, Route) io) option"
  rn_GetV6Route :: "(Lease \<Rightarrow> ('w, Route) io) option"
  rn_Mtu :: int
  rn_LinkIndex :: int

definition call_route :: "(Lease \<Rightarrow> ('w, Route) io) option \<Rightarrow> Lease \<Rightarrow> ('w, Route) io" where
  "call_route f l = (case f of None \<Rightarrow> io_of (Panic NilDeref) | Some g \<Rightarrow> g l)"

definition rn_MTU :: "'w RouteNetwork \<Rightarrow> int" where
  "rn_MTU n = rn_Mtu n"

definition route_added :: "'w netlink \<Rightarrow> Lease \<Rightarrow> 'w RouteNetwork \<Rightarrow> ('w, 'w RouteNetwork) io" where
  "route_added nl l n0 =
     io_bind
       (if lease_EnableIPv4 l then
          io_bind (call_route (rn_GetRoute n0) l) (\<lambda>route.
          io_bind (routeAdd nl FAMILY_V4 route (rn_routes n0)) (\<lambda>rs. io_ret (n0\<lparr>rn_routes := rs\<rparr>)))
        else io_ret n0) (\<lambda>n.
     if lease_EnableIPv6 l then
       io_bind (call_route (rn_GetV6Route n) l) (\<lambda>route.
       io_bind (routeAdd nl FAMILY_V6 route (rn_v6Routes n)) (\<lambda>rs. io_ret (n\<lparr>rn_v6Routes := rs\<rparr>)))
     else io_ret n)"

definition route_removed :: "'w netlink \<Rightarrow> Lease \<Rightarrow> 'w RouteNetwork \<Rightarrow> ('w, 'w RouteNetwork) io" where
  "route_removed nl l n0 =
     io_bind
       (if lease_EnableIPv4 l then
          io_bind (call_route (rn_GetRoute n0) l) (\<lambda>route.
          io_bind (io_of (removeFromRouteList route (rn_routes n0))) (\<lambda>rs.
          io_bind (io_logged (nl_RouteDel nl route)) (\<lambda>_. io_ret (n0\<lparr>rn_routes := rs\<rparr>))))
        else io_ret n0) (\<lambda>n.
     if lease_EnableIPv6 l then
       io_bind (call_route (rn_GetV6Route n) l) (\<lambda>route.
       io_bind (io_of (removeFromRouteList route (rn_v6Routes n))) (\<lambda>rs.
       io_bind (io_logged (nl_RouteDel nl route)) (\<lambda>_. io_ret (n\<lparr>rn_v6Routes := rs\<rparr>))))
     else io_ret n)"

definition route_event :: "'w netlink \<Rightarrow> Event \<Rightarrow> 'w RouteNetwork \<Rightarrow> ('w, 'w RouteNetwork) io" where
  "route_event nl evt n =
     (if la_BackendType (lease_Attrs (ev_Lease evt)) \<noteq> rn_BackendType n then io_ret n
      else (case ev_Type evt of
              EventAdded \<Rightarrow> route_added nl (ev_Lease evt) n
            | EventRemoved \<Rightarrow> route_removed nl (ev_Lease evt) n))"

definition rn_handleSubnetEvents :: "'w netlink \<Rightarrow> 'w RouteNetwork \<Rightarrow> Event list \<Rightarrow> ('w, 'w RouteNetwork) io" where
  "rn_handleSubnetEvents nl n batch = io_fold (route_event nl) batch n"

text \<open>The periodic check adds the listed routes that the kernel does not have.\<close>

definition listed :: "Route \<Rightarrow> Route list \<Rightarrow> bool go" where
  "listed route routeList = in_routes route (filter (\<lambda>r. rt_Dst r \<noteq> None) routeList)"

definition recover_route :: "'w netlink \<Rightarrow> Route list \<Rightarrow> Route \<Rightarrow> unit \<Rightarrow> ('w, unit) io" where
  "recover_route nl routeList route u =
     io_bind (io_of (listed route routeList)) (\<lambda>exist.
       if exist then io_ret () else io_logged (nl_RouteAdd nl route))"

definition checkSubnetExistInRoutes :: "'w netlink \<Rightarrow> Route list \<Rightarrow> int \<Rightarrow> ('w, unit) io" where
  "checkSubnetExistInRoutes nl routes ipFamily =
     io_try (nl_RouteList nl ipFamily) (\<lambda>routeList. io_fold (recover_route nl routeList) routes ())
       (\<lambda>_. io_ret ())"

definition routeCheck_round :: "'w netlink \<Rightarrow> 'w RouteNetwork \<Rightarrow> ('w, unit) io" where
  "routeCheck_round nl n =
     io_bind (checkSubnetExistInRoutes nl (rn_routes n) FAMILY_V4) (\<lambda>_.
       checkSubnetExistInRoutes nl (rn_v6Routes n) FAMILY_V6)"

text \<open>
  \<open>Run\<close> interleaves batches of events and rounds of the check. The two goroutines share the
  lists without a lock; the model runs each of them to its end.
\<close>

datatype route_input = EventBatch "Event list" | CheckTimer

fun rn_Run :: "'w netlink \<Rightarrow> route_input list \<Rightarrow> 'w RouteNetwork \<Rightarrow> ('w, 'w RouteNetwork) io" where
  "rn_Run nl [] n = io_ret n"
| "rn_Run nl (EventBatch b # is) n = io_bind (rn_handleSubnetEvents nl n b) (rn_Run nl is)"
| "rn_Run nl (CheckTimer # is) n = io_bind (routeCheck_round nl n) (\<lambda>_. rn_Run nl is n)"

section \<open>The \<open>host-gw\<close> backend\<close>

definition hostgw_New :: "'w subnet_manager \<Rightarrow> ExternalInterface \<Rightarrow> ('w subnet_manager \<times> ExternalInterface) go" where
  "hostgw_New sm extIface =
     (if \<not> IP_Equal (ei_ExtAddr extIface) (ei_IfaceAddr extIface) then
        Err (ErrorString ''your PublicIP differs from interface IP, meaning that probably you're on a NAT, which is not supported by host-gw backend'')
      else Ok (sm, extIface))"

definition hostgw_route :: "int \<Rightarrow> Lease \<Rightarrow> ('w, Route) io" where
  "hostgw_route linkIndex l =
     io_ret (no_route\<lparr>rt_Dst := Some (IP4Net_ToIPNet (lease_Subnet l)),
       rt_Gw := IP4_ToIP (la_PublicIP (lease_Attrs l)), rt_LinkIndex := linkIndex\<rparr>)"

definition hostgw_v6route :: "int \<Rightarrow> Lease \<Rightarrow> ('w, Route) io" where
  "hostgw_v6route linkIndex l =
     io_bind (io_of (IP6Net_ToIPNet (lease_IPv6Subnet l))) (\<lambda>dst.
     io_bind (io_of (go_bind (deref (la_PublicIPv6 (lease_Attrs l))) IP6_ToIP)) (\<lambda>gw.
       io_ret (no_route\<lparr>rt_Dst := Some dst, rt_Gw := gw, rt_LinkIndex := linkIndex\<rparr>)))"

definition new_RouteNetwork :: "ExternalInterface \<Rightarrow> string \<Rightarrow> 'w RouteNetwork" where
  "new_RouteNetwork extIface ty =
     \<lparr>rn_SubnetLease = None, rn_ExtIface = extIface, rn_BackendType = ty, rn_routes = [], rn_v6Routes = [],
      rn_GetRoute = None, rn_GetV6Route = None, rn_Mtu = 0, rn_LinkIndex = 0\<rparr>"

definition hostgw_RegisterNetwork ::
  "'w subnet_manager \<Rightarrow> ExternalInterface \<Rightarrow> Config \<Rightarrow> ('w, 'w RouteNetwork) io" where
  "hostgw_RegisterNetwork sm extIface config =
     (let idx = if_Index (ei_Iface extIface);
          n = (new_RouteNetwork extIface ''host-gw'')\<lparr>rn_Mtu := if_MTU (ei_Iface extIface), rn_LinkIndex := idx,
                 rn_GetRoute := (if cfg_EnableIPv4 config then Some (hostgw_route idx) else None),
                 rn_GetV6Route := (if cfg_EnableIPv6 config then Some (hostgw_v6route idx) else None)\<rparr> in
      io_bind (io_of (if cfg_EnableIPv4 config then FromIP (ei_ExtAddr extIface) else Ok 0)) (\<lambda>pub.
      io_bind (io_of (if cfg_EnableIPv6 config then go_bind (FromIP6 (ei_ExtV6Addr extIface)) (\<lambda>v. Ok (Some v)) else Ok None)) (\<lambda>pub6.
      io_bind (acquire_or_fail sm (empty_attrs\<lparr>la_BackendType := ''host-gw'', la_PublicIP := pub, la_PublicIPv6 := pub6\<rparr>)) (\<lambda>l.
        io_ret (n\<lparr>rn_SubnetLease := Some l\<rparr>)))))"

section \<open>The \<open>alloc\<close> backend\<close>

definition alloc_RegisterNetwork :: "'w subnet_manager \<Rightarrow> ExternalInterface \<Rightarrow> ('w, SimpleNetwork) io" where
  "alloc_RegisterNetwork sm extIface =
     io_bind (io_of (FromIP (ei_ExtAddr extIface))) (\<lambda>pub.
     io_bind (acquire_or_fail sm (empty_attrs\<lparr>la_PublicIP := pub\<rparr>)) (\<lambda>l.
       io_ret \<lparr>sn_SubnetLease = l, sn_ExtIface = extIface\<rparr>))"

section \<open>The \<open>ipip\<close> backend\<close>

definition tunnelName :: string where "tunnelName = ''flannel.ipip''"

definition ipip_set :: "string \<Rightarrow> string \<Rightarrow> json \<Rightarrow> bool \<Rightarrow> bool go" where
  "ipip_set f raw v old = dec_bool old v"

definition ipip_config :: "string \<Rightarrow> bool go" where
  "ipip_config be =
     (if length be > 0 then
        (case json_Unmarshal [''DirectRouting''] ipip_set be False of
           Err e \<Rightarrow> Err (Wrapped ''error decoding IPIP backend config'' e)
         | r \<Rightarrow> r)
      else Ok False)"

definition ipip_existing :: "'w netlink \<Rightarrow> ExternalInterface \<Rightarrow> Link \<Rightarrow> Link \<Rightarrow> ('w, Link) io" where
  "ipip_existing nl ei link existing =
     (if Link_Type existing \<noteq> ''ipip'' then
        io_err (ErrorString (tunnelName @ '' isn't an ipip mode device, please remove device and try again''))
      else
        (case existing of
           IptunLink t \<Rightarrow>
             if tun_Local t = [] \<or> \<not> IP_Equal (tun_Local t) (ei_IfaceAddr ei) \<or>
                (tun_Remote t \<noteq> [] \<and> IP_String (tun_Remote t) \<noteq> ''0.0.0.0'') then
               io_try (nl_LinkDel nl existing)
                 (\<lambda>_. io_try (nl_LinkAdd nl link) io_ret (\<lambda>e. io_err (Wrapped ''failed to create ipip interface'' e)))
                 (\<lambda>e. io_err (Wrapped ''failed to delete interface'' e))
             else io_ret link
         | _ \<Rightarrow> io_err (ErrorString (tunnelName @ '' isn't an iptun device, please remove device and try again''))))"

definition ipip_create :: "'w netlink \<Rightarrow> ExternalInterface \<Rightarrow> ('w, Link) io" where
  "ipip_create nl ei =
     (let link = IptunLink \<lparr>tun_Attrs = \<lparr>lk_Index = 0, lk_MTU = 0, lk_Name = tunnelName, lk_HardwareAddr = []\<rparr>,
                            tun_Local = ei_IfaceAddr ei, tun_Remote = []\<rparr> in
      io_try (nl_LinkAdd nl link) io_ret
        (\<lambda>e. if e \<noteq> EEXIST then io_err e
             else io_bind (nl_LinkByName nl tunnelName) (ipip_existing nl ei link)))"

primrec set_mtu :: "int \<Rightarrow> Link \<Rightarrow> Link" where
  "set_mtu m (VxlanLink v) = VxlanLink (v\<lparr>vx_Attrs := (vx_Attrs v)\<lparr>lk_MTU := m\<rparr>\<rparr>)"
| "set_mtu m (IptunLink t) = IptunLink (t\<lparr>tun_Attrs := (tun_Attrs t)\<lparr>lk_MTU := m\<rparr>\<rparr>)"
| "set_mtu m (OtherLink a ty) = OtherLink (a\<lparr>lk_MTU := m\<rparr>) ty"

definition configureIPIPDevice :: "'w netlink \<Rightarrow> ExternalInterface \<Rightarrow> Lease \<Rightarrow> IP4Net \<Rightarrow> ('w, Link) io" where
  "configureIPIPDevice nl ei l flannelnet =
     io_bind (ipip_create nl ei) (\<lambda>link.
       let expectMTU = if_MTU (ei_Iface ei) - 20; oldMTU = lk_MTU (Link_Attrs link) in
       if expectMTU \<le> 0 then io_err (ErrorString ''MTU of iface is too small for ipip mode to work'')
       else
         io_bind
           (if oldMTU > expectMTU \<or> oldMTU = 0 then
              io_try (nl_LinkSetMTU nl link expectMTU) (\<lambda>lk. io_ret (set_mtu expectMTU lk))
                (\<lambda>e. io_err (Wrapped ''failed to set MTU'' e))
            else io_ret link) (\<lambda>lk.
         io_try (EnsureV4AddressOnLink nl \<lparr>ip4_IP = ip4_IP (lease_Subnet l), ip4_PrefixLen = 32\<rparr> flannelnet (Link_Attrs lk))
           (\<lambda>_. io_try (nl_LinkSetUp nl lk) (\<lambda>_. io_ret lk) (\<lambda>e. io_err (Wrapped ''failed to set UP'' e)))
           (\<lambda>e. io_err (Wrapped ''failed to ensure address of interface'' e))))"

definition ipip_route :: "'w netlink \<Rightarrow> ExternalInterface \<Rightarrow> bool \<Rightarrow> int \<Rightarrow> Lease \<Rightarrow> ('w, Route) io" where
  "ipip_route nl ei direct linkIndex l =
     (let gw = IP4_ToIP (la_PublicIP (lease_Attrs l));
          route = no_route\<lparr>rt_Dst := Some (IP4Net_ToIPNet (lease_Subnet l)), rt_Gw := gw, rt_LinkIndex := linkIndex,
                           rt_Flags := FLAG_ONLINK\<rparr> in
      if direct then
        io_try (DirectRouting nl gw)
          (\<lambda>dr. io_ret (if dr then route\<lparr>rt_LinkIndex := if_Index (ei_Iface ei)\<rparr> else route))
          (\<lambda>_. io_ret route)
      else io_ret route)"

definition ipip_RegisterNetwork ::
  "'w netlink \<Rightarrow> 'w subnet_manager \<Rightarrow> ExternalInterface \<Rightarrow> Config \<Rightarrow> ('w, 'w RouteNetwork) io" where
  "ipip_RegisterNetwork nl sm ei config =
     io_bind (io_of (ipip_config (cfg_Backend config))) (\<lambda>direct.
     io_bind (io_of (FromIP (ei_ExtAddr ei))) (\<lambda>pub.
     io_bind (acquire_or_fail sm (empty_attrs\<lparr>la_BackendType := ''ipip'', la_PublicIP := pub\<rparr>)) (\<lambda>l.
     io_bind (configureIPIPDevice nl ei l (cfg_Network config)) (\<lambda>link.
       io_ret ((new_RouteNetwork ei ''ipip'')\<lparr>rn_SubnetLease := Some l, rn_Mtu := lk_MTU (Link_Attrs link),
         rn_LinkIndex := lk_Index (Link_Attrs link),
         rn_GetRoute := Some (ipip_route nl ei direct (lk_Index (Link_Attrs link)))\<rparr>)))))"

lemmas [go_eval] =
  NewManager_def GetBackend_def backend_done_def sn_Lease_def sn_MTU_def acquire_or_fail_def routeEqual_def
  addToRouteList_def routes_to_def first_equal_def install_route_def routeAdd_def call_route_def rn_MTU_def
  route_added_def route_removed_def route_event_def rn_handleSubnetEvents_def listed_def recover_route_def
  checkSubnetExistInRoutes_def routeCheck_round_def hostgw_New_def hostgw_route_def hostgw_v6route_def
  new_RouteNetwork_def hostgw_RegisterNetwork_def alloc_RegisterNetwork_def tunnelName_def ipip_set_def ipip_config_def
  ipip_existing_def ipip_create_def configureIPIPDevice_def ipip_route_def ipip_RegisterNetwork_def

end
