(* ===== verification/Ext_Iface.thy ===== *)
theory Ext_Iface
  imports Route_Network Kernel_Memory
begin

text \<open>
  The choice of the external interface (\<open>pkg/ipmatch/match.go\<close>). The compiler of regular expressions
  is an argument: it gives the predicate of the strings that match, or an error. A nil address is
  the empty list, a nil interface \<open>None\<close>.
\<close>

section \<open>Selection\<close>

datatype ip_stack = ipv4Stack | ipv6Stack | dualStack | noneStack

record PublicIPOpts =
  po_PublicIP :: string
  po_PublicIPv6 :: string

definition GetIPFamily :: "bool \<Rightarrow> bool \<Rightarrow> ip_stack go" where
  "GetIPFamily autoDetectIPv4 autoDetectIPv6 =
     (if autoDetectIPv4 \<and> \<not> autoDetectIPv6 then Ok ipv4Stack
      else if \<not> autoDetectIPv4 \<and> autoDetectIPv6 then Ok ipv6Stack
      else if autoDetectIPv4 \<and> autoDetectIPv6 then Ok dualStack
      else Err (ErrorString ''none defined stack''))"

type_synonym selection = "Interface option \<times> net_IP \<times> net_IP"

definition lookup_error :: "string \<Rightarrow> string \<Rightarrow> goerror \<Rightarrow> ('w, 'a) io" where
  "lookup_error what name e = io_err (Wrapped (''error looking up '' @ what @ name) e)"

definition matchIP :: "(string \<Rightarrow> bool) \<Rightarrow> net_IP list \<Rightarrow> net_IP" where
  "matchIP ifregex ifaceIPs = (case find (\<lambda>ip. ifregex (IP_String ip)) ifaceIPs of None \<Rightarrow> [] | Some ip \<Rightarrow> ip)"

text \<open>An address is given for the interface.\<close>

definition select_dual :: "'w netlink \<Rightarrow> string \<Rightarrow> net_IP \<Rightarrow> PublicIPOpts \<Rightarrow> ('w, selection) io" where
  "select_dual nl ifname addr opts =
     io_bind
       (if To4 addr \<noteq> [] then
          io_try (GetInterfaceByIP nl addr) (\<lambda>i. io_ret (Some i)) (lookup_error ''interface '' ifname)
        else io_ret None) (\<lambda>iface.
     if length (po_PublicIPv6 opts) > 0 then
       (let v6 = ParseIP (po_PublicIPv6 opts) in
        if v6 \<noteq> [] then
          io_try (GetInterfaceByIP6 nl v6)
            (\<lambda>v6Iface.
               if To4 addr = [] then io_ret (Some v6Iface, [], v6)
               else io_bind (io_of (deref iface)) (\<lambda>i.
                 if if_Name i \<noteq> if_Name v6Iface then
                   io_err (ErrorString (''v6 interface '' @ if_Name v6Iface @ '' must be the same with v4 interface '' @ if_Name i))
                 else io_ret (Some i, addr, v6)))
            (lookup_error ''v6 interface '' (po_PublicIPv6 opts))
        else io_ret (iface, addr, []))
     else io_ret (iface, addr, []))"

definition select_named :: "'w netlink \<Rightarrow> string \<Rightarrow> ip_stack \<Rightarrow> PublicIPOpts \<Rightarrow> ('w, selection) io" where
  "select_named nl ifname ipStack opts =
     (let addr = ParseIP ifname in
      if addr \<noteq> [] then
        (case ipStack of
           ipv4Stack \<Rightarrow> io_try (GetInterfaceByIP nl addr) (\<lambda>i. io_ret (Some i, addr, [])) (lookup_error ''interface '' ifname)
         | ipv6Stack \<Rightarrow> io_try (GetInterfaceByIP6 nl addr) (\<lambda>i. io_ret (Some i, addr, addr)) (lookup_error ''v6 interface '' ifname)
         | dualStack \<Rightarrow> select_dual nl ifname addr opts
         | noneStack \<Rightarrow> io_ret (None, addr, []))
      else io_try (nl_InterfaceByName nl ifname) (\<lambda>i. io_ret (Some i, [], [])) (lookup_error ''interface '' ifname))"

text \<open>
  An expression is given: the interfaces are tried by their addresses. In a dual stack an IPv4
  address that matched is kept when the IPv6 addresses of its interface do not match.
\<close>

fun match_addrs ::
  "'w netlink \<Rightarrow> (string \<Rightarrow> bool) \<Rightarrow> ip_stack \<Rightarrow> Interface list \<Rightarrow> net_IP \<Rightarrow> ('w, selection) io" where
  "match_addrs nl ifregex ipStack [] addr = io_ret (None, addr, [])"
| "match_addrs nl ifregex ipStack (i # ifaces) addr =
     (case ipStack of
        ipv4Stack \<Rightarrow>
          io_try (GetInterfaceIP4Addrs nl i)
            (\<lambda>ips. let m = matchIP ifregex ips in
                   if m \<noteq> [] then io_ret (Some i, m, []) else match_addrs nl ifregex ipStack ifaces addr)
            (\<lambda>_. match_addrs nl ifregex ipStack ifaces addr)
      | ipv6Stack \<Rightarrow>
          io_try (GetInterfaceIP6Addrs nl i)
            (\<lambda>ips. let m = matchIP ifregex ips in
                   if m \<noteq> [] then io_ret (Some i, addr, m) else match_addrs nl ifregex ipStack ifaces addr)
            (\<lambda>_. match_addrs nl ifregex ipStack ifaces addr)
      | dualStack \<Rightarrow>
          io_try (GetInterfaceIP4Addrs nl i)
            (\<lambda>ips. io_try (GetInterfaceIP6Addrs nl i)
               (\<lambda>ips6.
                  let m = matchIP ifregex ips; m6 = matchIP ifregex ips6 in
                  if m = [] then match_addrs nl ifregex ipStack ifaces addr
                  else if m6 \<noteq> [] then io_ret (Some i, m, m6)
                  else match_addrs nl ifregex ipStack ifaces m)
               (\<lambda>_. match_addrs nl ifregex ipStack ifaces addr))
            (\<lambda>_. match_addrs nl ifregex ipStack ifaces addr)
      | noneStack \<Rightarrow> match_addrs nl ifregex ipStack ifaces addr)"

definition describe_iface :: "'w netlink \<Rightarrow> ip_stack \<Rightarrow> Interface \<Rightarrow> string list \<Rightarrow> ('w, string list) io" where
  "describe_iface nl ipStack i acc =
     io_bind
       (io_try (if ipStack = ipv6Stack then GetInterfaceIP6Addrs nl i else GetInterfaceIP4Addrs nl i) io_ret (\<lambda>_. io_ret [])) (\<lambda>ips.
       io_ret (acc @ [if_Name i @ '':['' @ JoinStr '' '' (map IP_String ips) @ '']'']))"

definition select_matching :: "'w netlink \<Rightarrow> (string \<Rightarrow> bool) \<Rightarrow> string \<Rightarrow> ip_stack \<Rightarrow> ('w, selection) io" where
  "select_matching nl ifregex ifregexS ipStack =
     io_try (nl_Interfaces nl)
       (\<lambda>ifaces.
          io_bind (match_addrs nl ifregex ipStack ifaces []) (\<lambda>(iface, addr, v6addr).
          let iface' = (if iface = None \<and> (addr = [] \<or> v6addr = []) then find (\<lambda>i. ifregex (if_Name i)) ifaces else iface) in
          if iface' = None then
            io_bind (io_fold (describe_iface nl ipStack) ifaces []) (\<lambda>available.
              io_err (ErrorString (''could not match pattern '' @ ifregexS @ '' to any of the available network interfaces ('' @
                JoinStr '', '' available @ '')'')))
          else io_ret (iface', addr, v6addr)))
       (\<lambda>e. io_err (Wrapped ''error listing all interfaces'' e))"

definition select_default :: "'w netlink \<Rightarrow> ip_stack \<Rightarrow> ('w, selection) io" where
  "select_default nl ipStack =
     (let v4 = io_try (GetDefaultGatewayInterface nl) io_ret (\<lambda>e. io_err (Wrapped ''failed to get default interface'' e));
          v6 = io_try (GetDefaultV6GatewayInterface nl) io_ret (\<lambda>e. io_err (Wrapped ''failed to get default v6 interface'' e)) in
      case ipStack of
        ipv4Stack \<Rightarrow> io_bind v4 (\<lambda>i. io_ret (Some i, [], []))
      | ipv6Stack \<Rightarrow> io_bind v6 (\<lambda>i. io_ret (Some i, [], []))
      | dualStack \<Rightarrow>
          io_bind v4 (\<lambda>i. io_bind v6 (\<lambda>i6.
            if if_Name i \<noteq> if_Name i6 then
              io_err (ErrorString (''v6 default route interface '' @ if_Name i6 @ '' must be the same with v4 default route interface '' @ if_Name i))
            else io_ret (Some i, [], [])))
      | noneStack \<Rightarrow> io_ret (None, [], []))"

section \<open>The addresses of the interface\<close>

definition or_first :: "('w, net_IP list) io \<Rightarrow> string \<Rightarrow> net_IP \<Rightarrow> ('w, net_IP) io" where
  "or_first get msg addr =
     (if addr \<noteq> [] then io_ret addr
      else io_try get (\<lambda>ips. case ips of [] \<Rightarrow> io_err (ErrorString msg) | ip # _ \<Rightarrow> io_ret ip) (\<lambda>_. io_err (ErrorString msg)))"

definition complete_addrs :: "'w netlink \<Rightarrow> ip_stack \<Rightarrow> Interface \<Rightarrow> net_IP \<Rightarrow> net_IP \<Rightarrow> ('w, net_IP \<times> net_IP) io" where
  "complete_addrs nl ipStack i addr v6addr =
     io_bind
       (if ipStack = ipv4Stack \<or> ipStack = dualStack then
          or_first (GetInterfaceIP4Addrs nl i) (''failed to find IPv4 address for interface '' @ if_Name i) addr
        else io_ret addr) (\<lambda>a.
     io_bind
       (if ipStack = ipv6Stack \<or> ipStack = dualStack then
          or_first (GetInterfaceIP6Addrs nl i) (''failed to find IPv6 address for interface '' @ if_Name i) v6addr
        else io_ret v6addr) (\<lambda>a6. io_ret (a, a6)))"

definition public_addr :: "string \<Rightarrow> string \<Rightarrow> bool \<Rightarrow> net_IP \<Rightarrow> net_IP go" where
  "public_addr opt msg dflt addr =
     (if length opt > 0 then (if ParseIP opt = [] then Err (ErrorString (msg @ opt)) else Ok (ParseIP opt))
      else Ok (if dflt then addr else []))"

definition external :: "PublicIPOpts \<Rightarrow> ip_stack \<Rightarrow> Interface \<Rightarrow> net_IP \<Rightarrow> net_IP \<Rightarrow> ExternalInterface go" where
  "external opts ipStack i addr v6addr =
     (if if_MTU i = 0 then Err (ErrorString (''failed to determine MTU for '' @ IP_String addr @ '' interface''))
      else
        go_bind (public_addr (po_PublicIP opts) ''invalid public IP address: '' (ipStack \<noteq> ipv6Stack) addr) (\<lambda>ext.
        go_bind (public_addr (po_PublicIPv6 opts) ''invalid public IPv6 address: '' (ipStack \<noteq> ipv4Stack) v6addr) (\<lambda>ext6.
          Ok \<lparr>ei_Iface = i, ei_IfaceName = if_Name i, ei_IfaceAddr = addr, ei_IfaceV6Addr = v6addr, ei_ExtAddr = ext, ei_ExtV6Addr = ext6\<rparr>)))"

definition LookupExtIface ::
  "(string \<Rightarrow> (string \<Rightarrow> bool) go) \<Rightarrow> 'w netlink \<Rightarrow> string \<Rightarrow> string \<Rightarrow> string \<Rightarrow> ip_stack \<Rightarrow> PublicIPOpts \<Rightarrow> ('w, ExternalInterface) io" where
  "LookupExtIface compile nl ifname ifregexS ifcanreach ipStack opts =
     io_bind
       (if ifregexS \<noteq> [] then
          io_try (io_of (compile ifregexS)) (\<lambda>r. io_ret (Some r))
            (\<lambda>e. io_err (Wrapped (''could not compile the IP address regex '' @ ifregexS) e))
        else io_ret None) (\<lambda>ifregex.
     if ipStack = noneStack then io_err (ErrorString ''none matched ip stack'')
     else
       io_bind
         (if length ifname > 0 then select_named nl ifname ipStack opts
          else (case ifregex of
                  Some r \<Rightarrow> select_matching nl r ifregexS ipStack
                | None \<Rightarrow>
                    if length ifcanreach > 0 then
                      io_try (GetInterfaceBySpecificIPRouting nl (ParseIP ifcanreach)) (\<lambda>(i, addr). io_ret (Some i, addr, []))
                        (\<lambda>e. io_err (Wrapped ''failed to get ifcanreach based interface'' e))
                    else select_default nl ipStack)) (\<lambda>(iface, addr, v6addr).
       io_bind (io_of (deref iface)) (\<lambda>i.
       io_bind (complete_addrs nl ipStack i addr v6addr) (\<lambda>(a, a6).
         io_of (external opts ipStack i a a6)))))"

lemmas [go_eval] =
  GetIPFamily_def lookup_error_def matchIP_def select_dual_def select_named_def describe_iface_def select_matching_def select_default_def
  or_first_def complete_addrs_def public_addr_def external_def LookupExtIface_def

section \<open>What is found is well formed\<close>

text \<open>The addresses of an interface are not nil.\<close>

lemma usable_nonempty: "usable_ips f e as = Ok ips \<Longrightarrow> f [] = [] \<Longrightarrow> [] \<notin> set ips"
  by (auto simp: usable_ips_def Let_def split: if_splits)

lemma iface_addrs_nonempty:
  "GetInterfaceIP4Addrs nl i w = Some (Ok ips, w') \<Longrightarrow> [] \<notin> set ips"
  "GetInterfaceIP6Addrs nl i w = Some (Ok ips, w') \<Longrightarrow> [] \<notin> set ips"
  by (auto simp: GetInterfaceIP4Addrs_def GetInterfaceIP6Addrs_def io_bind_Ok_iff io_of_def To4_def To16_def dest!: usable_nonempty)

lemma or_first_nonempty:
  assumes "or_first get msg addr w = Some (Ok a, w')" "\<And>ips w w'. get w = Some (Ok ips, w') \<Longrightarrow> [] \<notin> set ips"
  shows "a \<noteq> []"
  using assms(1) by (auto simp: or_first_def io_try_apply split: if_splits option.splits go.splits list.splits prod.splits dest: assms(2))

lemma or_first_addr:
  "or_first (GetInterfaceIP4Addrs nl i) msg addr w = Some (Ok a, w') \<Longrightarrow> a \<noteq> []"
  "or_first (GetInterfaceIP6Addrs nl i) msg addr w = Some (Ok a, w') \<Longrightarrow> a \<noteq> []"
  by (erule or_first_nonempty, erule iface_addrs_nonempty)+

lemma complete_addrs_nonempty:
  assumes "complete_addrs nl ipStack i addr v6addr w = Some (Ok (a, a6), w')"
  shows "ipStack \<noteq> noneStack \<Longrightarrow> ipStack \<noteq> ipv6Stack \<Longrightarrow> a \<noteq> []" "ipStack \<noteq> noneStack \<Longrightarrow> ipStack \<noteq> ipv4Stack \<Longrightarrow> a6 \<noteq> []"
proof -
  obtain w1 where 1: "(if ipStack = ipv4Stack \<or> ipStack = dualStack then
          or_first (GetInterfaceIP4Addrs nl i) (''failed to find IPv4 address for interface '' @ if_Name i) addr
        else io_ret addr) w = Some (Ok a, w1)"
    "(if ipStack = ipv6Stack \<or> ipStack = dualStack then
          or_first (GetInterfaceIP6Addrs nl i) (''failed to find IPv6 address for interface '' @ if_Name i) v6addr
        else io_ret v6addr) w1 = Some (Ok a6, w')"
    using assms by (auto simp: complete_addrs_def io_bind_Ok_iff io_of_def)
  show "a \<noteq> []" if "ipStack \<noteq> noneStack" "ipStack \<noteq> ipv6Stack"
    using that 1(1) by (cases ipStack) (auto dest: or_first_addr)
  show "a6 \<noteq> []" if "ipStack \<noteq> noneStack" "ipStack \<noteq> ipv4Stack"
    using that 1(2) by (cases ipStack) (auto dest: or_first_addr)
qed

lemma public_addr_Ok:
  assumes "public_addr opt msg dflt addr = Ok ext"
  shows "ext = (if opt \<noteq> [] then ParseIP opt else if dflt then addr else [])" "opt \<noteq> [] \<Longrightarrow> ext \<noteq> []"
  using assms by (auto simp: public_addr_def split: if_splits)


definition nic :: "int \<Rightarrow> string \<Rightarrow> Interface" where
  "nic i name = \<lparr>if_Index = i, if_MTU = 1500, if_Name = name\<rparr>"

definition host_addr :: "net_IP \<Rightarrow> nat \<Rightarrow> Addr" where
  "host_addr ip p = \<lparr>addr_IPNet = \<lparr>ipn_IP = ip, ipn_Mask = CIDRMask (int p) 32\<rparr>, addr_Flags = 0\<rparr>"

text \<open>Two interfaces: one in a private network, one with a public address.\<close>

definition two_nics :: kern where
  "two_nics = no_kern\<lparr>k_ifaces := [nic 2 ''eth0'', nic 3 ''wan0''],
     k_addrs := (\<lambda>i. if i = 2 then [host_addr [10, 0, 0, 5] 24] else if i = 3 then [host_addr [203, 0, 113, 7] 24] else [])\<rparr>"


section \<open>Failures\<close>

text \<open>
  In a dual-stack network an IPv6 address as the name of the interface makes the lookup panic
  when no public IPv6 address is given: no interface has been looked up, and its addresses are
  asked for.
\<close>

lemma dual_stack_ipv6_name_panics:
  assumes "ParseIP ifname \<noteq> []" "To4 (ParseIP ifname) = []" "po_PublicIPv6 opts = []"
  shows "LookupExtIface compile nl ifname [] ifcanreach dualStack opts w = Some (Panic NilDeref, w)"
proof -
  have "ifname \<noteq> []" using assms(1) by (cases ifname) (auto simp: go_eval)
  with assms show ?thesis by (simp add: LookupExtIface_def select_named_def select_dual_def Let_def)
qed

lemma ipv6_name_panics_in_memory:
  "LookupExtIface (\<lambda>_. Err (ErrorString [])) mem_netlink ''fd00::1'' [] [] dualStack \<lparr>po_PublicIP = [], po_PublicIPv6 = []\<rparr> no_kern =
     Some (Panic NilDeref, no_kern)"
  by (rule dual_stack_ipv6_name_panics) (simp_all add: go_eval)

end
