(* ===== verification/Hardware_Addr.thy ===== *)
theory Hardware_Addr
  imports Netlink Subnet_Key
begin

text \<open>
  Hardware addresses: \<open>net.ParseMAC\<close> and \<open>HardwareAddr.String\<close> of Go's standard library, the
  addresses \<open>pkg/mac\<close> generates, and the JSON form in which the VXLAN backend publishes them.
\<close>

section \<open>Text of an address\<close>

definition hex2 :: "byte \<Rightarrow> string" where
  "hex2 b = [hex_char (unat (drop_bit 4 b)), hex_char (unat (b AND 0xf))]"

definition HardwareAddr_String :: "HardwareAddr \<Rightarrow> string" where
  "HardwareAddr_String hw = JoinStr '':'' (map hex2 hw)"

definition xtoi2 :: "string \<Rightarrow> char option \<Rightarrow> byte option" where
  "xtoi2 s e =
     (if length s > 2 \<and> Some (s ! 2) \<noteq> e then None
      else (case s of
              a # b # _ \<Rightarrow>
                (case (hex_digit a, hex_digit b) of
                   (Some x, Some y) \<Rightarrow> Some (of_nat (16 * x + y))
                 | _ \<Rightarrow> None)
            | _ \<Rightarrow> None))"

definition cons_byte :: "byte option \<Rightarrow> byte list option \<Rightarrow> byte list option" where
  "cons_byte b bs = (case (b, bs) of (Some x, Some xs) \<Rightarrow> Some (x # xs) | _ \<Rightarrow> None)"

fun mac_pairs :: "nat \<Rightarrow> string \<Rightarrow> char \<Rightarrow> byte list option" where
  "mac_pairs 0 s e = Some []"
| "mac_pairs (Suc n) s e = cons_byte (xtoi2 s (Some e)) (mac_pairs n (drop 3 s) e)"

fun mac_quads :: "nat \<Rightarrow> string \<Rightarrow> char \<Rightarrow> byte list option" where
  "mac_quads 0 s e = Some []"
| "mac_quads (Suc n) s e =
     cons_byte (xtoi2 (take 2 s) None) (cons_byte (xtoi2 (drop 2 s) (Some e)) (mac_quads n (drop 5 s) e))"

definition mac_length :: "nat \<Rightarrow> bool" where
  "mac_length n \<longleftrightarrow> n = 6 \<or> n = 8 \<or> n = 20"

definition ParseMAC :: "string \<Rightarrow> HardwareAddr go" where
  "ParseMAC s =
     (let bad = Err (ErrorString (''address '' @ s @ '': invalid MAC address'')) in
      if length s < 14 then bad
      else if s ! 2 = CHR '':'' \<or> s ! 2 = CHR ''-'' then
        (if (length s + 1) mod 3 \<noteq> 0 \<or> \<not> mac_length ((length s + 1) div 3) then bad
         else (case mac_pairs ((length s + 1) div 3) s (s ! 2) of None \<Rightarrow> bad | Some hw \<Rightarrow> Ok hw))
      else if s ! 4 = CHR ''.'' then
        (if (length s + 1) mod 5 \<noteq> 0 \<or> \<not> mac_length (2 * (length s + 1) div 5) then bad
         else (case mac_quads ((length s + 1) div 5) s (s ! 4) of None \<Rightarrow> bad | Some hw \<Rightarrow> Ok hw))
      else bad)"

definition NewHardwareAddr :: "'w netlink \<Rightarrow> ('w, HardwareAddr) io" where
  "NewHardwareAddr nl =
     io_try (nl_RandRead nl 6) (\<lambda>hw. io_ret (hw[0 := (hw ! 0 AND 0xfe) OR 0x02]))
       (\<lambda>e. io_err (Wrapped ''could not generate random MAC address'' e))"

section \<open>The attributes of a VXLAN lease\<close>

definition hardwareAddr_MarshalJSON :: "HardwareAddr \<Rightarrow> string" where
  "hardwareAddr_MarshalJSON hw = [chr_quote] @ HardwareAddr_String hw @ [chr_quote]"

definition hardwareAddr_UnmarshalJSON :: "string \<Rightarrow> HardwareAddr go" where
  "hardwareAddr_UnmarshalJSON s =
     (if length s < 2 \<or> hd s \<noteq> chr_quote \<or> last s \<noteq> chr_quote then Err (ErrorString ''error parsing hardware addr'')
      else ParseMAC (butlast (tl s)))"

record vxlanLeaseAttrs =
  vla_VNI :: nat
  vla_VtepMAC :: HardwareAddr

definition no_vxlanLeaseAttrs :: vxlanLeaseAttrs where
  "no_vxlanLeaseAttrs = \<lparr>vla_VNI = 0, vla_VtepMAC = []\<rparr>"

definition vxlanLeaseAttrs_Marshal :: "vxlanLeaseAttrs \<Rightarrow> string" where
  "vxlanLeaseAttrs_Marshal a =
     json_object [(''VNI'', nat_dec (vla_VNI a)), (''VtepMAC'', hardwareAddr_MarshalJSON (vla_VtepMAC a))]"

definition vxlan_attrs_set :: "string \<Rightarrow> string \<Rightarrow> json \<Rightarrow> vxlanLeaseAttrs \<Rightarrow> vxlanLeaseAttrs go" where
  "vxlan_attrs_set f raw v a =
     (if f = ''VNI'' then go_bind (dec_uint 32 (vla_VNI a) v) (\<lambda>n. Ok (a\<lparr>vla_VNI := n\<rparr>))
      else go_bind (hardwareAddr_UnmarshalJSON raw) (\<lambda>hw. Ok (a\<lparr>vla_VtepMAC := hw\<rparr>)))"

definition vxlanLeaseAttrs_Unmarshal :: "string option \<Rightarrow> vxlanLeaseAttrs go" where
  "vxlanLeaseAttrs_Unmarshal data =
     json_Unmarshal [''VNI'', ''VtepMAC''] vxlan_attrs_set (case data of None \<Rightarrow> [] | Some s \<Rightarrow> s) no_vxlanLeaseAttrs"

lemmas [go_eval] =
  hex2_def HardwareAddr_String_def xtoi2_def cons_byte_def mac_length_def ParseMAC_def NewHardwareAddr_def
  hardwareAddr_MarshalJSON_def hardwareAddr_UnmarshalJSON_def no_vxlanLeaseAttrs_def vxlanLeaseAttrs_Marshal_def
  vxlan_attrs_set_def vxlanLeaseAttrs_Unmarshal_def

section \<open>The text is read back\<close>

lemma String_simps:
  "HardwareAddr_String [] = []" "HardwareAddr_String [b] = hex2 b"
  "HardwareAddr_String (b # c # hw) = hex2 b @ CHR '':'' # HardwareAddr_String (c # hw)"
  by (simp_all add: HardwareAddr_String_def JoinStr_def)

lemma length_String: "hw \<noteq> [] \<Longrightarrow> length (HardwareAddr_String hw) + 1 = 3 * length hw"
  by (induction hw rule: induct_list012) (simp_all add: String_simps hex2_def)

lemma byte_nibbles: "16 * unat (drop_bit 4 b) + unat (b AND 0xf) = unat b" for b :: byte
proof -
  have m: "(0xf :: byte) = mask 4" by (simp add: mask_eq_exp_minus_1)
  have "unat (b AND 0xf) = unat b mod 16"
    unfolding m by (simp add: take_bit_eq_mask [symmetric] unsigned_take_bit_eq take_bit_eq_mod unat_mod)
  moreover have "unat (drop_bit 4 b) = unat b div 16" by (simp add: drop_bit_eq_div unat_div)
  ultimately show ?thesis by simp
qed

lemma nibbles_less: "unat (drop_bit 4 b) < 16" "unat (b AND 0xf) < 16" for b :: byte
proof -
  show "unat (drop_bit 4 b) < 16" using byte_nibbles [of b] unat_byte_le [of b] by simp
  show "unat (b AND 0xf) < 16" using word_and_le1 [of b "0xf"] by (simp add: word_le_nat_alt)
qed

lemma xtoi2_hex2: "rest = [] \<or> (\<exists>t. rest = e # t) \<Longrightarrow> xtoi2 (hex2 b @ rest) (Some e) = Some b"
  using byte_nibbles [of b] nibbles_less [of b]
  by (auto simp: xtoi2_def hex2_def hex_digit_hex_char)

lemma mac_pairs_String: "mac_pairs (length hw) (HardwareAddr_String hw) (CHR '':'') = Some hw"
proof (induction hw rule: induct_list012)
  case (2 b)
  then show ?case using xtoi2_hex2 [of "[]" "CHR '':''" b] by (simp add: String_simps cons_byte_def)
next
  case (3 b c hw)
  have "drop 3 (HardwareAddr_String (b # c # hw)) = HardwareAddr_String (c # hw)" by (simp add: String_simps hex2_def)
  with 3 show ?case using xtoi2_hex2 [of "CHR '':'' # HardwareAddr_String (c # hw)" "CHR '':''" b]
    by (simp add: String_simps cons_byte_def)
qed simp

lemma String_nth2: "length hw \<ge> 2 \<Longrightarrow> HardwareAddr_String hw ! 2 = CHR '':''"
  by (induction hw rule: induct_list012) (auto simp: String_simps hex2_def)

lemma ParseMAC_String:
  assumes "mac_length (length hw)"
  shows "ParseMAC (HardwareAddr_String hw) = Ok hw"
proof -
  have "length hw \<ge> 6" using assms by (auto simp: mac_length_def)
  then have "length (HardwareAddr_String hw) + 1 = 3 * length hw" "HardwareAddr_String hw ! 2 = CHR '':''"
    using length_String [of hw] String_nth2 [of hw] by (cases hw; simp)+
  with \<open>length hw \<ge> 6\<close> assms show ?thesis by (simp add: ParseMAC_def mac_pairs_String Let_def)
qed

section \<open>The published attributes are read back\<close>

lemma String_chars: "c \<in> set (HardwareAddr_String hw) \<Longrightarrow> hex_digit c \<noteq> None \<or> c = CHR '':''"
  by (induction hw rule: induct_list012) (auto simp: String_simps hex2_def hex_digit_hex_char nibbles_less)

lemma String_code: "c \<in> set (HardwareAddr_String hw) \<Longrightarrow> 32 \<le> code_of c \<and> code_of c \<notin> {34, 38, 60, 62, 92} \<and> code_of c \<noteq> 125"
  using String_chars [of c hw] hex_digit_code [of c] by (auto simp: code_of_def)

lemma hardwareAddr_round_trip:
  assumes "mac_length (length hw)"
  shows "hardwareAddr_UnmarshalJSON (hardwareAddr_MarshalJSON hw) = Ok hw"
  using ParseMAC_String [OF assms] by (simp add: hardwareAddr_UnmarshalJSON_def hardwareAddr_MarshalJSON_def butlast_append)

lemma json_reads_hardwareAddr: "json_reads (hardwareAddr_MarshalJSON hw) (JStr (HardwareAddr_String hw))"
proof -
  have "\<forall>c \<in> set (HardwareAddr_String hw). json_char c = [c]" using String_code json_char_plain by blast
  from json_reads_quoted [OF this] show ?thesis by (simp add: quoted_def hardwareAddr_MarshalJSON_def)
qed

definition vxlan_members :: "vxlanLeaseAttrs \<Rightarrow> (string \<times> string \<times> json) list" where
  "vxlan_members a = [(''VNI'', nat_dec (vla_VNI a), JNum (nat_dec (vla_VNI a))),
     (''VtepMAC'', hardwareAddr_MarshalJSON (vla_VtepMAC a), JStr (HardwareAddr_String (vla_VtepMAC a)))]"

lemma json_reads_vxlan: "json_reads (vxlanLeaseAttrs_Marshal a) (JObj (vxlan_members a))"
proof -
  have "json_reads (json_object (map (\<lambda>(n, raw, v). (n, raw)) (vxlan_members a))) (JObj (vxlan_members a))"
    by (rule json_reads_object) (auto simp: vxlan_members_def json_reads_nat json_reads_hardwareAddr)
  then show ?thesis by (simp add: vxlanLeaseAttrs_Marshal_def vxlan_members_def)
qed

lemma vxlan_round_trip:
  assumes "mac_length (length (vla_VtepMAC a))" "vla_VNI a < 2 ^ 32"
  shows "vxlanLeaseAttrs_Unmarshal (Some (vxlanLeaseAttrs_Marshal a)) = Ok a"
proof -
  have "ParseUint 32 (nat_dec (vla_VNI a)) = Some (vla_VNI a)"
    using assms(2) ParseUint_nat_dec by simp
  then show ?thesis
    using json_parse_reads [OF json_reads_vxlan [of a]] hardwareAddr_round_trip [OF assms(1)]
    by (simp add: vxlanLeaseAttrs_Unmarshal_def json_Unmarshal_def vxlan_members_def field_of_def vxlan_attrs_set_def)
qed

definition compact_char :: "char \<Rightarrow> bool" where
  "compact_char c \<longleftrightarrow> \<not> html_char c \<and> \<not> json_ws c \<and> c \<noteq> chr_bslash"

lemma json_compact_plain: "list_all compact_char s \<Longrightarrow> json_compact inside s = s"
  by (induction s arbitrary: inside) (auto simp: compact_char_def)

lemma vxlan_text:
  "vxlanLeaseAttrs_Marshal a =
     ''{'' @ [chr_quote] @ ''VNI'' @ [chr_quote] @ '':'' @ nat_dec (vla_VNI a) @ '','' @ [chr_quote] @ ''VtepMAC'' @ [chr_quote] @ '':'' @
     [chr_quote] @ HardwareAddr_String (vla_VtepMAC a) @ [chr_quote] @ ''}''"
  by (simp add: vxlanLeaseAttrs_Marshal_def hardwareAddr_MarshalJSON_def json_object_def json_member_def json_quote_def JoinStr_def
      json_char_def html_char_def code_of_def)

lemma vxlan_raw_ok: "raw_ok (Some (vxlanLeaseAttrs_Marshal a))"
proof -
  have d: "compact_char c" if "is_digit c" for c
    using that by (auto simp: is_digit_def code_of_def html_char_def json_ws_def compact_char_def)
  have h: "compact_char c" if "c \<in> set (HardwareAddr_String hw)" for c hw
    using String_chars [OF that] hex_digit_code [of c] by (auto simp: code_of_def html_char_def json_ws_def compact_char_def)
  have "list_all compact_char (nat_dec (vla_VNI a))" "list_all compact_char (HardwareAddr_String (vla_VtepMAC a))"
    using d h nat_dec_digits by (auto simp: list_all_iff)
  moreover have "list_all compact_char ''{:,VNItepMAC}''" "compact_char chr_quote"
    by (simp_all add: compact_char_def html_char_def json_ws_def)
  ultimately have "list_all compact_char (vxlanLeaseAttrs_Marshal a)" by (simp add: vxlan_text)
  then show ?thesis using json_compact_plain json_reads_vxlan by (auto simp: raw_ok_def)
qed

lemma SplitStr_skip: "CHR '':'' \<notin> set s \<Longrightarrow> SplitStr acc (s @ rest) (CHR '':'' # sep) = SplitStr (rev s @ acc) rest (CHR '':'' # sep)"
  by (induction s arbitrary: acc) (auto simp: HasPrefix_def)

lemma SplitStr_last: "chr_quote \<notin> set s \<Longrightarrow> SplitStr acc s [CHR '':'', chr_quote] = [rev acc @ s]"
proof (induction s arbitrary: acc)
  case (Cons c s)
  then show ?case by (cases s) (auto simp: HasPrefix_def)
qed simp

lemma split_vxlan_text:
  assumes "vla_VtepMAC a \<noteq> []"
  shows "\<exists>x. Split (Trim (vxlanLeaseAttrs_Marshal a) [chr_quote, CHR ''}'']) [CHR '':'', chr_quote] = [x, HardwareAddr_String (vla_VtepMAC a)]"
proof -
  let ?h = "HardwareAddr_String (vla_VtepMAC a)"
  have "?h \<noteq> []" using length_String [OF assms] assms by (cases "vla_VtepMAC a") auto
  moreover have no: "c \<noteq> chr_quote \<and> c \<noteq> CHR ''}''" if "c \<in> set ?h" for c
    using String_code [OF that] by (auto simp: code_of_def)
  ultimately have "last ?h \<noteq> chr_quote \<and> last ?h \<noteq> CHR ''}''" by simp
  with \<open>?h \<noteq> []\<close> obtain h l where hl: "?h = h @ [l]" "l \<noteq> chr_quote" "l \<noteq> CHR ''}''" by (metis append_butlast_last_id)
  define p where "p = nat_dec (vla_VNI a)"
  obtain d ds where d: "p = d # ds" by (cases p) (auto simp: p_def)
  have digits: "is_digit c" if "c \<in> set p" for c using that nat_dec_digits by (simp add: p_def)
  have "is_digit d" using digits [of d] by (simp add: d)
  then have dq1: "d \<noteq> chr_quote" by (auto simp: is_digit_def code_of_def)
  have dq2: "CHR '':'' \<notin> set p" using digits [of "CHR '':''"] by (auto simp: is_digit_def code_of_def)
  have trim: "Trim (vxlanLeaseAttrs_Marshal a) [chr_quote, CHR ''}''] =
      ''{'' @ [chr_quote] @ ''VNI'' @ [chr_quote] @ '':'' @ p @ '','' @ [chr_quote] @ ''VtepMAC'' @ [chr_quote] @ '':'' @ [chr_quote] @ ?h"
    by (simp add: vxlan_text Trim_def hl p_def)
  have nq: "chr_quote \<notin> set ?h" using no by blast
  let ?sep = "[CHR '':'', chr_quote]" and ?k1 = "''{'' @ [chr_quote] @ ''VNI'' @ [chr_quote]"
    and ?k2 = "'','' @ [chr_quote] @ ''VtepMAC'' @ [chr_quote]"
  have "SplitStr [] (?k1 @ CHR '':'' # p @ ?k2 @ CHR '':'' # chr_quote # ?h) ?sep =
      SplitStr (rev ?k1) (CHR '':'' # p @ ?k2 @ CHR '':'' # chr_quote # ?h) ?sep"
    using SplitStr_skip [of ?k1 "[]"] by simp
  also have "\<dots> = SplitStr (CHR '':'' # rev ?k1) (p @ ?k2 @ CHR '':'' # chr_quote # ?h) ?sep"
    using dq1 by (subst SplitStr.simps(2)) (simp add: HasPrefix_def d)
  also have "\<dots> = SplitStr (rev ?k2 @ rev p @ CHR '':'' # rev ?k1) (CHR '':'' # chr_quote # ?h) ?sep"
    using dq2 SplitStr_skip [of "p @ ?k2"] by simp
  also have "\<dots> = [rev (rev ?k2 @ rev p @ CHR '':'' # rev ?k1), ?h]"
    by (subst SplitStr.simps(2)) (simp add: HasPrefix_def SplitStr_last [OF nq])
  finally have "Split (Trim (vxlanLeaseAttrs_Marshal a) [chr_quote, CHR ''}'']) ?sep = [rev (rev ?k2 @ rev p @ CHR '':'' # rev ?k1), ?h]"
    by (simp only: trim Split_def append_assoc append_Cons append_Nil)
  then show ?thesis by blast
qed

end
