(* ===== verification/Vxlan_Backend.thy ===== *)
theory Vxlan_Backend
  imports Hardware_Addr Route_Network
begin

text \<open>
  The VXLAN backend (\<open>pkg/backend/vxlan\<close>): the device and its neighbour entries (\<open>device.go\<close>), its
  configuration and registration (\<open>vxlan.go\<close>), and the network that keeps a route, an ARP entry
  and a forwarding entry per remote lease (\<open>vxlan_network.go\<close>). A nil device is \<open>None\<close>.
\<close>

section \<open>The device\<close>

record vxlanDeviceAttrs =
  vda_vni :: "32 word"
  vda_name :: string
  vda_MTU :: int
  vda_vtepIndex :: int
  vda_vtepAddr :: net_IP
  vda_vtepPort :: int
  vda_gbp :: bool
  vda_learning :: bool
  vda_hwAddr :: HardwareAddr

record vxlanDevice =
  vd_link :: Vxlan
  vd_directRouting :: bool

definition versus :: "string \<Rightarrow> string \<Rightarrow> string \<Rightarrow> string" where
  "versus what a b = what @ '': '' @ a @ '' vs '' @ b"

definition vxlans_incompat :: "Vxlan \<Rightarrow> Vxlan \<Rightarrow> string" where
  "vxlans_incompat v1 v2 =
     (if vx_VxlanId v1 \<noteq> vx_VxlanId v2 then versus ''vni'' (int_dec (vx_VxlanId v1)) (int_dec (vx_VxlanId v2))
      else if vx_VtepDevIndex v1 > 0 \<and> vx_VtepDevIndex v2 > 0 \<and> vx_VtepDevIndex v1 \<noteq> vx_VtepDevIndex v2 then
        versus ''vtep (external) interface'' (int_dec (vx_VtepDevIndex v1)) (int_dec (vx_VtepDevIndex v2))
      else if length (vx_SrcAddr v1) > 0 \<and> length (vx_SrcAddr v2) > 0 \<and> \<not> IP_Equal (vx_SrcAddr v1) (vx_SrcAddr v2) then
        versus ''vtep (external) IP'' (IP_String (vx_SrcAddr v1)) (IP_String (vx_SrcAddr v2))
      else if length (vx_Group v1) > 0 \<and> length (vx_Group v2) > 0 \<and> \<not> IP_Equal (vx_Group v1) (vx_Group v2) then
        versus ''group address'' (IP_String (vx_Group v1)) (IP_String (vx_Group v2))
      else if vx_L2miss v1 \<noteq> vx_L2miss v2 then versus ''l2miss'' (bool_str (vx_L2miss v1)) (bool_str (vx_L2miss v2))
      else if vx_Port v1 > 0 \<and> vx_Port v2 > 0 \<and> vx_Port v1 \<noteq> vx_Port v2 then
        versus ''port'' (int_dec (vx_Port v1)) (int_dec (vx_Port v2))
      else if vx_GBP v1 \<noteq> vx_GBP v2 then versus ''gbp'' (bool_str (vx_GBP v1)) (bool_str (vx_GBP v2))
      else [])"

text \<open>Both links are asserted to be VXLAN links once their types agree.\<close>

definition vxlanLinksIncompat :: "Link \<Rightarrow> Link \<Rightarrow> string go" where
  "vxlanLinksIncompat l1 l2 =
     (if Link_Type l1 \<noteq> Link_Type l2 then Ok (versus ''link type'' (Link_Type l1) (Link_Type l2))
      else (case (l1, l2) of
              (VxlanLink v1, VxlanLink v2) \<Rightarrow> Ok (vxlans_incompat v1 v2)
            | _ \<Rightarrow> Panic (ExplicitPanic ''interface conversion'')))"

definition created_link :: "'w netlink \<Rightarrow> Link \<Rightarrow> ('w, Vxlan) io" where
  "created_link nl vxlan =
     io_try (nl_LinkByIndex nl (lk_Index (Link_Attrs vxlan)))
       (\<lambda>link. case link of
                 VxlanLink v \<Rightarrow> io_ret v
               | _ \<Rightarrow> io_err (ErrorString (''created vxlan device with index '' @ int_dec (lk_Index (Link_Attrs vxlan)) @ '' is not vxlan'')))
       (\<lambda>_. io_err (ErrorString (''can't locate created vxlan device with index '' @ int_dec (lk_Index (Link_Attrs vxlan)))))"

definition existing_link :: "'w netlink \<Rightarrow> Link \<Rightarrow> ('w, Vxlan) io" where
  "existing_link nl vxlan =
     io_bind (nl_LinkByName nl (lk_Name (Link_Attrs vxlan))) (\<lambda>existing.
     io_bind (io_of (vxlanLinksIncompat vxlan existing)) (\<lambda>incompat.
       if incompat = [] then
         (case existing of VxlanLink v \<Rightarrow> io_ret v | _ \<Rightarrow> io_of (Panic (ExplicitPanic ''interface conversion'')))
       else
         io_try (nl_LinkDel nl existing)
           (\<lambda>_. io_try (nl_LinkAdd nl vxlan) (created_link nl) (\<lambda>e. io_err (Wrapped ''failed to create vxlan interface'' e)))
           (\<lambda>e. io_err (Wrapped ''failed to delete interface'' e))))"

definition ensureLink :: "'w netlink \<Rightarrow> Vxlan \<Rightarrow> ('w, Vxlan) io" where
  "ensureLink nl vxlan =
     io_try (nl_LinkAdd nl (VxlanLink vxlan)) (created_link nl)
       (\<lambda>e. if e = EEXIST then existing_link nl (VxlanLink vxlan) else io_err e)"

definition newVXLANDevice :: "'w netlink \<Rightarrow> vxlanDeviceAttrs \<Rightarrow> ('w, vxlanDevice) io" where
  "newVXLANDevice nl devAttrs =
     io_bind (if vda_hwAddr devAttrs = [] then NewHardwareAddr nl else io_ret (vda_hwAddr devAttrs)) (\<lambda>hardwareAddr.
     io_bind (ensureLink nl
        \<lparr>vx_Attrs = \<lparr>lk_Index = 0, lk_MTU = vda_MTU devAttrs - 50, lk_Name = vda_name devAttrs, lk_HardwareAddr = hardwareAddr\<rparr>,
         vx_VxlanId = uint (vda_vni devAttrs), vx_VtepDevIndex = vda_vtepIndex devAttrs, vx_SrcAddr = vda_vtepAddr devAttrs,
         vx_Group = [], vx_Port = vda_vtepPort devAttrs, vx_Learning = vda_learning devAttrs, vx_L2miss = False,
         vx_GBP = vda_gbp devAttrs\<rparr>) (\<lambda>link.
     io_bind (io_logged (nl_Sysctl nl (''net/ipv6/conf/'' @ vda_name devAttrs @ ''/accept_ra'') ''0'')) (\<lambda>_.
       io_ret \<lparr>vd_link = link, vd_directRouting = False\<rparr>)))"

definition MACAddr :: "vxlanDevice \<Rightarrow> HardwareAddr" where
  "MACAddr dev = lk_HardwareAddr (vx_Attrs (vd_link dev))"

definition check_mac :: "'w netlink \<Rightarrow> string \<Rightarrow> vxlanDevice \<Rightarrow> ('w, unit) io" where
  "check_mac nl wanted dev =
     io_try (nl_LinkByName nl (lk_Name (vx_Attrs (vd_link dev))))
       (\<lambda>nLink. case nLink of
                  VxlanLink v \<Rightarrow>
                    if HardwareAddr_String (lk_HardwareAddr (vx_Attrs v)) \<noteq> HardwareAddr_String (MACAddr dev) then
                      io_err (ErrorString (lk_Name (vx_Attrs (vd_link dev)) @ wanted @
                        HardwareAddr_String (MACAddr dev) @ '', but got: '' @ HardwareAddr_String (lk_HardwareAddr (vx_Attrs v))))
                    else io_ret ()
                | _ \<Rightarrow> io_ret ())
       (\<lambda>_. io_ret ())"

definition dev_Configure :: "'w netlink \<Rightarrow> vxlanDevice \<Rightarrow> IP4Net \<Rightarrow> IP4Net \<Rightarrow> ('w, unit) io" where
  "dev_Configure nl dev ipa flannelnet =
     io_try (EnsureV4AddressOnLink nl ipa flannelnet (vx_Attrs (vd_link dev)))
       (\<lambda>_. io_try (nl_LinkSetUp nl (VxlanLink (vd_link dev))) (\<lambda>_. check_mac nl '''s mac address wanted: '' dev)
              (\<lambda>e. io_err (Wrapped ''failed to set interface to UP state'' e)))
       (\<lambda>e. io_err (Wrapped ''failed to ensure address of interface'' e))"

definition dev_ConfigureIPv6 :: "'w netlink \<Rightarrow> vxlanDevice \<Rightarrow> IP6Net \<Rightarrow> IP6Net \<Rightarrow> ('w, unit) io" where
  "dev_ConfigureIPv6 nl dev ipn flannelnet =
     io_try (EnsureV6AddressOnLink nl ipn flannelnet (vx_Attrs (vd_link dev)))
       (\<lambda>_. io_try (nl_LinkSetUp nl (VxlanLink (vd_link dev))) (\<lambda>_. check_mac nl '''s v6 mac address wanted: '' dev)
              (\<lambda>e. io_err (Wrapped ''failed to set v6 interface to UP state'' e)))
       (\<lambda>e. io_err (Wrapped ''failed to ensure v6 address of interface'' e))"

section \<open>Neighbour entries\<close>

definition fdb_entry :: "vxlanDevice \<Rightarrow> int \<Rightarrow> net_IP \<Rightarrow> HardwareAddr \<Rightarrow> Neigh" where
  "fdb_entry dev state ip mac =
     \<lparr>ng_LinkIndex = lk_Index (vx_Attrs (vd_link dev)), ng_Family = AF_BRIDGE, ng_State = state, ng_Type = 0,
      ng_Flags = NTF_SELF, ng_IP = ip, ng_HardwareAddr = mac\<rparr>"

definition arp_entry :: "vxlanDevice \<Rightarrow> net_IP \<Rightarrow> HardwareAddr \<Rightarrow> Neigh" where
  "arp_entry dev ip mac =
     \<lparr>ng_LinkIndex = lk_Index (vx_Attrs (vd_link dev)), ng_Family = 0, ng_State = NUD_PERMANENT, ng_Type = RTN_UNICAST,
      ng_Flags = 0, ng_IP = ip, ng_HardwareAddr = mac\<rparr>"

definition AddFDB :: "'w netlink \<Rightarrow> vxlanDevice option \<Rightarrow> IP4 \<Rightarrow> HardwareAddr \<Rightarrow> ('w, unit) io" where
  "AddFDB nl d ip mac = io_bind (io_of (deref d)) (\<lambda>dev. nl_NeighSet nl (fdb_entry dev NUD_PERMANENT (IP4_ToIP ip) mac))"

definition DelFDB :: "'w netlink \<Rightarrow> vxlanDevice option \<Rightarrow> IP4 \<Rightarrow> HardwareAddr \<Rightarrow> ('w, unit) io" where
  "DelFDB nl d ip mac = io_bind (io_of (deref d)) (\<lambda>dev. nl_NeighDel nl (fdb_entry dev 0 (IP4_ToIP ip) mac))"

definition AddARP :: "'w netlink \<Rightarrow> vxlanDevice option \<Rightarrow> IP4 \<Rightarrow> HardwareAddr \<Rightarrow> ('w, unit) io" where
  "AddARP nl d ip mac = io_bind (io_of (deref d)) (\<lambda>dev. nl_NeighSet nl (arp_entry dev (IP4_ToIP ip) mac))"

definition DelARP :: "'w netlink \<Rightarrow> vxlanDevice option \<Rightarrow> IP4 \<Rightarrow> HardwareAddr \<Rightarrow> ('w, unit) io" where
  "DelARP nl d ip mac = io_bind (io_of (deref d)) (\<lambda>dev. nl_NeighDel nl (arp_entry dev (IP4_ToIP ip) mac))"

definition ptr_ToIP :: "IP6ptr \<Rightarrow> net_IP go" where
  "ptr_ToIP p = go_bind (deref p) IP6_ToIP"

definition AddV6FDB :: "'w netlink \<Rightarrow> vxlanDevice option \<Rightarrow> IP6ptr \<Rightarrow> HardwareAddr \<Rightarrow> ('w, unit) io" where
  "AddV6FDB nl d p mac = io_bind (io_of (deref d)) (\<lambda>dev. io_bind (io_of (ptr_ToIP p)) (\<lambda>ip.
     nl_NeighSet nl (fdb_entry dev NUD_PERMANENT ip mac)))"

definition DelV6FDB :: "'w netlink \<Rightarrow> vxlanDevice option \<Rightarrow> IP6ptr \<Rightarrow> HardwareAddr \<Rightarrow> ('w, unit) io" where
  "DelV6FDB nl d p mac = io_bind (io_of (deref d)) (\<lambda>dev. io_bind (io_of (ptr_ToIP p)) (\<lambda>ip.
     nl_NeighDel nl (fdb_entry dev 0 ip mac)))"

definition AddV6ARP :: "'w netlink \<Rightarrow> vxlanDevice option \<Rightarrow> IP6ptr \<Rightarrow> HardwareAddr \<Rightarrow> ('w, unit) io" where
  "AddV6ARP nl d p mac = io_bind (io_of (deref d)) (\<lambda>dev. io_bind (io_of (ptr_ToIP p)) (\<lambda>ip.
     nl_NeighSet nl (arp_entry dev ip mac)))"

definition DelV6ARP :: "'w netlink \<Rightarrow> vxlanDevice option \<Rightarrow> IP6ptr \<Rightarrow> HardwareAddr \<Rightarrow> ('w, unit) io" where
  "DelV6ARP nl d p mac = io_bind (io_of (deref d)) (\<lambda>dev. io_bind (io_of (ptr_ToIP p)) (\<lambda>ip.
     nl_NeighDel nl (arp_entry dev ip mac)))"

lemmas [go_eval] =
  versus_def vxlans_incompat_def vxlanLinksIncompat_def created_link_def existing_link_def ensureLink_def newVXLANDevice_def
  MACAddr_def check_mac_def dev_Configure_def dev_ConfigureIPv6_def fdb_entry_def arp_entry_def AddFDB_def DelFDB_def
  AddARP_def DelARP_def ptr_ToIP_def AddV6FDB_def DelV6FDB_def AddV6ARP_def DelV6ARP_def

section \<open>Configuration and registration\<close>

record VXLANConfig =
  vc_VNI :: int
  vc_Port :: int
  vc_MTU :: int
  vc_GBP :: bool
  vc_Learning :: bool
  vc_DirectRouting :: bool

definition vxlan_config_set :: "string \<Rightarrow> string \<Rightarrow> json \<Rightarrow> VXLANConfig \<Rightarrow> VXLANConfig go" where
  "vxlan_config_set f raw v c =
     (if f = ''vni'' then go_bind (dec_int 64 (vc_VNI c) v) (\<lambda>n. Ok (c\<lparr>vc_VNI := n\<rparr>))
      else if f = ''port'' then go_bind (dec_int 64 (vc_Port c) v) (\<lambda>n. Ok (c\<lparr>vc_Port := n\<rparr>))
      else if f = ''mtu'' then go_bind (dec_int 64 (vc_MTU c) v) (\<lambda>n. Ok (c\<lparr>vc_MTU := n\<rparr>))
      else if f = ''gbp'' then go_bind (dec_bool (vc_GBP c) v) (\<lambda>b. Ok (c\<lparr>vc_GBP := b\<rparr>))
      else if f = ''learning'' then go_bind (dec_bool (vc_Learning c) v) (\<lambda>b. Ok (c\<lparr>vc_Learning := b\<rparr>))
      else go_bind (dec_bool (vc_DirectRouting c) v) (\<lambda>b. Ok (c\<lparr>vc_DirectRouting := b\<rparr>)))"

definition vxlan_config_fields :: "string list" where
  "vxlan_config_fields = [''vni'', ''port'', ''mtu'', ''gbp'', ''learning'', ''directRouting'']"

definition parseVXLANConfig :: "string \<Rightarrow> int \<Rightarrow> VXLANConfig go" where
  "parseVXLANConfig config defaultMTU =
     (let cfg = \<lparr>vc_VNI = 1, vc_Port = 0, vc_MTU = defaultMTU, vc_GBP = False, vc_Learning = False, vc_DirectRouting = False\<rparr> in
      if length config > 0 then json_Unmarshal vxlan_config_fields vxlan_config_set config cfg else Ok cfg)"

definition newSubnetAttrs ::
  "net_IP \<Rightarrow> net_IP \<Rightarrow> 32 word \<Rightarrow> vxlanDevice option \<Rightarrow> vxlanDevice option \<Rightarrow> LeaseAttrs go" where
  "newSubnetAttrs publicIP publicIPv6 vnid dev v6Dev =
     go_bind
       (case dev of
          Some d \<Rightarrow>
            if publicIP \<noteq> [] then
              go_bind (FromIP publicIP) (\<lambda>ip.
                Ok (empty_attrs\<lparr>la_BackendType := ''vxlan'', la_PublicIP := ip,
                      la_BackendData := Some (vxlanLeaseAttrs_Marshal \<lparr>vla_VNI = unat vnid, vla_VtepMAC = MACAddr d\<rparr>)\<rparr>))
            else Ok (empty_attrs\<lparr>la_BackendType := ''vxlan''\<rparr>)
        | None \<Rightarrow> Ok (empty_attrs\<lparr>la_BackendType := ''vxlan''\<rparr>)) (\<lambda>attrs.
     case v6Dev of
       Some d \<Rightarrow>
         if publicIPv6 \<noteq> [] then
           go_bind (FromIP6 publicIPv6) (\<lambda>ip.
             Ok (attrs\<lparr>la_PublicIPv6 := Some ip,
                   la_BackendV6Data := Some (vxlanLeaseAttrs_Marshal \<lparr>vla_VNI = unat vnid, vla_VtepMAC = MACAddr d\<rparr>)\<rparr>))
         else Ok attrs
     | None \<Rightarrow> Ok attrs)"

text \<open>A stored address that cannot be parsed is logged; a new one is then generated.\<close>

definition stored_hwAddr :: "string \<Rightarrow> HardwareAddr" where
  "stored_hwAddr macStr =
     (if macStr = [] then [] else case ParseMAC macStr of Ok hw \<Rightarrow> hw | _ \<Rightarrow> [])"

definition create_device ::
  "'w netlink \<Rightarrow> VXLANConfig \<Rightarrow> string \<Rightarrow> int \<Rightarrow> net_IP \<Rightarrow> HardwareAddr \<Rightarrow> ('w, vxlanDevice option) io" where
  "create_device nl cfg name extIfaceID addr hw =
     io_bind (newVXLANDevice nl
       \<lparr>vda_vni = word_of_int (vc_VNI cfg), vda_name = name @ int_dec (vc_VNI cfg), vda_MTU = vc_MTU cfg, vda_vtepIndex = extIfaceID,
        vda_vtepAddr = addr, vda_vtepPort = vc_Port cfg, vda_gbp = vc_GBP cfg, vda_learning = vc_Learning cfg, vda_hwAddr = hw\<rparr>)
       (\<lambda>dev. io_ret (Some (dev\<lparr>vd_directRouting := vc_DirectRouting cfg\<rparr>)))"

definition createVXLANDevice ::
  "'w netlink \<Rightarrow> 'w subnet_manager \<Rightarrow> Config \<Rightarrow> VXLANConfig \<Rightarrow> int \<Rightarrow> net_IP \<Rightarrow> net_IP \<Rightarrow>
   ('w, vxlanDevice option \<times> vxlanDevice option) io" where
  "createVXLANDevice nl sm config cfg extIfaceID extIfaceIP extIfaceV6IP =
     io_bind (sm_GetStoredMacAddresses sm) (\<lambda>(macStr, macStrv6).
     io_bind (if cfg_EnableIPv4 config then create_device nl cfg ''flannel.'' extIfaceID extIfaceIP (stored_hwAddr macStr)
              else io_ret None) (\<lambda>dev.
     io_bind (if cfg_EnableIPv6 config then create_device nl cfg ''flannel-v6.'' extIfaceID extIfaceV6IP (stored_hwAddr macStrv6)
              else io_ret None) (\<lambda>v6Dev.
       io_ret (dev, v6Dev))))"

definition configure_v4 :: "'w netlink \<Rightarrow> vxlanDevice option \<Rightarrow> Lease \<Rightarrow> Config \<Rightarrow> ('w, unit) io" where
  "configure_v4 nl dev l config =
     io_bind (io_of (deref dev)) (\<lambda>d.
       if IP4Net_Empty (lease_Subnet l) then
         io_err (ErrorString (''failed to configure interface '' @ lk_Name (vx_Attrs (vd_link d)) @ '': IPv4 is enabled but the lease has no IPv4''))
       else
         io_try (dev_Configure nl d \<lparr>ip4_IP = ip4_IP (lease_Subnet l), ip4_PrefixLen = 32\<rparr> (cfg_Network config)) io_ret
           (\<lambda>e. io_err (Wrapped (''failed to configure interface '' @ lk_Name (vx_Attrs (vd_link d))) e)))"

definition configure_v6 :: "'w netlink \<Rightarrow> vxlanDevice option \<Rightarrow> Lease \<Rightarrow> Config \<Rightarrow> ('w, unit) io" where
  "configure_v6 nl dev l config =
     io_bind (io_of (deref dev)) (\<lambda>d.
       if IP6Net_Empty (lease_IPv6Subnet l) then
         io_err (ErrorString (''failed to configure interface '' @ lk_Name (vx_Attrs (vd_link d)) @ '': IPv6 is enabled but the lease has no IPv6''))
       else
         io_try (dev_ConfigureIPv6 nl d \<lparr>ip6_IP = ip6_IP (lease_IPv6Subnet l), ip6_PrefixLen = 128\<rparr> (cfg_IPv6Network config)) io_ret
           (\<lambda>e. io_err (Wrapped (''failed to configure interface '' @ lk_Name (vx_Attrs (vd_link d))) e)))"

definition configureDeviceIPv4IPv6 ::
  "'w netlink \<Rightarrow> vxlanDevice option \<Rightarrow> vxlanDevice option \<Rightarrow> Lease \<Rightarrow> Config \<Rightarrow> ('w, unit) io" where
  "configureDeviceIPv4IPv6 nl dev v6Dev l config =
     io_bind (if cfg_EnableIPv4 config then configure_v4 nl dev l config else io_ret ()) (\<lambda>_.
       if cfg_EnableIPv6 config then configure_v6 nl v6Dev l config else io_ret ())"

record vxlan_network =
  vn_SubnetLease :: Lease
  vn_ExtIface :: ExternalInterface
  vn_dev :: "vxlanDevice option"
  vn_v6Dev :: "vxlanDevice option"
  vn_mtu :: int

definition newNetwork ::
  "ExternalInterface \<Rightarrow> vxlanDevice option \<Rightarrow> vxlanDevice option \<Rightarrow> Lease \<Rightarrow> int \<Rightarrow> vxlan_network" where
  "newNetwork extIface dev v6Dev l mtu =
     \<lparr>vn_SubnetLease = l, vn_ExtIface = extIface, vn_dev = dev, vn_v6Dev = v6Dev, vn_mtu = mtu\<rparr>"

definition vn_MTU :: "vxlan_network \<Rightarrow> int" where
  "vn_MTU nw = vn_mtu nw - 50"

definition vxlan_RegisterNetwork ::
  "'w netlink \<Rightarrow> 'w subnet_manager \<Rightarrow> ExternalInterface \<Rightarrow> Config \<Rightarrow> ('w, vxlan_network) io" where
  "vxlan_RegisterNetwork nl sm ei config =
     io_try (io_of (parseVXLANConfig (cfg_Backend config) (if_MTU (ei_Iface ei))))
       (\<lambda>cfg. io_try (createVXLANDevice nl sm config cfg (if_Index (ei_Iface ei)) (ei_ExtAddr ei) (ei_ExtV6Addr ei))
         (\<lambda>(dev, v6Dev).
            io_bind (io_of (newSubnetAttrs (ei_ExtAddr ei) (ei_ExtV6Addr ei) (word_of_int (vc_VNI cfg)) dev v6Dev)) (\<lambda>attrs.
            io_bind (acquire_or_fail sm attrs) (\<lambda>l.
            io_bind (configureDeviceIPv4IPv6 nl dev v6Dev l config) (\<lambda>_.
              io_ret (newNetwork ei dev v6Dev l (vc_MTU cfg))))))
         (\<lambda>e. io_err (Wrapped ''failed to create vxlan device'' e)))
       (\<lambda>e. io_err (Wrapped ''error decoding VXLAN backend config'' e))"

lemmas [go_eval] =
  vxlan_config_set_def vxlan_config_fields_def parseVXLANConfig_def newSubnetAttrs_def stored_hwAddr_def create_device_def
  createVXLANDevice_def configure_v4_def configure_v6_def configureDeviceIPv4IPv6_def newNetwork_def vn_MTU_def
  vxlan_RegisterNetwork_def

end
