(* ===== verification/Vxlan_Network.thy ===== *)
theory Vxlan_Network
  imports Vxlan_Backend
begin

text \<open>
  The network of the VXLAN backend (\<open>pkg/backend/vxlan/vxlan_network.go\<close>): handling the events of the
  lease watch, and recreating the device when it disappears. A branch of \<open>handleSubnetEvents\<close> that
  ends in \<open>continue\<close> returns \<open>False\<close>.
\<close>

section \<open>Events\<close>

record vx_plan =
  vp_mac :: HardwareAddr
  vp_direct :: bool
  vp_directRoute :: Route
  vp_vxlanRoute :: Route

definition no_plan :: vx_plan where
  "no_plan = \<lparr>vp_mac = [], vp_direct = False, vp_directRoute = no_route, vp_vxlanRoute = no_route\<rparr>"

definition routes_directly :: "'w netlink \<Rightarrow> vxlanDevice \<Rightarrow> net_IP \<Rightarrow> ('w, bool) io" where
  "routes_directly nl dev ip =
     (if vd_directRouting dev then io_try (DirectRouting nl ip) io_ret (\<lambda>_. io_ret False) else io_ret False)"

definition onlink_route :: "vxlanDevice \<Rightarrow> IPNet \<Rightarrow> net_IP \<Rightarrow> Route" where
  "onlink_route dev dst gw =
     no_route\<lparr>rt_LinkIndex := lk_Index (vx_Attrs (vd_link dev)), rt_Dst := Some dst, rt_Gw := gw, rt_Flags := FLAG_ONLINK\<rparr>"

definition plan4 :: "'w netlink \<Rightarrow> vxlan_network \<Rightarrow> Lease \<Rightarrow> ('w, vx_plan option) io" where
  "plan4 nl nw l =
     (case vn_dev nw of
        Some dev \<Rightarrow>
          if lease_EnableIPv4 l then
            io_try (io_of (vxlanLeaseAttrs_Unmarshal (la_BackendData (lease_Attrs l))))
              (\<lambda>va. let dst = IP4Net_ToIPNet (lease_Subnet l); pub = IP4_ToIP (la_PublicIP (lease_Attrs l)) in
                 io_bind (routes_directly nl dev pub) (\<lambda>dr.
                   io_ret (Some \<lparr>vp_mac = vla_VtepMAC va, vp_direct = dr,
                     vp_directRoute = no_route\<lparr>rt_Dst := Some dst, rt_Gw := pub\<rparr>,
                     vp_vxlanRoute = onlink_route dev dst (IP4_ToIP (ip4_IP (lease_Subnet l)))\<rparr>)))
              (\<lambda>_. io_ret None)
          else io_ret (Some no_plan)
      | None \<Rightarrow> io_ret (Some no_plan))"

definition plan6_routes :: "'w netlink \<Rightarrow> vxlanDevice \<Rightarrow> Lease \<Rightarrow> HardwareAddr \<Rightarrow> ('w, vx_plan option) io" where
  "plan6_routes nl dev l mac =
     io_bind (io_of (IP6Net_ToIPNet (lease_IPv6Subnet l))) (\<lambda>dst.
     io_bind (io_of (ptr_ToIP (ip6_IP (lease_IPv6Subnet l)))) (\<lambda>gw.
     io_bind (io_of (ptr_ToIP (la_PublicIPv6 (lease_Attrs l)))) (\<lambda>pub.
     io_bind (routes_directly nl dev pub) (\<lambda>dr.
       io_ret (Some \<lparr>vp_mac = mac, vp_direct = dr, vp_directRoute = no_route\<lparr>rt_Dst := Some dst, rt_Gw := pub\<rparr>,
         vp_vxlanRoute = onlink_route dev dst gw\<rparr>)))))"

definition plan6 :: "'w netlink \<Rightarrow> vxlan_network \<Rightarrow> Lease \<Rightarrow> ('w, vx_plan option) io" where
  "plan6 nl nw l =
     (case vn_v6Dev nw of
        Some dev \<Rightarrow>
          if lease_EnableIPv6 l then
            io_try (io_of (vxlanLeaseAttrs_Unmarshal (la_BackendV6Data (lease_Attrs l))))
              (\<lambda>va. if ip6_IP (lease_IPv6Subnet l) \<noteq> None then plan6_routes nl dev l (vla_VtepMAC va)
                    else io_ret (Some (no_plan\<lparr>vp_mac := vla_VtepMAC va\<rparr>)))
              (\<lambda>_. io_ret None)
          else io_ret (Some no_plan)
      | None \<Rightarrow> io_ret (Some no_plan))"

definition failed :: "('w, unit) io \<Rightarrow> ('w, bool) io" where
  "failed m = io_bind m (\<lambda>_. io_ret False)"

definition added4 :: "'w netlink \<Rightarrow> vxlanDevice option \<Rightarrow> Lease \<Rightarrow> vx_plan \<Rightarrow> ('w, bool) io" where
  "added4 nl d l p =
     (let sn = ip4_IP (lease_Subnet l); pub = la_PublicIP (lease_Attrs l); mac = vp_mac p in
      if vp_direct p then
        io_try (nl_retry nl (nl_RouteReplace nl (vp_directRoute p))) (\<lambda>_. io_ret True) (\<lambda>_. io_ret False)
      else
        io_try (nl_retry nl (AddARP nl d sn mac))
          (\<lambda>_. io_try (nl_retry nl (AddFDB nl d pub mac))
             (\<lambda>_. io_try (nl_retry nl (nl_RouteReplace nl (vp_vxlanRoute p))) (\<lambda>_. io_ret True)
                (\<lambda>_. failed (io_bind (io_logged (DelARP nl d sn mac)) (\<lambda>_. io_logged (DelFDB nl d pub mac)))))
             (\<lambda>_. failed (io_logged (nl_retry nl (DelARP nl d sn mac)))))
          (\<lambda>_. io_ret False))"

definition added6 :: "'w netlink \<Rightarrow> vxlanDevice option \<Rightarrow> Lease \<Rightarrow> vx_plan \<Rightarrow> ('w, bool) io" where
  "added6 nl d l p =
     (let sn = ip6_IP (lease_IPv6Subnet l); pub = la_PublicIPv6 (lease_Attrs l); mac = vp_mac p in
      if vp_direct p then
        io_try (nl_retry nl (nl_RouteReplace nl (vp_directRoute p))) (\<lambda>_. io_ret True) (\<lambda>_. io_ret False)
      else
        io_try (nl_retry nl (AddV6ARP nl d sn mac))
          (\<lambda>_. io_try (nl_retry nl (AddV6FDB nl d pub mac))
             (\<lambda>_. io_try (nl_retry nl (nl_RouteReplace nl (vp_vxlanRoute p))) (\<lambda>_. io_ret True)
                (\<lambda>_. failed (io_bind (io_logged (nl_retry nl (DelV6ARP nl d sn mac)))
                               (\<lambda>_. io_logged (nl_retry nl (DelV6FDB nl d pub mac))))))
             (\<lambda>_. failed (io_logged (DelV6ARP nl d sn mac))))
          (\<lambda>_. io_ret False))"

definition removed4 :: "'w netlink \<Rightarrow> vxlanDevice option \<Rightarrow> Lease \<Rightarrow> vx_plan \<Rightarrow> ('w, unit) io" where
  "removed4 nl d l p =
     (let sn = ip4_IP (lease_Subnet l); pub = la_PublicIP (lease_Attrs l); mac = vp_mac p in
      if vp_direct p then io_logged (nl_retry nl (nl_RouteDel nl (vp_directRoute p)))
      else
        io_bind (io_logged (nl_retry nl (DelARP nl d sn mac))) (\<lambda>_.
        io_bind (io_logged (nl_retry nl (DelFDB nl d pub mac))) (\<lambda>_.
          io_logged (nl_retry nl (nl_RouteDel nl (vp_vxlanRoute p))))))"

definition removed6 :: "'w netlink \<Rightarrow> vxlanDevice option \<Rightarrow> Lease \<Rightarrow> vx_plan \<Rightarrow> ('w, unit) io" where
  "removed6 nl d l p =
     (let sn = ip6_IP (lease_IPv6Subnet l); pub = la_PublicIPv6 (lease_Attrs l); mac = vp_mac p in
      if vp_direct p then io_logged (nl_retry nl (nl_RouteDel nl (vp_directRoute p)))
      else
        io_bind (io_logged (nl_retry nl (DelV6ARP nl d sn mac))) (\<lambda>_.
        io_bind (io_logged (nl_retry nl (DelV6FDB nl d pub mac))) (\<lambda>_.
          io_logged (nl_retry nl (nl_RouteDel nl (vp_vxlanRoute p))))))"

definition apply_plans :: "'w netlink \<Rightarrow> vxlan_network \<Rightarrow> Event \<Rightarrow> vx_plan \<Rightarrow> vx_plan \<Rightarrow> ('w, unit) io" where
  "apply_plans nl nw e p p6 =
     (let l = ev_Lease e in
      case ev_Type e of
        EventAdded \<Rightarrow>
          io_bind (if lease_EnableIPv4 l then added4 nl (vn_dev nw) l p else io_ret True) (\<lambda>go_on.
            if go_on \<and> lease_EnableIPv6 l then io_bind (added6 nl (vn_v6Dev nw) l p6) (\<lambda>_. io_ret ()) else io_ret ())
      | EventRemoved \<Rightarrow>
          io_bind (if lease_EnableIPv4 l then removed4 nl (vn_dev nw) l p else io_ret ()) (\<lambda>_.
            if lease_EnableIPv6 l then removed6 nl (vn_v6Dev nw) l p6 else io_ret ()))"

definition vxlan_event :: "'w netlink \<Rightarrow> vxlan_network \<Rightarrow> Event \<Rightarrow> unit \<Rightarrow> ('w, unit) io" where
  "vxlan_event nl nw e u =
     io_bind (io_of (LeaseAttrs_String (lease_Attrs (ev_Lease e)))) (\<lambda>_.
       if la_BackendType (lease_Attrs (ev_Lease e)) \<noteq> ''vxlan'' then io_ret ()
       else
         io_bind (plan4 nl nw (ev_Lease e)) (\<lambda>p.
           case p of
             None \<Rightarrow> io_ret ()
           | Some p4 \<Rightarrow>
               io_bind (plan6 nl nw (ev_Lease e)) (\<lambda>q.
                 case q of None \<Rightarrow> io_ret () | Some p6 \<Rightarrow> apply_plans nl nw e p4 p6)))"

definition vn_handleSubnetEvents :: "'w netlink \<Rightarrow> vxlan_network \<Rightarrow> Event list \<Rightarrow> ('w, unit) io" where
  "vn_handleSubnetEvents nl nw batch = io_fold (vxlan_event nl nw) batch ()"

section \<open>Recreating the device\<close>

definition minDuration :: "int \<Rightarrow> int \<Rightarrow> int" where
  "minDuration a b = (if a < b then a else b)"

definition first_addr :: "('w, net_IP list) io \<Rightarrow> ('w, net_IP option) io" where
  "first_addr m = io_try m (\<lambda>addrs. io_ret (case addrs of [] \<Rightarrow> None | a # _ \<Rightarrow> Some a)) (\<lambda>_. io_ret None)"

definition recreate_device ::
  "'w netlink \<Rightarrow> 'w subnet_manager \<Rightarrow> vxlan_network \<Rightarrow> Interface \<Rightarrow> Config \<Rightarrow> VXLANConfig \<Rightarrow> net_IP \<Rightarrow> net_IP \<Rightarrow>
   ('w, vxlan_network option) io" where
  "recreate_device nl sm nw extIface config cfg a a6 =
     io_try (createVXLANDevice nl sm config cfg (if_Index extIface) a a6)
       (\<lambda>(dev, v6Dev).
          io_try (configureDeviceIPv4IPv6 nl dev v6Dev (vn_SubnetLease nw) config)
            (\<lambda>_. io_bind (io_of (deref dev)) (\<lambda>d.
               io_ret (Some (nw\<lparr>vn_dev := dev, vn_v6Dev := v6Dev, vn_mtu := lk_MTU (vx_Attrs (vd_link d))\<rparr>))))
            (\<lambda>_. io_ret None))
       (\<lambda>_. io_ret None)"

text \<open>One round of the loop; \<open>None\<close> is a failed round, after which it sleeps and tries again.\<close>

definition recreate_attempt ::
  "'w netlink \<Rightarrow> 'w subnet_manager \<Rightarrow> vxlan_network \<Rightarrow> ('w, vxlan_network option) io" where
  "recreate_attempt nl sm nw =
     io_try (nl_InterfaceByName nl (ei_IfaceName (vn_ExtIface nw)))
       (\<lambda>extIface. io_try (sm_GetNetworkConfig sm)
          (\<lambda>config. io_try (io_of (parseVXLANConfig (cfg_Backend config) (if_MTU extIface)))
             (\<lambda>cfg.
                io_bind (if cfg_EnableIPv4 config then first_addr (GetInterfaceIP4Addrs nl extIface) else io_ret (Some [])) (\<lambda>a.
                case a of
                  None \<Rightarrow> io_ret None
                | Some ifaceAddr \<Rightarrow>
                    io_bind (if cfg_EnableIPv6 config then first_addr (GetInterfaceIP6Addrs nl extIface) else io_ret (Some [])) (\<lambda>a6.
                    case a6 of
                      None \<Rightarrow> io_ret None
                    | Some ifaceAddrV6 \<Rightarrow> recreate_device nl sm nw extIface config cfg ifaceAddr ifaceAddrV6)))
             (\<lambda>_. io_ret None))
          (\<lambda>_. io_ret None))
       (\<lambda>_. io_ret None)"

text \<open>
  The loop, over what the context reports at each round; when the list is used up the loop is
  still running. \<open>sleep\<close> is \<open>time.Sleep\<close>.
\<close>

fun reCreateVxlan ::
  "(int \<Rightarrow> ('w, unit) io) \<Rightarrow> 'w netlink \<Rightarrow> 'w subnet_manager \<Rightarrow> vxlan_network \<Rightarrow> int \<Rightarrow> bool list \<Rightarrow> ('w, vxlan_network) io" where
  "reCreateVxlan sleep nl sm nw backoff [] = (\<lambda>w. None)"
| "reCreateVxlan sleep nl sm nw backoff (cancelled # rest) =
     (if cancelled then io_err (ErrorString ''context canceled, stopping vxlan recreate'')
      else io_bind (recreate_attempt nl sm nw) (\<lambda>r.
        case r of
          Some nw' \<Rightarrow> io_ret nw'
        | None \<Rightarrow> io_bind (sleep backoff) (\<lambda>_.
            reCreateVxlan sleep nl sm nw (minDuration (backoff * 2) (30 * Second)) rest)))"

text \<open>The watcher of link updates: the channel it signals on holds at most one signal.\<close>

record LinkUpdate =
  lu_Name :: "string option"
  lu_DelLink :: bool

definition watch_update :: "string \<Rightarrow> LinkUpdate \<Rightarrow> bool \<Rightarrow> bool" where
  "watch_update name u pending \<longleftrightarrow> pending \<or> (lu_Name u = Some name \<and> lu_DelLink u)"

datatype vxlan_input = LeaseBatch "Event list" | DeviceMissing "bool list"

text \<open>
  \<open>Run\<close> handles batches and starts a recreation for every signal. The recreation runs in its own
  goroutine; the model runs it to its end before the next input.
\<close>

fun vn_Run ::
  "(int \<Rightarrow> ('w, unit) io) \<Rightarrow> 'w netlink \<Rightarrow> 'w subnet_manager \<Rightarrow> vxlan_input list \<Rightarrow> vxlan_network \<Rightarrow> ('w, vxlan_network) io" where
  "vn_Run sleep nl sm [] nw = io_ret nw"
| "vn_Run sleep nl sm (LeaseBatch b # is) nw = io_bind (vn_handleSubnetEvents nl nw b) (\<lambda>_. vn_Run sleep nl sm is nw)"
| "vn_Run sleep nl sm (DeviceMissing ctx # is) nw =
     io_try (reCreateVxlan sleep nl sm nw Second ctx) (vn_Run sleep nl sm is) (\<lambda>_. vn_Run sleep nl sm is nw)"

lemmas [go_eval] =
  no_plan_def routes_directly_def onlink_route_def plan4_def plan6_routes_def plan6_def failed_def added4_def added6_def
  removed4_def removed6_def apply_plans_def vxlan_event_def vn_handleSubnetEvents_def minDuration_def first_addr_def
  recreate_device_def recreate_attempt_def watch_update_def

end
