(* ===== verification/Route_Tables.thy ===== *)
theory Route_Tables
  imports Route_Network
begin

text \<open>
  The routes of a network as a table: what the kernel is assumed to do with routes
  (\<open>route_laws\<close>), the list a \<open>RouteNetwork\<close> keeps beside the kernel's table, and the proofs
  that events and periodic checks keep the two in step.
\<close>

section \<open>Routes as a table\<close>

lemma routeEqual_iff:
  assumes "route_ok x" "route_ok y"
  shows "routeEqual x y = Ok (route_key x = route_key y \<and> route_target x = route_target y)"
proof -
  obtain dx dy where d: "rt_Dst x = Some dx" "rt_Dst y = Some dy" "ip_ok (ipn_IP dx)" "ip_ok (ipn_IP dy)"
    "ip_ok (rt_Gw x)" "ip_ok (rt_Gw y)"
    using assms by (auto simp: route_ok_def split: option.splits)
  then show ?thesis
    by (auto simp: routeEqual_def route_key_def route_target_def net_key_def IP_Equal_To16)
qed

text \<open>
  What the kernel does with the routes of one family, over a view of its table: at most one
  route per destination; adding fails when there is one, deleting fails unless the given
  route is the one that is there, and the listings show the table.
\<close>

definition route_laws :: "'w netlink \<Rightarrow> int \<Rightarrow> ('w \<Rightarrow> route_table) \<Rightarrow> bool" where
  "route_laws nl fam view \<longleftrightarrow>
     (\<forall>d w. \<exists>rs w'. nl_RouteListFiltered nl fam (no_route\<lparr>rt_Dst := Some d\<rparr>) RT_FILTER_DST w = Some (Ok rs, w') \<and>
        view w' = view w \<and> (rs = [] \<longleftrightarrow> view w (net_key d) = None) \<and>
        (\<forall>x \<in> set rs. route_ok x \<and> route_key x = net_key d \<and> view w (net_key d) = Some (route_target x))) \<and>
     (\<forall>w. \<exists>rs w'. nl_RouteList nl fam w = Some (Ok rs, w') \<and> view w' = view w \<and>
        (\<forall>x \<in> set rs. rt_Dst x \<noteq> None \<longrightarrow> route_ok x) \<and>
        (\<forall>k t. view w k = Some t \<longleftrightarrow> (\<exists>x \<in> set rs. rt_Dst x \<noteq> None \<and> route_key x = k \<and> route_target x = t))) \<and>
     (\<forall>r w. route_ok r \<longrightarrow> (\<exists>q w'. nl_RouteAdd nl r w = Some (q, w') \<and>
        (if view w (route_key r) = None then q = Ok () \<and> view w' = (view w)(route_key r \<mapsto> route_target r)
         else fails q \<and> view w' = view w))) \<and>
     (\<forall>r w. route_ok r \<longrightarrow> (\<exists>q w'. nl_RouteDel nl r w = Some (q, w') \<and>
        (if view w (route_key r) = Some (route_target r) then q = Ok () \<and> view w' = (view w)(route_key r := None)
         else fails q \<and> view w' = view w)))"

lemma route_lawsD:
  assumes "route_laws nl fam view"
  obtains rs w' where "nl_RouteListFiltered nl fam (no_route\<lparr>rt_Dst := Some d\<rparr>) RT_FILTER_DST w = Some (Ok rs, w')"
      "view w' = view w" "rs = [] \<longleftrightarrow> view w (net_key d) = None"
      "\<And>x. x \<in> set rs \<Longrightarrow> route_ok x \<and> route_key x = net_key d \<and> view w (net_key d) = Some (route_target x)"
  using conjunct1 [OF assms [unfolded route_laws_def]] by blast

lemma route_laws_list:
  assumes "route_laws nl fam view"
  obtains rs w' where "nl_RouteList nl fam w = Some (Ok rs, w')" "view w' = view w"
    "\<And>x. x \<in> set rs \<Longrightarrow> rt_Dst x \<noteq> None \<Longrightarrow> route_ok x"
    "\<And>k t. view w k = Some t \<longleftrightarrow> (\<exists>x \<in> set rs. rt_Dst x \<noteq> None \<and> route_key x = k \<and> route_target x = t)"
proof -
  from conjunct1 [OF conjunct2 [OF assms [unfolded route_laws_def]]]
  obtain rs w' where *: "nl_RouteList nl fam w = Some (Ok rs, w')" "view w' = view w"
    "\<forall>x \<in> set rs. rt_Dst x \<noteq> None \<longrightarrow> route_ok x"
    "\<forall>k t. view w k = Some t \<longleftrightarrow> (\<exists>x \<in> set rs. rt_Dst x \<noteq> None \<and> route_key x = k \<and> route_target x = t)" by blast
  show ?thesis by (rule that [OF *(1,2)]) (use *(3,4) in blast)+
qed

lemma route_laws_add:
  assumes "route_laws nl fam view" "route_ok r"
  obtains q w' where "nl_RouteAdd nl r w = Some (q, w')"
    "if view w (route_key r) = None then q = Ok () \<and> view w' = (view w)(route_key r \<mapsto> route_target r)
     else fails q \<and> view w' = view w"
  using conjunct1 [OF conjunct2 [OF conjunct2 [OF assms(1) [unfolded route_laws_def]]]] assms(2) by blast

lemma route_laws_del:
  assumes "route_laws nl fam view" "route_ok r"
  obtains q w' where "nl_RouteDel nl r w = Some (q, w')"
    "if view w (route_key r) = Some (route_target r) then q = Ok () \<and> view w' = (view w)(route_key r := None)
     else fails q \<and> view w' = view w"
  using conjunct2 [OF conjunct2 [OF conjunct2 [OF assms(1) [unfolded route_laws_def]]]] assms(2) by blast

section \<open>The list\<close>

lemma in_routes_iff:
  "\<forall>r \<in> set rs. route_ok r \<Longrightarrow> route_ok route \<Longrightarrow>
   in_routes route rs = Ok (\<exists>r \<in> set rs. route_key r = route_key route \<and> route_target r = route_target route)"
  by (induction rs) (auto simp: routeEqual_iff)

lemma addToRouteList_ok:
  "\<forall>r \<in> set rs. route_ok r \<Longrightarrow> route_ok route \<Longrightarrow>
   \<exists>rs'. addToRouteList route rs = Ok rs' \<and> (rs' = rs \<or> rs' = rs @ [route]) \<and> (\<forall>r \<in> set rs'. route_ok r) \<and>
     (\<exists>r \<in> set rs'. route_key r = route_key route \<and> route_target r = route_target route)"
  by (auto simp: addToRouteList_def in_routes_iff)

lemma removeFromRouteList_ok:
  "\<forall>r \<in> set rs. route_ok r \<Longrightarrow> route_ok route \<Longrightarrow>
   removeFromRouteList route rs = Ok (remove_first (\<lambda>r. route_key r = route_key route \<and> route_target r = route_target route) rs)"
  by (induction rs) (auto simp: routeEqual_iff)

lemma remove_first_subset: "set (remove_first p xs) \<subseteq> set xs"
  by (induction xs) auto

text \<open>The list holds the routes of a table, one per destination.\<close>

definition tracks :: "Route list \<Rightarrow> route_table \<Rightarrow> bool" where
  "tracks rs tbl \<longleftrightarrow> distinct (map route_key rs) \<and>
     (\<forall>k t. tbl k = Some t \<longleftrightarrow> (\<exists>r \<in> set rs. route_key r = k \<and> route_target r = t))"

lemma tracks_none: "tracks rs tbl \<Longrightarrow> tbl k = None \<longleftrightarrow> (\<forall>r \<in> set rs. route_key r \<noteq> k)"
  unfolding tracks_def by (metis (no_types, lifting) not_Some_eq)

lemma tracks_table: "tracks rs tbl \<Longrightarrow> map_of (map (\<lambda>r. (route_key r, route_target r)) rs) = tbl"
proof
  fix k
  assume t: "tracks rs tbl"
  then have d: "distinct (map fst (map (\<lambda>r. (route_key r, route_target r)) rs))" by (simp add: tracks_def comp_def)
  show "map_of (map (\<lambda>r. (route_key r, route_target r)) rs) k = tbl k"
  proof (cases "tbl k")
    case None
    then have "k \<notin> fst ` set (map (\<lambda>r. (route_key r, route_target r)) rs)"
      using t [THEN tracks_none, of k] by (auto simp: image_iff)
    then show ?thesis using None by (simp only: map_of_eq_None_iff [symmetric])
  next
    case (Some h)
    then obtain r where "r \<in> set rs" "route_key r = k" "route_target r = h" using t by (auto simp: tracks_def)
    then have "(k, h) \<in> set (map (\<lambda>r. (route_key r, route_target r)) rs)" by force
    with d Some show ?thesis by (simp add: map_of_eq_Some_iff)
  qed
qed

lemma addToRouteList_tracks:
  assumes "tracks rs tbl" "\<forall>r \<in> set rs. route_ok r" "route_ok route"
    "tbl (route_key route) = None \<or> tbl (route_key route) = Some (route_target route)"
    "addToRouteList route rs = Ok rs0"
  shows "tracks rs0 (tbl(route_key route \<mapsto> route_target route))"
proof (cases "tbl (route_key route) = None")
  case True
  with tracks_none [OF assms(1)] have n: "\<forall>r \<in> set rs. route_key r \<noteq> route_key route" by simp
  then have "rs0 = rs @ [route]" using assms(2,3,5) by (auto simp: addToRouteList_def in_routes_iff split: if_splits)
  moreover have "distinct (map route_key (rs @ [route]))" using assms(1) n by (auto simp: tracks_def)
  moreover have "(tbl(route_key route \<mapsto> route_target route)) k = Some t \<longleftrightarrow>
      (\<exists>r \<in> set (rs @ [route]). route_key r = k \<and> route_target r = t)" for k t
  proof (cases "k = route_key route")
    case True
    with n show ?thesis by auto
  next
    case False
    with assms(1) show ?thesis by (simp add: tracks_def)
  qed
  ultimately show ?thesis by (simp only: tracks_def) blast
next
  case False
  with assms(4) have s: "tbl (route_key route) = Some (route_target route)" by simp
  then have "rs0 = rs" using assms(1-3,5) by (auto simp: tracks_def addToRouteList_def in_routes_iff split: if_splits)
  with s assms(1) show ?thesis by (simp add: fun_upd_idem)
qed

lemma remove_first_keys:
  "distinct (map route_key rs) \<Longrightarrow>
   distinct (map route_key (remove_first (\<lambda>r. route_key r = k \<and> route_target r = t) rs)) \<and>
   set (remove_first (\<lambda>r. route_key r = k \<and> route_target r = t) rs) = {r \<in> set rs. \<not> (route_key r = k \<and> route_target r = t)}"
proof (induction rs)
  case (Cons a rs)
  then show ?case by (cases "route_key a = k \<and> route_target a = t") (auto simp: image_iff)
qed simp

lemma tracks_remove:
  assumes "tracks rs tbl"
  shows "tracks (remove_first (\<lambda>r. route_key r = k \<and> route_target r = t) rs) (if tbl k = Some t then tbl(k := None) else tbl)"
proof -
  let ?rs = "remove_first (\<lambda>r. route_key r = k \<and> route_target r = t) rs"
  have d: "distinct (map route_key rs)" and s: "\<And>k t. tbl k = Some t \<longleftrightarrow> (\<exists>r \<in> set rs. route_key r = k \<and> route_target r = t)"
    using assms by (auto simp: tracks_def)
  have "(if tbl k = Some t then tbl(k := None) else tbl) x = Some y \<longleftrightarrow> tbl x = Some y \<and> \<not> (x = k \<and> y = t)" for x y by auto
  then show ?thesis using remove_first_keys [OF d, of k t] s by (auto simp: tracks_def)
qed

lemma remove_first_append: "\<exists>r \<in> set xs. p r \<Longrightarrow> remove_first p (xs @ ys) = remove_first p xs @ ys"
  by (induction xs) auto

lemma tracks_replace:
  assumes t: "tracks rs tbl" and ok: "\<forall>r \<in> set rs. route_ok r" "route_ok route"
    and h: "tbl (route_key route) = Some h" "h \<noteq> route_target route" and a: "addToRouteList route rs = Ok rs0"
  shows "tracks (remove_first (\<lambda>r. route_key r = route_key route \<and> route_target r = h) rs0) (tbl(route_key route \<mapsto> route_target route))"
proof -
  let ?p = "\<lambda>r. route_key r = route_key route \<and> route_target r = h"
  have ex: "\<exists>r \<in> set rs. ?p r" using t h(1) by (auto simp: tracks_def)
  have "tbl (route_key route) \<noteq> Some (route_target route)" using h by simp
  then have "\<not> (\<exists>r \<in> set rs. route_key r = route_key route \<and> route_target r = route_target route)" using t by (simp add: tracks_def)
  then have "rs0 = rs @ [route]" using a ok by (auto simp: addToRouteList_def in_routes_iff split: if_splits)
  with ex have e: "remove_first ?p rs0 = remove_first ?p rs @ [route]" by (simp add: remove_first_append)
  define rs1 where "rs1 = remove_first ?p rs"
  have r: "tracks rs1 (tbl(route_key route := None))"
    using tracks_remove [OF t, of "route_key route" h] h(1) by (simp add: rs1_def)
  have ok1: "\<forall>r \<in> set rs1. route_ok r" using ok(1) remove_first_subset [of ?p rs] by (auto simp: rs1_def)
  have none: "\<forall>r \<in> set rs1. route_key r \<noteq> route_key route" using tracks_none [OF r, of "route_key route"] by simp
  have "addToRouteList route rs1 = Ok (rs1 @ [route])"
    unfolding addToRouteList_def using in_routes_iff [OF ok1 ok(2)] none by auto
  from addToRouteList_tracks [OF r ok1 ok(2) _ this] show ?thesis by (simp add: e rs1_def)
qed

section \<open>Adding and removing a route\<close>

lemma routes_to_view:
  assumes "route_laws nl fam view" "route_ok route"
  obtains rs w' where "routes_to nl fam route w = Some (Ok rs, w')" "view w' = view w"
    "rs = [] \<longleftrightarrow> view w (route_key route) = None"
    "\<And>x. x \<in> set rs \<Longrightarrow> route_ok x \<and> route_key x = route_key route \<and> view w (route_key route) = Some (route_target x)"
proof -
  from assms(2) obtain d where d: "rt_Dst route = Some d" by (auto simp: route_ok_def split: option.splits)
  from route_lawsD [OF assms(1), where d = d and w = w]
  obtain rs w' where "nl_RouteListFiltered nl fam (no_route\<lparr>rt_Dst := Some d\<rparr>) RT_FILTER_DST w = Some (Ok rs, w')"
      "view w' = view w" "rs = [] \<longleftrightarrow> view w (net_key d) = None"
      "\<And>x. x \<in> set rs \<Longrightarrow> route_ok x \<and> route_key x = net_key d \<and> view w (net_key d) = Some (route_target x)" by blast
  with that d show ?thesis by (simp add: routes_to_def route_key_def)
qed

lemma first_equal_ok:
  assumes "route_ok route" "\<And>x. x \<in> set rs \<Longrightarrow> route_ok x \<and> route_key x = route_key route \<and> v = Some (route_target x)"
    "rs = [] \<longleftrightarrow> v = None"
  shows "first_equal rs route = Ok (map_option (\<lambda>t. t = route_target route) v)"
proof (cases rs)
  case Nil
  with assms(3) show ?thesis by (simp add: first_equal_def)
next
  case (Cons r rs')
  with assms(2) [of r] assms(1) show ?thesis by (simp add: first_equal_def routeEqual_iff)
qed

lemma install_route_view:
  assumes l: "route_laws nl fam view" and ok: "route_ok route"
    and free: "view w (route_key route) = None \<or> view w (route_key route) = Some (route_target route)"
  shows "\<exists>w'. install_route nl fam route routes w = Some (Ok routes, w') \<and>
    view w' = (view w)(route_key route \<mapsto> route_target route)"
proof -
  obtain rs w1 where 1: "routes_to nl fam route w = Some (Ok rs, w1)" "view w1 = view w"
    "rs = [] \<longleftrightarrow> view w (route_key route) = None"
    "\<And>x. x \<in> set rs \<Longrightarrow> route_ok x \<and> route_key x = route_key route \<and> view w (route_key route) = Some (route_target x)"
    using routes_to_view [OF l ok] by blast
  have eq: "first_equal rs route = Ok (map_option (\<lambda>t. t = route_target route) (view w (route_key route)))"
    by (rule first_equal_ok [OF ok 1(4,3)])
  obtain q w2 where 2: "nl_RouteAdd nl route w1 = Some (q, w2)"
    "if view w1 (route_key route) = None then q = Ok () \<and> view w2 = (view w1)(route_key route \<mapsto> route_target route)
     else fails q \<and> view w2 = view w1"
    using route_laws_add [OF l ok] by blast
  define w3 where "w3 = (if view w (route_key route) = None then w2 else w1)"
  have v3: "view w3 = (view w)(route_key route \<mapsto> route_target route)"
    using free 1(2) 2(2) by (auto simp: w3_def)
  obtain rs' w4 where 4: "routes_to nl fam route w3 = Some (Ok rs', w4)" "view w4 = view w3"
    using routes_to_view [OF l ok, of w3] by blast
  have "install_route nl fam route routes w = Some (Ok routes, w4)"
    using free 1(1,2) eq 2 4(1) by (auto simp: install_route_def w3_def)
  with v3 4(2) show ?thesis by auto
qed

lemma routeAdd_view:
  assumes l: "route_laws nl fam view" and ok: "route_ok route" "\<forall>r \<in> set routes. route_ok r"
  shows "\<exists>rs w'. routeAdd nl fam route routes w = Some (Ok rs, w') \<and> (\<forall>r \<in> set rs. route_ok r) \<and>
    view w' = (view w)(route_key route \<mapsto> route_target route) \<and> (tracks routes (view w) \<longrightarrow> tracks rs (view w'))"
proof -
  obtain rs0 where 0: "addToRouteList route routes = Ok rs0" "\<forall>r \<in> set rs0. route_ok r"
    using addToRouteList_ok [OF ok(2,1)] by blast
  obtain rs w1 where 1: "routes_to nl fam route w = Some (Ok rs, w1)" "view w1 = view w"
    "rs = [] \<longleftrightarrow> view w (route_key route) = None"
    "\<And>x. x \<in> set rs \<Longrightarrow> route_ok x \<and> route_key x = route_key route \<and> view w (route_key route) = Some (route_target x)"
    using routes_to_view [OF l ok(1)] by blast
  have eq: "first_equal rs route = Ok (map_option (\<lambda>t. t = route_target route) (view w (route_key route)))"
    by (rule first_equal_ok [OF ok(1) 1(4,3)])
  show ?thesis
  proof (cases "view w (route_key route) = None \<or> view w (route_key route) = Some (route_target route)")
    case True
    with install_route_view [OF l ok(1), of w1 rs0] 1(2)
    obtain w2 where "install_route nl fam route rs0 w1 = Some (Ok rs0, w2)"
      "view w2 = (view w)(route_key route \<mapsto> route_target route)" by auto
    moreover obtain v where "first_equal rs route = Ok v" "v \<noteq> Some False" using eq True by auto
    moreover have "tracks routes (view w) \<longrightarrow> tracks rs0 ((view w)(route_key route \<mapsto> route_target route))"
      using addToRouteList_tracks [of routes "view w" route rs0] ok True 0(1) by blast
    ultimately show ?thesis using 0 1(1) by (simp add: routeAdd_def)
  next
    case False
    then obtain t where t: "view w (route_key route) = Some t" "t \<noteq> route_target route" by auto
    with 1(3) obtain x xs where x: "rs = x # xs" by (cases rs) auto
    with 1(4) [of x] t have xo: "route_ok x" "route_key x = route_key route" "route_target x = t" by auto
    obtain q w2 where 2: "nl_RouteDel nl x w1 = Some (q, w2)"
      "if view w1 (route_key x) = Some (route_target x) then q = Ok () \<and> view w2 = (view w1)(route_key x := None)
       else fails q \<and> view w2 = view w1"
      using route_laws_del [OF l xo(1)] by blast
    with 1(2) t xo have v2: "q = Ok ()" "view w2 = (view w)(route_key route := None)" by auto
    define rs1 where "rs1 = remove_first (\<lambda>r. route_key r = route_key x \<and> route_target r = route_target x) rs0"
    have rs1: "removeFromRouteList x rs0 = Ok rs1" "\<forall>r \<in> set rs1. route_ok r"
      using removeFromRouteList_ok [OF 0(2) xo(1)] 0(2) remove_first_subset by (fastforce simp: rs1_def)+
    obtain w3 where "install_route nl fam route rs1 w2 = Some (Ok rs1, w3)"
      "view w3 = (view w2)(route_key route \<mapsto> route_target route)"
      using install_route_view [OF l ok(1), of w2 rs1] v2(2) by auto
    moreover have "tracks routes (view w) \<longrightarrow> tracks rs1 ((view w)(route_key route \<mapsto> route_target route))"
      using tracks_replace [of routes "view w" route t rs0] ok t 0(1) xo by (simp add: rs1_def)
    ultimately show ?thesis using 0 1(1) eq t 2(1) v2 rs1 by (simp add: routeAdd_def x)
  qed
qed

section \<open>Events\<close>

text \<open>What an event does to the table of a network whose route to a lease is \<open>rt\<close>.\<close>

definition follow_event :: "string \<Rightarrow> (Lease \<Rightarrow> Route) \<Rightarrow> Event \<Rightarrow> route_table \<Rightarrow> route_table" where
  "follow_event ty rt e tbl =
     (if la_BackendType (lease_Attrs (ev_Lease e)) \<noteq> ty then tbl
      else (case ev_Type e of
              EventAdded \<Rightarrow> tbl(route_key (rt (ev_Lease e)) \<mapsto> route_target (rt (ev_Lease e)))
            | EventRemoved \<Rightarrow> if tbl (route_key (rt (ev_Lease e))) = Some (route_target (rt (ev_Lease e))) then tbl(route_key (rt (ev_Lease e)) := None) else tbl))"

definition rn_ok :: "'w RouteNetwork \<Rightarrow> string \<Rightarrow> (Lease \<Rightarrow> Route) \<Rightarrow> bool" where
  "rn_ok n ty rt \<longleftrightarrow> rn_BackendType n = ty \<and> rn_GetRoute n = Some (\<lambda>l. io_ret (rt l)) \<and> (\<forall>r \<in> set (rn_routes n). route_ok r)"

definition ipv4_only :: "Lease \<Rightarrow> bool" where
  "ipv4_only l \<longleftrightarrow> lease_EnableIPv4 l \<and> \<not> lease_EnableIPv6 l"

lemma route_event_view:
  assumes l: "route_laws nl FAMILY_V4 view" and n: "rn_ok n ty rt" and rt: "\<And>x. route_ok (rt x)"
    and e: "ipv4_only (ev_Lease e)"
  shows "\<exists>n' w'. route_event nl e n w = Some (Ok n', w') \<and> rn_ok n' ty rt \<and>
    view w' = follow_event ty rt e (view w) \<and> (tracks (rn_routes n) (view w) \<longrightarrow> tracks (rn_routes n') (view w'))"
proof -
  let ?r = "rt (ev_Lease e)"
  have n1: "rn_BackendType n = ty" "rn_GetRoute n = Some (\<lambda>l. io_ret (rt l))" "\<forall>r \<in> set (rn_routes n). route_ok r"
    using n by (auto simp: rn_ok_def)
  show ?thesis
  proof (cases "la_BackendType (lease_Attrs (ev_Lease e)) = ty")
    case False
    then show ?thesis using n n1(1) by (simp add: route_event_def follow_event_def)
  next
    case ty: True
    show ?thesis
    proof (cases "ev_Type e")
      case EventAdded
      obtain rs w' where "routeAdd nl FAMILY_V4 ?r (rn_routes n) w = Some (Ok rs, w')" "\<forall>r \<in> set rs. route_ok r"
        "view w' = (view w)(route_key ?r \<mapsto> route_target ?r)" "tracks (rn_routes n) (view w) \<longrightarrow> tracks rs (view w')"
        using routeAdd_view [OF l rt n1(3)] by blast
      then show ?thesis using n1 ty e EventAdded
        by (simp add: route_event_def route_added_def call_route_def ipv4_only_def rn_ok_def follow_event_def)
    next
      case EventRemoved
      obtain q w' where del: "nl_RouteDel nl ?r w = Some (q, w')"
        "if view w (route_key ?r) = Some (route_target ?r) then q = Ok () \<and> view w' = (view w)(route_key ?r := None)
         else fails q \<and> view w' = view w"
        using route_laws_del [OF l rt] by blast
      then have lg: "io_logged (nl_RouteDel nl ?r) w = Some (Ok (), w')"
        by (cases q) (auto simp: io_logged_def split: if_splits)
      define rs where "rs = remove_first (\<lambda>r. route_key r = route_key ?r \<and> route_target r = route_target ?r) (rn_routes n)"
      have "removeFromRouteList ?r (rn_routes n) = Ok rs" "\<forall>r \<in> set rs. route_ok r"
        using removeFromRouteList_ok [OF n1(3) rt] n1(3) remove_first_subset by (fastforce simp: rs_def)+
      moreover have "tracks (rn_routes n) (view w) \<longrightarrow> tracks rs (view w')"
        using tracks_remove [of "rn_routes n" "view w" "route_key ?r" "route_target ?r"] del(2) by (auto simp: rs_def split: if_splits)
      ultimately show ?thesis using n1 ty e EventRemoved lg del(2)
        by (auto simp: route_event_def route_removed_def call_route_def ipv4_only_def rn_ok_def follow_event_def)
    qed
  qed
qed

lemma handle_events_view:
  assumes l: "route_laws nl FAMILY_V4 view" and n: "rn_ok n ty rt" and rt: "\<And>x. route_ok (rt x)"
    and e: "\<forall>e \<in> set batch. ipv4_only (ev_Lease e)"
  shows "\<exists>n' w'. rn_handleSubnetEvents nl n batch w = Some (Ok n', w') \<and> rn_ok n' ty rt \<and>
    view w' = fold (follow_event ty rt) batch (view w) \<and> (tracks (rn_routes n) (view w) \<longrightarrow> tracks (rn_routes n') (view w'))"
  using n e
proof (induction batch arbitrary: n w)
  case Nil
  then show ?case by (simp add: rn_handleSubnetEvents_def)
next
  case (Cons e es)
  from Cons.prems have e: "ipv4_only (ev_Lease e)" by simp
  obtain n1 w1 where 1: "route_event nl e n w = Some (Ok n1, w1)" "rn_ok n1 ty rt" "view w1 = follow_event ty rt e (view w)"
      "tracks (rn_routes n) (view w) \<longrightarrow> tracks (rn_routes n1) (view w1)"
    using route_event_view [OF l Cons.prems(1) rt e] by blast
  from Cons.IH [OF 1(2), of w1] Cons.prems(2)
  obtain n2 w2 where 2: "rn_handleSubnetEvents nl n1 es w1 = Some (Ok n2, w2)" "rn_ok n2 ty rt"
    "view w2 = fold (follow_event ty rt) es (view w1)" "tracks (rn_routes n1) (view w1) \<longrightarrow> tracks (rn_routes n2) (view w2)" by auto
  have "rn_handleSubnetEvents nl n (e # es) w = Some (Ok n2, w2)"
    using 1(1) 2(1) by (simp add: rn_handleSubnetEvents_def)
  with 1(3,4) 2 show ?case by simp
qed

section \<open>The periodic check\<close>

lemma recover_route_view:
  assumes l: "route_laws nl fam view" and ok: "route_ok r"
    and rs: "\<And>x. x \<in> set rs \<Longrightarrow> rt_Dst x \<noteq> None \<Longrightarrow> route_ok x"
    "\<And>k t. tbl k = Some t \<longleftrightarrow> (\<exists>x \<in> set rs. rt_Dst x \<noteq> None \<and> route_key x = k \<and> route_target x = t)"
    and w: "\<And>k t. tbl k = Some t \<Longrightarrow> view w k = Some t"
  shows "\<exists>w'. recover_route nl rs r u w = Some (Ok (), w') \<and>
    view w' = (if view w (route_key r) = None then (view w)(route_key r \<mapsto> route_target r) else view w)"
proof -
  have ex: "listed r rs = Ok (tbl (route_key r) = Some (route_target r))"
    unfolding listed_def using ok rs(1) by (subst in_routes_iff) (auto simp: rs(2))
  obtain q w' where add: "nl_RouteAdd nl r w = Some (q, w')"
    "if view w (route_key r) = None then q = Ok () \<and> view w' = (view w)(route_key r \<mapsto> route_target r)
     else fails q \<and> view w' = view w"
    using route_laws_add [OF l ok] by blast
  then have lg: "io_logged (nl_RouteAdd nl r) w = Some (Ok (), w')"
    by (cases q) (auto simp: io_logged_def split: if_splits)
  show ?thesis
  proof (cases "tbl (route_key r) = Some (route_target r)")
    case True
    with w have "view w (route_key r) \<noteq> None" by simp
    with True ex show ?thesis by (auto simp: recover_route_def)
  next
    case False
    with ex lg add(2) show ?thesis by (auto simp: recover_route_def)
  qed
qed

lemma check_view:
  assumes l: "route_laws nl fam view" and ok: "\<forall>r \<in> set routes. route_ok r"
  shows "\<exists>w'. checkSubnetExistInRoutes nl routes fam w = Some (Ok (), w') \<and>
    view w' = map_of (map (\<lambda>r. (route_key r, route_target r)) routes) ++ view w"
proof -
  obtain rs w0 where 0: "nl_RouteList nl fam w = Some (Ok rs, w0)" "view w0 = view w"
    "\<And>x. x \<in> set rs \<Longrightarrow> rt_Dst x \<noteq> None \<Longrightarrow> route_ok x"
    "\<And>k t. view w k = Some t \<longleftrightarrow> (\<exists>x \<in> set rs. rt_Dst x \<noteq> None \<and> route_key x = k \<and> route_target x = t)"
    using route_laws_list [OF l, of w] by blast
  have "\<exists>w'. io_fold (recover_route nl rs) routes () v = Some (Ok (), w') \<and>
      view w' = map_of (map (\<lambda>r. (route_key r, route_target r)) routes) ++ view v"
    if "\<And>k t. view w k = Some t \<Longrightarrow> view v k = Some t" for v
    using ok that
  proof (induction routes arbitrary: v)
    case (Cons r routes)
    from Cons.prems have r: "route_ok r" by simp
    obtain v1 where v1: "recover_route nl rs r () v = Some (Ok (), v1)"
      "view v1 = (if view v (route_key r) = None then (view v)(route_key r \<mapsto> route_target r) else view v)"
      using recover_route_view [OF l r 0(3,4) Cons.prems(2)] by blast
    have "\<And>k t. view w k = Some t \<Longrightarrow> view v1 k = Some t" using Cons.prems(2) v1(2) by auto
    with Cons.IH [of v1] Cons.prems(1) obtain v2 where "io_fold (recover_route nl rs) routes () v1 = Some (Ok (), v2)"
      "view v2 = map_of (map (\<lambda>r. (route_key r, route_target r)) routes) ++ view v1" by auto
    with v1 show ?case by (auto simp: fun_eq_iff map_add_def split: option.splits)
  qed simp
  from this [of w0] 0(1,2) show ?thesis by (simp add: checkSubnetExistInRoutes_def)
qed

lemma mem_route_laws: "route_laws mem_netlink fam k_table"
proof -
  have nil: "k_listed w d = [] \<longleftrightarrow> k_table w d = None" for w d by (simp add: k_listed_def split: option.splits)
  have key: "route_key (no_route\<lparr>rt_Dst := Some d\<rparr>) = net_key d" for d by (simp add: route_key_def)
  have list: "k_table w k = Some t \<longleftrightarrow>
      (\<exists>x \<in> set (concat (map (k_listed w) (remdups (map fst (k_routes w))))). rt_Dst x \<noteq> None \<and> route_key x = k \<and> route_target x = t)"
    for w k t
  proof
    assume t: "k_table w k = Some t"
    then have "k \<in> fst ` set (k_routes w)"
      by (auto simp: k_table_def dom_map_of_conv_image_fst [symmetric] split: option.splits)
    moreover have "to_route k t \<in> set (k_listed w k)" using t by (simp add: k_listed_def)
    moreover have "rt_Dst (to_route k t) \<noteq> None" by (cases k; cases t) simp
    ultimately show "\<exists>x \<in> set (concat (map (k_listed w) (remdups (map fst (k_routes w))))). rt_Dst x \<noteq> None \<and> route_key x = k \<and> route_target x = t"
      using to_route_ok [OF t] by auto
  qed (use k_listed_ok in fastforce)
  have add: "\<exists>q w'. k_RouteAdd r w = Some (q, w') \<and>
        (if k_table w (route_key r) = None then q = Ok () \<and> k_table w' = (k_table w)(route_key r \<mapsto> route_target r)
         else fails q \<and> k_table w' = k_table w)" for r w
    by (simp add: k_RouteAdd_def k_table_cons)
  have del: "\<exists>q w'. k_RouteDel r w = Some (q, w') \<and>
        (if k_table w (route_key r) = Some (route_target r) then q = Ok () \<and> k_table w' = (k_table w)(route_key r := None)
         else fails q \<and> k_table w' = k_table w)" for r w
    by (simp add: k_RouteDel_def k_table_del)
  show ?thesis unfolding route_laws_def
    using nil key list add del k_listed_ok by (simp add: mem_netlink_def)
qed

section \<open>Properties\<close>

definition hostgw_rt :: "int \<Rightarrow> Lease \<Rightarrow> Route" where
  "hostgw_rt idx l = no_route\<lparr>rt_Dst := Some (IP4Net_ToIPNet (lease_Subnet l)),
     rt_Gw := IP4_ToIP (la_PublicIP (lease_Attrs l)), rt_LinkIndex := idx\<rparr>"

lemma ToIP_ok: "ip_ok (IP4_ToIP a)"
  by (simp add: IP4_ToIP_def ip_ok_def net_IPv4_def v4InV6Prefix_def split: prod.split)

lemma hostgw_rt_ok: "route_ok (hostgw_rt idx l)"
  by (simp add: route_ok_def hostgw_rt_def no_route_def IP4Net_ToIPNet_def ToIP_ok)

definition gateway :: "int \<Rightarrow> Lease \<Rightarrow> hop" where
  "gateway idx l = Hop (IP4_ToIP (la_PublicIP (lease_Attrs l))) idx"

definition subnet_dest :: "Lease \<Rightarrow> dest" where
  "subnet_dest l = Dest (IP4_ToIP (ip4_IP (lease_Subnet l))) (CIDRMask (sint (ip4_PrefixLen (lease_Subnet l))) 32)"

lemma To16_ToIP: "To16 (IP4_ToIP a) = IP4_ToIP a"
  by (simp add: IP4_ToIP_def To16_def net_IPv4_def v4InV6Prefix_def split: prod.split)

lemma hostgw_rt_entry: "route_key (hostgw_rt idx l) = subnet_dest l" "route_target (hostgw_rt idx l) = gateway idx l"
  by (simp_all add: route_key_def net_key_def route_target_def hostgw_rt_def IP4Net_ToIPNet_def subnet_dest_def gateway_def
      no_route_def To16_ToIP)

lemma hostgw_network:
  assumes "hostgw_RegisterNetwork sm ei config w = Some (Ok n, w')" "cfg_EnableIPv4 config"
  shows "rn_ok n ''host-gw'' (hostgw_rt (if_Index (ei_Iface ei)))" "rn_routes n = []"
proof -
  have "hostgw_route idx = (\<lambda>l. io_ret (hostgw_rt idx l))" for idx by (simp add: hostgw_route_def hostgw_rt_def fun_eq_iff)
  with assms show "rn_ok n ''host-gw'' (hostgw_rt (if_Index (ei_Iface ei)))" "rn_routes n = []"
    by (auto simp: hostgw_RegisterNetwork_def Let_def io_bind_Ok_iff new_RouteNetwork_def rn_ok_def)
qed

definition follow_lease :: "int \<Rightarrow> Event \<Rightarrow> route_table \<Rightarrow> route_table" where
  "follow_lease idx e tbl =
     (let l = ev_Lease e in
      if la_BackendType (lease_Attrs l) \<noteq> ''host-gw'' then tbl
      else (case ev_Type e of
              EventAdded \<Rightarrow> tbl(subnet_dest l \<mapsto> gateway idx l)
            | EventRemoved \<Rightarrow> if tbl (subnet_dest l) = Some (gateway idx l) then tbl(subnet_dest l := None) else tbl))"

lemma follow_hostgw: "follow_event ''host-gw'' (hostgw_rt idx) = follow_lease idx"
  by (simp add: fun_eq_iff follow_event_def follow_lease_def hostgw_rt_entry Let_def split: EventType.split)

text \<open>
  C32. The routing table follows the leases: the events a registered \<open>host-gw\<close> network receives
  are all handled, and each of them changes the kernel's table as the event says, whatever
  the table held before. An added lease routes its subnet to the node's address through the
  network's link, replacing any other route; a removed lease deletes exactly that route.
\<close>

theorem routes_follow_leases:
  assumes "route_laws nl FAMILY_V4 view" "hostgw_RegisterNetwork sm ei config w0 = Some (Ok n, w1)" "cfg_EnableIPv4 config"
    "\<forall>e \<in> set batch. lease_EnableIPv4 (ev_Lease e) \<and> \<not> lease_EnableIPv6 (ev_Lease e)"
  shows "\<exists>n' w'. rn_handleSubnetEvents nl n batch w = Some (Ok n', w') \<and>
    view w' = fold (follow_lease (if_Index (ei_Iface ei))) batch (view w)"
proof -
  have "\<forall>e \<in> set batch. ipv4_only (ev_Lease e)" using assms(4) by (simp add: ipv4_only_def)
  from handle_events_view [OF assms(1) hostgw_network(1) [OF assms(2,3)] hostgw_rt_ok this, of w]
  show ?thesis by (auto simp: follow_hostgw)
qed


section \<open>Examples\<close>

definition demo_sm :: "'w subnet_manager" where
  "demo_sm = \<lparr>sm_AcquireLease = (\<lambda>attrs. io_ret (demo_lease 0x0a000100)),
     sm_GetNetworkConfig = io_err (ErrorString []), sm_GetStoredMacAddresses = io_ret ([], [])\<rparr>"

definition demo_ei :: ExternalInterface where
  "demo_ei = \<lparr>ei_Iface = \<lparr>if_Index = 2, if_MTU = 1500, if_Name = ''eth0''\<rparr>, ei_IfaceName = ''eth0'',
     ei_IfaceAddr = [192, 168, 0, 1], ei_IfaceV6Addr = [], ei_ExtAddr = [192, 168, 0, 1], ei_ExtV6Addr = []\<rparr>"

definition demo_config :: Config where
  "demo_config = new_Config\<lparr>cfg_EnableIPv4 := True\<rparr>"

definition gw_lease :: "IP4 \<Rightarrow> IP4 \<Rightarrow> Lease" where
  "gw_lease a p = (demo_lease a)\<lparr>lease_Attrs := empty_attrs\<lparr>la_BackendType := ''host-gw'', la_PublicIP := p\<rparr>\<rparr>"

definition gw_batch :: "Event list" where
  "gw_batch = [\<lparr>ev_Type = EventAdded, ev_Lease = gw_lease 0x0a000200 0xc0a80002\<rparr>,
     \<lparr>ev_Type = EventAdded, ev_Lease = gw_lease 0x0a000300 0xc0a80003\<rparr>,
     \<lparr>ev_Type = EventAdded, ev_Lease = gw_lease 0x0a000200 0xc0a80004\<rparr>,
     \<lparr>ev_Type = EventRemoved, ev_Lease = gw_lease 0x0a000300 0xc0a80003\<rparr>]"

lemma demo_registered: "\<exists>n. hostgw_RegisterNetwork demo_sm demo_ei demo_config no_kern = Some (Ok n, no_kern)"
  by (simp add: go_eval demo_sm_def demo_ei_def demo_config_def)

lemma gw_batch_v4: "\<forall>e \<in> set gw_batch. lease_EnableIPv4 (ev_Lease e) \<and> \<not> lease_EnableIPv6 (ev_Lease e)"
  by (simp add: gw_batch_def gw_lease_def demo_lease_def)

lemma gw_batch_table:
  "fold (follow_lease 2) gw_batch Map.empty =
     Map.empty(Dest (IP4_ToIP 0x0a000200) (CIDRMask 24 32) \<mapsto> Hop (IP4_ToIP 0xc0a80004) 2)"
  by (simp add: gw_batch_def gw_lease_def go_eval follow_lease_def subnet_dest_def gateway_def demo_lease_def)

lemma k_table_no_kern: "k_table no_kern = Map.empty"
  by (simp add: k_table_def no_kern_def fun_eq_iff)

theorem routes_follow_leases_witness:
  "\<exists>n n' w'. hostgw_RegisterNetwork demo_sm demo_ei demo_config no_kern = Some (Ok n, no_kern) \<and>
     rn_handleSubnetEvents mem_netlink n gw_batch no_kern = Some (Ok n', w') \<and>
     k_table w' = Map.empty(Dest (IP4_ToIP 0x0a000200) (CIDRMask 24 32) \<mapsto> Hop (IP4_ToIP 0xc0a80004) 2)"
proof -
  obtain n where n: "hostgw_RegisterNetwork demo_sm demo_ei demo_config no_kern = Some (Ok n, no_kern)"
    using demo_registered by blast
  have "cfg_EnableIPv4 demo_config" "if_Index (ei_Iface demo_ei) = 2" by (simp_all add: demo_config_def demo_ei_def)
  with routes_follow_leases [OF mem_route_laws n _ gw_batch_v4, of no_kern] n show ?thesis
    by (auto simp: gw_batch_table k_table_no_kern)
qed


text \<open>
  The list of routes can hold two routes to one subnet. When the kernel has lost the route of
  a node and the subnet is then leased to another node, the old route is not removed from the
  list, because it is only removed together with a route found in the kernel. If the new route
  is lost as well, the periodic check installs the old one, to the node that no longer has the
  subnet.
\<close>

lemma stale_route_reinstalled:
  "\<exists>n n1 w1 n2 w2 w3. hostgw_RegisterNetwork demo_sm demo_ei demo_config no_kern = Some (Ok n, no_kern) \<and>
     rn_handleSubnetEvents mem_netlink n [\<lparr>ev_Type = EventAdded, ev_Lease = gw_lease 0x0a000200 0xc0a80002\<rparr>] no_kern = Some (Ok n1, w1) \<and>
     rn_handleSubnetEvents mem_netlink n1 [\<lparr>ev_Type = EventAdded, ev_Lease = gw_lease 0x0a000200 0xc0a80004\<rparr>] no_kern = Some (Ok n2, w2) \<and>
     checkSubnetExistInRoutes mem_netlink (rn_routes n2) FAMILY_V4 no_kern = Some (Ok (), w3) \<and>
     k_table w3 = Map.empty(Dest (IP4_ToIP 0x0a000200) (CIDRMask 24 32) \<mapsto> Hop (IP4_ToIP 0xc0a80002) 2)"
  by (simp add: go_eval kern_eval demo_sm_def demo_ei_def demo_config_def gw_lease_def demo_lease_def route_key_def net_key_def route_target_def
      fun_eq_iff)

end
