(* ===== verification/Vxlan_Tables.thy ===== *)
theory Vxlan_Tables
  imports Vxlan_Network Route_Tables Kube_Manager
begin

text \<open>
  What the events of a VXLAN network do to the kernel's tables: the ARP entries and the
  forwarding entries of the device, and the routes. The laws assumed of the kernel allow every
  call to fail; a failed call changes nothing.
\<close>

section \<open>The tables and their operations\<close>

record vx_tables =
  vt_arp :: "int \<times> net_IP \<Rightarrow> HardwareAddr option"
  vt_fdb :: "int \<times> HardwareAddr \<Rightarrow> net_IP option"
  vt_routes :: route_table

definition neigh_set :: "Neigh \<Rightarrow> vx_tables \<Rightarrow> vx_tables" where
  "neigh_set n t =
     (if ng_Family n = AF_BRIDGE then t\<lparr>vt_fdb := (vt_fdb t)((ng_LinkIndex n, ng_HardwareAddr n) \<mapsto> ng_IP n)\<rparr>
      else t\<lparr>vt_arp := (vt_arp t)((ng_LinkIndex n, ng_IP n) \<mapsto> ng_HardwareAddr n)\<rparr>)"

definition neigh_there :: "Neigh \<Rightarrow> vx_tables \<Rightarrow> bool" where
  "neigh_there n t =
     (if ng_Family n = AF_BRIDGE then vt_fdb t (ng_LinkIndex n, ng_HardwareAddr n) = Some (ng_IP n)
      else vt_arp t (ng_LinkIndex n, ng_IP n) \<noteq> None)"

definition neigh_del :: "Neigh \<Rightarrow> vx_tables \<Rightarrow> vx_tables" where
  "neigh_del n t =
     (if \<not> neigh_there n t then t
      else if ng_Family n = AF_BRIDGE then t\<lparr>vt_fdb := (vt_fdb t)((ng_LinkIndex n, ng_HardwareAddr n) := None)\<rparr>
      else t\<lparr>vt_arp := (vt_arp t)((ng_LinkIndex n, ng_IP n) := None)\<rparr>)"

definition route_set :: "Route \<Rightarrow> vx_tables \<Rightarrow> vx_tables" where
  "route_set r t = t\<lparr>vt_routes := (vt_routes t)(route_key r \<mapsto> route_target r)\<rparr>"

definition route_there :: "Route \<Rightarrow> vx_tables \<Rightarrow> bool" where
  "route_there r t \<longleftrightarrow> vt_routes t (route_key r) = Some (route_target r)"

definition route_del :: "Route \<Rightarrow> vx_tables \<Rightarrow> vx_tables" where
  "route_del r t = (if route_there r t then t\<lparr>vt_routes := (vt_routes t)(route_key r := None)\<rparr> else t)"

text \<open>
  \<open>acts view m must f\<close>: the call \<open>m\<close> returns; it succeeds with the effect \<open>f\<close> on the tables, or it fails
  and changes nothing; where \<open>must\<close> holds it succeeds.
\<close>

definition acts :: "('w \<Rightarrow> 't) \<Rightarrow> ('w, unit) io \<Rightarrow> ('t \<Rightarrow> bool) \<Rightarrow> ('t \<Rightarrow> 't) \<Rightarrow> bool" where
  "acts view m must f \<longleftrightarrow>
     (\<forall>w. \<exists>q w'. m w = Some (q, w') \<and>
        (q = Ok () \<and> view w' = f (view w) \<or> fails q \<and> view w' = view w \<and> \<not> must (view w)))"

lemma actsE:
  assumes "acts view m must f"
  obtains (ok) w' where "m w = Some (Ok (), w')" "view w' = f (view w)"
    | (err) e w' where "m w = Some (Err e, w')" "view w' = view w" "\<not> must (view w)"
proof -
  obtain q w' where "m w = Some (q, w')"
    "q = Ok () \<and> view w' = f (view w) \<or> fails q \<and> view w' = view w \<and> \<not> must (view w)"
    using assms unfolding acts_def by blast
  then show ?thesis using ok err by (cases q) auto
qed

text \<open>
  A retried call is a number of attempts, the first successful one being the last
  (\<open>avast/retry-go\<close>).
\<close>

fun attempts :: "nat \<Rightarrow> ('w, unit) io \<Rightarrow> ('w, unit) io" where
  "attempts 0 m = m"
| "attempts (Suc n) m = io_try m io_ret (\<lambda>_. attempts n m)"

definition retry_law :: "'w netlink \<Rightarrow> bool" where
  "retry_law nl \<longleftrightarrow>
     (\<exists>n. \<forall>m w q w'. attempts n m w = Some (q, w') \<longrightarrow>
        (\<exists>q'. nl_retry nl m w = Some (q', w') \<and> (q = Ok () \<longrightarrow> q' = Ok ()) \<and> (fails q \<longrightarrow> fails q')))"

text \<open>
  The laws of the calls. \<open>may_refuse\<close> says whether the kernel may refuse to set a neighbour entry or
  to replace a route; entries that are there can be deleted.
\<close>

definition vxlan_laws :: "'w netlink \<Rightarrow> ('w \<Rightarrow> vx_tables) \<Rightarrow> bool \<Rightarrow> bool" where
  "vxlan_laws nl view may_refuse \<longleftrightarrow> retry_law nl \<and>
     (\<forall>n. acts view (nl_NeighSet nl n) (\<lambda>_. \<not> may_refuse) (neigh_set n)) \<and>
     (\<forall>n. acts view (nl_NeighDel nl n) (neigh_there n) (neigh_del n)) \<and>
     (\<forall>r. route_ok r \<longrightarrow> acts view (nl_RouteReplace nl r) (\<lambda>_. \<not> may_refuse) (route_set r)) \<and>
     (\<forall>r. route_ok r \<longrightarrow> acts view (nl_RouteDel nl r) (route_there r) (route_del r))"

lemma vxlan_lawsD:
  assumes "vxlan_laws nl view may_refuse"
  shows "retry_law nl" "acts view (nl_NeighSet nl n) (\<lambda>_. \<not> may_refuse) (neigh_set n)"
    "acts view (nl_NeighDel nl n) (neigh_there n) (neigh_del n)"
    "route_ok r \<Longrightarrow> acts view (nl_RouteReplace nl r) (\<lambda>_. \<not> may_refuse) (route_set r)"
    "route_ok r \<Longrightarrow> acts view (nl_RouteDel nl r) (route_there r) (route_del r)"
  using assms unfolding vxlan_laws_def by blast+

lemma acts_attempts: "acts view m must f \<Longrightarrow> acts view (attempts n m) must f"
proof (induction n)
  case (Suc n)
  have IH: "acts view (attempts n m) must f" using Suc by blast
  show ?case unfolding acts_def
  proof
    fix w
    from Suc.prems show "\<exists>q w'. attempts (Suc n) m w = Some (q, w') \<and>
        (q = Ok () \<and> view w' = f (view w) \<or> fails q \<and> view w' = view w \<and> \<not> must (view w))"
    proof (cases rule: actsE [where w = w])
      case (ok w')
      then show ?thesis by simp
    next
      case (err e w')
      from IH show ?thesis
      proof (cases rule: actsE [where w = w'])
        case (ok w'')
        with err show ?thesis by simp
      next
        case (err e' w'')
        with \<open>m w = Some (Err e, w')\<close> \<open>view w' = view w\<close> show ?thesis by simp
      qed
    qed
  qed
qed simp

lemma acts_retry:
  assumes "retry_law nl" "acts view m must f"
  shows "acts view (nl_retry nl m) must f"
proof -
  obtain n where n: "\<And>m w q w'. attempts n m w = Some (q, w') \<Longrightarrow>
      \<exists>q'. nl_retry nl m w = Some (q', w') \<and> (q = Ok () \<longrightarrow> q' = Ok ()) \<and> (fails q \<longrightarrow> fails q')"
    using assms(1) unfolding retry_law_def by blast
  show ?thesis unfolding acts_def
  proof
    fix w
    show "\<exists>q w'. nl_retry nl m w = Some (q, w') \<and>
        (q = Ok () \<and> view w' = f (view w) \<or> fails q \<and> view w' = view w \<and> \<not> must (view w))"
      using acts_attempts [OF assms(2), of n]
    proof (cases rule: actsE [where w = w])
      case (ok w')
      with n [OF ok(1)] show ?thesis by auto
    next
      case (err e w')
      with n [OF err(1)] show ?thesis by auto
    qed
  qed
qed

text \<open>A call whose failure is only logged.\<close>

lemma acts_logged:
  assumes "acts view m must f"
  obtains w' where "io_logged m w = Some (Ok (), w')" "view w' = f (view w) \<or> view w' = view w"
    "must (view w) \<Longrightarrow> view w' = f (view w)"
  using assms
proof (cases rule: actsE [where w = w])
  case (ok w')
  then show ?thesis using that by (simp add: io_logged_def)
next
  case (err e w')
  then show ?thesis using that by (simp add: io_logged_def)
qed

text \<open>Deleting changes nothing where there is nothing to delete, so a logged deletion is a function.\<close>

lemma deletes_logged:
  assumes "acts view m there del" "\<And>t. \<not> there t \<Longrightarrow> del t = t"
  obtains w' where "io_logged m w = Some (Ok (), w')" "view w' = del (view w)"
proof -
  obtain w' where "io_logged m w = Some (Ok (), w')" "view w' = del (view w) \<or> view w' = view w"
    "there (view w) \<Longrightarrow> view w' = del (view w)"
    using acts_logged [OF assms(1)] by blast
  then show ?thesis using that assms(2) by (cases "there (view w)") auto
qed

section \<open>What an event does\<close>

definition lease_mac :: "Lease \<Rightarrow> HardwareAddr option" where
  "lease_mac l = (case vxlanLeaseAttrs_Unmarshal (la_BackendData (lease_Attrs l)) of Ok va \<Rightarrow> Some (vla_VtepMAC va) | _ \<Rightarrow> None)"

definition dev_index :: "vxlanDevice \<Rightarrow> int" where
  "dev_index dev = lk_Index (vx_Attrs (vd_link dev))"

definition lease_route :: "vxlanDevice \<Rightarrow> Lease \<Rightarrow> Route" where
  "lease_route dev l = onlink_route dev (IP4Net_ToIPNet (lease_Subnet l)) (IP4_ToIP (ip4_IP (lease_Subnet l)))"

definition lease_arp :: "vxlanDevice \<Rightarrow> Lease \<Rightarrow> HardwareAddr \<Rightarrow> Neigh" where
  "lease_arp dev l mac = arp_entry dev (IP4_ToIP (ip4_IP (lease_Subnet l))) mac"

definition lease_fdb :: "vxlanDevice \<Rightarrow> int \<Rightarrow> Lease \<Rightarrow> HardwareAddr \<Rightarrow> Neigh" where
  "lease_fdb dev state l mac = fdb_entry dev state (IP4_ToIP (la_PublicIP (lease_Attrs l))) mac"

text \<open>
  The tables an event should lead to: a lease adds an ARP entry from the subnet's address to the
  node's MAC address, a forwarding entry from the MAC address to the node's address, and a route
  to the subnet through the device; a removal deletes them.
\<close>

definition vx_follow :: "vxlanDevice \<Rightarrow> Event \<Rightarrow> vx_tables \<Rightarrow> vx_tables" where
  "vx_follow dev e t =
     (if la_BackendType (lease_Attrs (ev_Lease e)) \<noteq> ''vxlan'' then t
      else (case lease_mac (ev_Lease e) of
              None \<Rightarrow> t
            | Some mac \<Rightarrow>
                (case ev_Type e of
                   EventAdded \<Rightarrow>
                     route_set (lease_route dev (ev_Lease e))
                       (neigh_set (lease_fdb dev NUD_PERMANENT (ev_Lease e) mac) (neigh_set (lease_arp dev (ev_Lease e) mac) t))
                 | EventRemoved \<Rightarrow>
                     route_del (lease_route dev (ev_Lease e))
                       (neigh_del (lease_fdb dev 0 (ev_Lease e) mac) (neigh_del (lease_arp dev (ev_Lease e) mac) t)))))"

lemma ParseMAC_no_panic: "\<not> panics (ParseMAC s)"
  by (simp add: ParseMAC_def Let_def split: option.split)

lemma vxlan_no_panic: "\<not> panics (vxlanLeaseAttrs_Unmarshal d)"
  unfolding vxlanLeaseAttrs_Unmarshal_def
proof (rule json_Unmarshal_no_panic)
  fix f raw v c
  show "\<not> panics (vxlan_attrs_set f raw v c)"
    using dec_no_panic ParseMAC_no_panic by (auto simp: vxlan_attrs_set_def hardwareAddr_UnmarshalJSON_def panics_go_bind)
qed

lemma lease_route_ok: "route_ok (lease_route dev l)"
  by (simp add: route_ok_def lease_route_def onlink_route_def no_route_def IP4Net_ToIPNet_def ToIP_ok)

lemma neigh_del_fdb_set:
  "ng_Family n = AF_BRIDGE \<Longrightarrow> neigh_there n t \<Longrightarrow> ng_Family m \<noteq> AF_BRIDGE \<Longrightarrow> neigh_there n (neigh_del m t)"
  by (simp add: neigh_there_def neigh_del_def)

lemma neigh_idle: "\<not> neigh_there n t \<Longrightarrow> neigh_del n t = t" "\<not> route_there r t \<Longrightarrow> route_del r t = t"
  by (simp_all add: neigh_del_def route_del_def)

lemma neigh_families [simp]:
  "ng_Family (lease_arp dev l mac) = 0" "ng_Family (lease_fdb dev st l mac) = AF_BRIDGE"
  by (simp_all add: lease_arp_def lease_fdb_def arp_entry_def fdb_entry_def)

text \<open>The outcomes of adding a lease: complete, or given up without a trace of the new entries.\<close>

definition given_up :: "vxlanDevice \<Rightarrow> Lease \<Rightarrow> HardwareAddr \<Rightarrow> vx_tables \<Rightarrow> vx_tables \<Rightarrow> bool" where
  "given_up dev l mac t t' \<longleftrightarrow> vt_routes t' = vt_routes t \<and>
     (vt_arp t' = vt_arp t \<or> vt_arp t' = (vt_arp t)((dev_index dev, IP4_ToIP (ip4_IP (lease_Subnet l))) := None)) \<and>
     (vt_fdb t' = vt_fdb t \<or> vt_fdb t' = (vt_fdb t)((dev_index dev, mac) := None))"

lemma undo_arp: "neigh_there (lease_arp dev l mac) (neigh_set (lease_arp dev l mac) t)"
  "given_up dev l mac t (neigh_del (lease_arp dev l mac) (neigh_set (lease_arp dev l mac) t))"
  by (simp_all add: neigh_there_def neigh_set_def neigh_del_def given_up_def lease_arp_def arp_entry_def dev_index_def)

lemma undo_both:
  fixes t :: vx_tables and dev l mac
  defines "t2 \<equiv> neigh_set (lease_fdb dev NUD_PERMANENT l mac) (neigh_set (lease_arp dev l mac) t)"
  shows "neigh_there (lease_arp dev l mac) t2" "neigh_there (lease_fdb dev 0 l mac) (neigh_del (lease_arp dev l mac) t2)"
    "given_up dev l mac t (neigh_del (lease_fdb dev 0 l mac) (neigh_del (lease_arp dev l mac) t2))"
  by (simp_all add: t2_def neigh_there_def neigh_set_def neigh_del_def given_up_def lease_arp_def arp_entry_def lease_fdb_def
      fdb_entry_def dev_index_def)

lemma added4_outcome:
  assumes l: "vxlan_laws nl view may_refuse"
    and p: "vp_mac p = mac" "\<not> vp_direct p" "vp_vxlanRoute p = lease_route dev l"
  shows "\<exists>b w'. added4 nl (Some dev) l p w = Some (Ok b, w') \<and>
    (view w' = route_set (lease_route dev l) (neigh_set (lease_fdb dev NUD_PERMANENT l mac) (neigh_set (lease_arp dev l mac) (view w))) \<or>
     may_refuse \<and> given_up dev l mac (view w) (view w'))"
proof -
  note law = vxlan_lawsD [OF l]
  let ?arp = "lease_arp dev l mac" and ?fdb = "lease_fdb dev NUD_PERMANENT l mac" and ?r = "lease_route dev l"
  have ops: "AddARP nl (Some dev) (ip4_IP (lease_Subnet l)) mac = nl_NeighSet nl ?arp"
    "AddFDB nl (Some dev) (la_PublicIP (lease_Attrs l)) mac = nl_NeighSet nl ?fdb"
    "DelARP nl (Some dev) (ip4_IP (lease_Subnet l)) mac = nl_NeighDel nl ?arp"
    "DelFDB nl (Some dev) (la_PublicIP (lease_Attrs l)) mac = nl_NeighDel nl (lease_fdb dev 0 l mac)"
    by (simp_all add: AddARP_def AddFDB_def DelARP_def DelFDB_def lease_arp_def lease_fdb_def fun_eq_iff)
  note def = added4_def p ops Let_def failed_def ex_bool_eq
  note set = acts_retry [OF law(1) law(2)] and rep = acts_retry [OF law(1) law(4) [OF lease_route_ok]]
  note del = deletes_logged [OF law(3) neigh_idle(1)] deletes_logged [OF acts_retry [OF law(1) law(3)] neigh_idle(1)]
  show ?thesis
  proof (rule actsE [OF set, of ?arp w])
    fix e w1 assume "nl_retry nl (nl_NeighSet nl ?arp) w = Some (Err e, w1)" "view w1 = view w" "\<not> \<not> may_refuse"
    then show ?thesis by (simp add: def given_up_def)
  next
    fix w1 assume 1: "nl_retry nl (nl_NeighSet nl ?arp) w = Some (Ok (), w1)" "view w1 = neigh_set ?arp (view w)"
    show ?thesis
    proof (rule actsE [OF set, of ?fdb w1])
      fix e w2 assume 2: "nl_retry nl (nl_NeighSet nl ?fdb) w1 = Some (Err e, w2)" "view w2 = view w1" "\<not> \<not> may_refuse"
      obtain w3 where "io_logged (nl_retry nl (nl_NeighDel nl ?arp)) w2 = Some (Ok (), w3)" "view w3 = neigh_del ?arp (view w2)"
        by (rule del(2))
      with 1 2 undo_arp(2) [of dev l mac "view w"] show ?thesis by (simp add: def)
    next
      fix w2 assume 2: "nl_retry nl (nl_NeighSet nl ?fdb) w1 = Some (Ok (), w2)" "view w2 = neigh_set ?fdb (view w1)"
      show ?thesis
      proof (rule actsE [OF rep, of dev l w2])
        fix w3 assume "nl_retry nl (nl_RouteReplace nl ?r) w2 = Some (Ok (), w3)" "view w3 = route_set ?r (view w2)"
        with 1 2 show ?thesis by (simp add: def)
      next
        fix e w3 assume 3: "nl_retry nl (nl_RouteReplace nl ?r) w2 = Some (Err e, w3)" "view w3 = view w2" "\<not> \<not> may_refuse"
        obtain w4 where 4: "io_logged (nl_NeighDel nl ?arp) w3 = Some (Ok (), w4)" "view w4 = neigh_del ?arp (view w3)" by (rule del(1))
        obtain w5 where 5: "io_logged (nl_NeighDel nl (lease_fdb dev 0 l mac)) w4 = Some (Ok (), w5)"
          "view w5 = neigh_del (lease_fdb dev 0 l mac) (view w4)" by (rule del(1))
        from undo_both(3) [of dev l mac "view w"] 1 2 3 4 5 show ?thesis by (simp add: def)
      qed
    qed
  qed
qed

lemma removed4_outcome:
  assumes l: "vxlan_laws nl view may_refuse"
    and p: "vp_mac p = mac" "\<not> vp_direct p" "vp_vxlanRoute p = lease_route dev l"
  shows "\<exists>w'. removed4 nl (Some dev) l p w = Some (Ok (), w') \<and>
    view w' = route_del (lease_route dev l) (neigh_del (lease_fdb dev 0 l mac) (neigh_del (lease_arp dev l mac) (view w)))"
proof -
  note law = vxlan_lawsD [OF l]
  note del = deletes_logged [OF acts_retry [OF law(1) law(3)] neigh_idle(1)]
    deletes_logged [OF acts_retry [OF law(1) law(5) [OF lease_route_ok]] neigh_idle(2)]
  have ops: "DelARP nl (Some dev) (ip4_IP (lease_Subnet l)) mac = nl_NeighDel nl (lease_arp dev l mac)"
    "DelFDB nl (Some dev) (la_PublicIP (lease_Attrs l)) mac = nl_NeighDel nl (lease_fdb dev 0 l mac)"
    by (simp_all add: DelARP_def DelFDB_def lease_arp_def lease_fdb_def fun_eq_iff)
  obtain w1 where 1: "io_logged (nl_retry nl (nl_NeighDel nl (lease_arp dev l mac))) w = Some (Ok (), w1)"
    "view w1 = neigh_del (lease_arp dev l mac) (view w)" by (rule del(1))
  obtain w2 where 2: "io_logged (nl_retry nl (nl_NeighDel nl (lease_fdb dev 0 l mac))) w1 = Some (Ok (), w2)"
    "view w2 = neigh_del (lease_fdb dev 0 l mac) (view w1)" by (rule del(1))
  obtain w3 where "io_logged (nl_retry nl (nl_RouteDel nl (lease_route dev l))) w2 = Some (Ok (), w3)"
    "view w3 = route_del (lease_route dev l) (view w2)" by (rule del(2))
  with 1 2 p show ?thesis by (simp add: removed4_def ops Let_def)
qed

text \<open>The entries of a lease, spelled out.\<close>

lemmas entry_defs = lease_arp_def arp_entry_def lease_fdb_def fdb_entry_def dev_index_def lease_route_def onlink_route_def route_key_def
  net_key_def route_target_def IP4Net_ToIPNet_def To16_ToIP no_route_def subnet_dest_def

definition subnet_ip :: "Lease \<Rightarrow> net_IP" where
  "subnet_ip l = IP4_ToIP (ip4_IP (lease_Subnet l))"

definition public_ip :: "Lease \<Rightarrow> net_IP" where
  "public_ip l = IP4_ToIP (la_PublicIP (lease_Attrs l))"

lemma vx_follow_added:
  assumes "la_BackendType (lease_Attrs l) = ''vxlan''" "lease_mac l = Some mac"
  shows "vx_follow dev \<lparr>ev_Type = EventAdded, ev_Lease = l\<rparr> t =
    \<lparr>vt_arp = (vt_arp t)((dev_index dev, subnet_ip l) \<mapsto> mac), vt_fdb = (vt_fdb t)((dev_index dev, mac) \<mapsto> public_ip l),
     vt_routes = (vt_routes t)(subnet_dest l \<mapsto> Hop (subnet_ip l) (dev_index dev))\<rparr>"
  using assms by (simp add: vx_follow_def neigh_set_def route_set_def entry_defs subnet_ip_def public_ip_def)

lemma vx_follow_removed:
  assumes "la_BackendType (lease_Attrs l) = ''vxlan''" "lease_mac l = Some mac"
  shows "vx_follow dev \<lparr>ev_Type = EventRemoved, ev_Lease = l\<rparr> t =
    \<lparr>vt_arp = (vt_arp t)((dev_index dev, subnet_ip l) := None),
     vt_fdb = (if vt_fdb t (dev_index dev, mac) = Some (public_ip l) then (vt_fdb t)((dev_index dev, mac) := None) else vt_fdb t),
     vt_routes = (if vt_routes t (subnet_dest l) = Some (Hop (subnet_ip l) (dev_index dev)) then (vt_routes t)(subnet_dest l := None) else vt_routes t)\<rparr>"
  using assms
  by (simp add: vx_follow_def neigh_del_def neigh_there_def route_del_def route_there_def entry_defs subnet_ip_def public_ip_def fun_upd_idem)

definition vx_lease :: "Lease \<Rightarrow> bool" where
  "vx_lease l \<longleftrightarrow> lease_EnableIPv4 l \<and> \<not> lease_EnableIPv6 l \<and> la_PublicIPv6 (lease_Attrs l) = None"

lemma vxlan_event_outcome:
  assumes l: "vxlan_laws nl view may_refuse" and d: "vn_dev nw = Some dev" "\<not> vd_directRouting dev"
    and e: "vx_lease (ev_Lease e)"
  shows "\<exists>w'. vxlan_event nl nw e u w = Some (Ok (), w') \<and>
    (view w' = vx_follow dev e (view w) \<or>
     may_refuse \<and> ev_Type e = EventAdded \<and> (\<exists>mac. lease_mac (ev_Lease e) = Some mac \<and> given_up dev (ev_Lease e) mac (view w) (view w')))"
proof -
  let ?l = "ev_Lease e"
  have le: "lease_EnableIPv4 ?l" "\<not> lease_EnableIPv6 ?l" "la_PublicIPv6 (lease_Attrs ?l) = None" using e by (simp_all add: vx_lease_def)
  obtain s where s: "LeaseAttrs_String (lease_Attrs ?l) = Ok s" using le by (simp add: LeaseAttrs_String_def)
  have p6: "plan6 nl nw ?l = io_ret (Some no_plan)" using le by (simp add: plan6_def split: option.split)
  show ?thesis
  proof (cases "la_BackendType (lease_Attrs ?l) = ''vxlan''")
    case False
    then show ?thesis by (simp add: vxlan_event_def s vx_follow_def)
  next
    case ty: True
    show ?thesis
    proof (cases "vxlanLeaseAttrs_Unmarshal (la_BackendData (lease_Attrs ?l))")
      case (Ok va)
      define p where "p = \<lparr>vp_mac = vla_VtepMAC va, vp_direct = False,
        vp_directRoute = no_route\<lparr>rt_Dst := Some (IP4Net_ToIPNet (lease_Subnet ?l)), rt_Gw := IP4_ToIP (la_PublicIP (lease_Attrs ?l))\<rparr>,
        vp_vxlanRoute = lease_route dev ?l\<rparr>"
      have p4: "plan4 nl nw ?l w = Some (Ok (Some p), w)" for w
        using le d Ok by (simp add: plan4_def routes_directly_def p_def lease_route_def Let_def)
      have pl: "vp_mac p = vla_VtepMAC va" "\<not> vp_direct p" "vp_vxlanRoute p = lease_route dev ?l" by (simp_all add: p_def)
      have ev: "vxlan_event nl nw e u w = apply_plans nl nw e p no_plan w"
        using p4 by (simp add: vxlan_event_def s ty p6)
      have mac: "lease_mac ?l = Some (vla_VtepMAC va)" by (simp add: lease_mac_def Ok)
      show ?thesis
      proof (cases "ev_Type e")
        case EventAdded
        from added4_outcome [OF l pl, of w] obtain b w' where "added4 nl (Some dev) ?l p w = Some (Ok b, w')"
          "view w' = route_set (lease_route dev ?l) (neigh_set (lease_fdb dev NUD_PERMANENT ?l (vla_VtepMAC va)) (neigh_set (lease_arp dev ?l (vla_VtepMAC va)) (view w))) \<or>
           may_refuse \<and> given_up dev ?l (vla_VtepMAC va) (view w) (view w')" by blast
        then show ?thesis using le d ev mac ty EventAdded by (auto simp: apply_plans_def vx_follow_def Let_def)
      next
        case EventRemoved
        from removed4_outcome [OF l pl, of w] obtain w' where "removed4 nl (Some dev) ?l p w = Some (Ok (), w')"
          "view w' = route_del (lease_route dev ?l) (neigh_del (lease_fdb dev 0 ?l (vla_VtepMAC va)) (neigh_del (lease_arp dev ?l (vla_VtepMAC va)) (view w)))" by blast
        then show ?thesis using le d ev mac ty EventRemoved by (auto simp: apply_plans_def vx_follow_def Let_def)
      qed
    next
      case (Err x)
      then have "plan4 nl nw ?l w = Some (Ok None, w)" using le d by (simp add: plan4_def)
      then show ?thesis using s ty Err by (simp add: vxlan_event_def vx_follow_def lease_mac_def)
    next
      case (Panic x)
      then show ?thesis using vxlan_no_panic [of "la_BackendData (lease_Attrs ?l)"] by simp
    qed
  qed
qed

lemma vxlan_batch_follow:
  assumes l: "vxlan_laws nl view False" and d: "vn_dev nw = Some dev" "\<not> vd_directRouting dev"
    and e: "\<forall>e \<in> set batch. vx_lease (ev_Lease e)"
  shows "\<exists>w'. vn_handleSubnetEvents nl nw batch w = Some (Ok (), w') \<and> view w' = fold (vx_follow dev) batch (view w)"
  using e unfolding vn_handleSubnetEvents_def
proof (induction batch arbitrary: w)
  case (Cons e batch)
  then obtain w1 where 1: "vxlan_event nl nw e () w = Some (Ok (), w1)" "view w1 = vx_follow dev e (view w)"
    using vxlan_event_outcome [OF l d, of e "()" w] by auto
  with Cons.IH [of w1] Cons.prems show ?case by auto
qed simp

section \<open>The kernel in memory\<close>

definition k_tables :: "kern \<Rightarrow> vx_tables" where
  "k_tables w = \<lparr>vt_arp = k_arp w, vt_fdb = k_fdb w, vt_routes = k_table w\<rparr>"

lemma k_table_routes: "k_table (w\<lparr>k_arp := a\<rparr>) = k_table w" "k_table (w\<lparr>k_fdb := f\<rparr>) = k_table w"
  by (simp_all add: k_table_def fun_eq_iff)

lemma mem_vxlan_laws: "vxlan_laws mem_netlink k_tables may_refuse"
proof -
  have "retry_law mem_netlink" unfolding retry_law_def by (rule exI [of _ 0]) (simp add: mem_netlink_def)
  moreover have "acts k_tables (nl_NeighSet mem_netlink n) (\<lambda>_. \<not> may_refuse) (neigh_set n)" for n
    by (simp add: acts_def mem_netlink_def k_NeighSet_def k_tables_def neigh_set_def k_table_routes)
  moreover have "acts k_tables (nl_NeighDel mem_netlink n) (neigh_there n) (neigh_del n)" for n
    by (simp add: acts_def mem_netlink_def k_NeighDel_def k_tables_def neigh_del_def neigh_there_def k_table_routes)
  moreover have "acts k_tables (nl_RouteReplace mem_netlink r) (\<lambda>_. \<not> may_refuse) (route_set r)" for r
    by (simp add: acts_def mem_netlink_def k_RouteReplace_def k_tables_def route_set_def k_table_cons)
  moreover have "acts k_tables (nl_RouteDel mem_netlink r) (route_there r) (route_del r)" for r
    by (simp add: acts_def mem_netlink_def k_RouteDel_def k_tables_def route_del_def route_there_def k_table_del)
  ultimately show ?thesis by (simp add: vxlan_laws_def)
qed

definition vtep_mac :: HardwareAddr where "vtep_mac = [0x02, 0x42, 0xac, 0x11, 0x00, 0x05]"

definition vtep_dev :: vxlanDevice where
  "vtep_dev = \<lparr>vd_link = \<lparr>vx_Attrs = dev_attrs\<lparr>lk_HardwareAddr := vtep_mac\<rparr>, vx_VxlanId = 1, vx_VtepDevIndex = 2, vx_SrcAddr = [], vx_Group = [],
     vx_Port = 0, vx_Learning = False, vx_L2miss = False, vx_GBP = False\<rparr>, vd_directRouting = False\<rparr>"

definition vtep_net :: vxlan_network where
  "vtep_net = newNetwork demo_ei (Some vtep_dev) None (demo_lease 0x0a000100) 1500"

definition vtep_lease :: "IP4 \<Rightarrow> Lease" where
  "vtep_lease a = (demo_lease a)\<lparr>lease_Attrs := empty_attrs\<lparr>la_BackendType := ''vxlan'', la_PublicIP := 0xc0a80002,
     la_BackendData := Some (vxlanLeaseAttrs_Marshal \<lparr>vla_VNI = 1, vla_VtepMAC = vtep_mac\<rparr>)\<rparr>\<rparr>"

lemma vtep_lease_facts:
  "vx_lease (vtep_lease a)" "lease_mac (vtep_lease a) = Some vtep_mac" "la_BackendType (lease_Attrs (vtep_lease a)) = ''vxlan''"
  "vn_dev vtep_net = Some vtep_dev" "\<not> vd_directRouting vtep_dev"
proof -
  have "vxlanLeaseAttrs_Unmarshal (Some (vxlanLeaseAttrs_Marshal \<lparr>vla_VNI = 1, vla_VtepMAC = vtep_mac\<rparr>)) = Ok \<lparr>vla_VNI = 1, vla_VtepMAC = vtep_mac\<rparr>"
    by (rule vxlan_round_trip) (simp_all add: vtep_mac_def mac_length_def)
  then show "lease_mac (vtep_lease a) = Some vtep_mac" by (simp add: lease_mac_def vtep_lease_def)
qed (simp_all add: vx_lease_def vtep_lease_def demo_lease_def vtep_net_def newNetwork_def vtep_dev_def)

section \<open>Properties\<close>

text \<open>
  C36. The kernel's tables follow the leases: a VXLAN network without direct routing handles every
  batch of events of IPv4 leases, and when the kernel accepts the entries, its ARP, forwarding and
  routing tables change as the events say, one after the other, whatever they held before.
\<close>

theorem vxlan_tables_follow_leases:
  assumes "vxlan_laws nl view False" "vn_dev nw = Some dev" "\<not> vd_directRouting dev"
    "\<forall>e \<in> set batch. lease_EnableIPv4 (ev_Lease e) \<and> \<not> lease_EnableIPv6 (ev_Lease e) \<and> la_PublicIPv6 (lease_Attrs (ev_Lease e)) = None"
  shows "\<exists>w'. vn_handleSubnetEvents nl nw batch w = Some (Ok (), w') \<and> view w' = fold (vx_follow dev) batch (view w)"
  using vxlan_batch_follow [OF assms(1-3), of batch w] assms(4) by (simp add: vx_lease_def)

theorem vxlan_tables_follow_leases_witness:
  "\<exists>w'. vn_handleSubnetEvents mem_netlink vtep_net [\<lparr>ev_Type = EventAdded, ev_Lease = vtep_lease 0x0a000200\<rparr>] no_kern = Some (Ok (), w') \<and>
     k_arp w' (7, IP4_ToIP 0x0a000200) = Some vtep_mac \<and> k_fdb w' (7, vtep_mac) = Some (IP4_ToIP 0xc0a80002) \<and>
     k_table w' (Dest (IP4_ToIP 0x0a000200) (CIDRMask 24 32)) = Some (Hop (IP4_ToIP 0x0a000200) 7)"
proof -
  let ?e = "\<lparr>ev_Type = EventAdded, ev_Lease = vtep_lease 0x0a000200\<rparr>"
  have "\<forall>e \<in> set [?e]. lease_EnableIPv4 (ev_Lease e) \<and> \<not> lease_EnableIPv6 (ev_Lease e) \<and> la_PublicIPv6 (lease_Attrs (ev_Lease e)) = None"
    using vtep_lease_facts(1) by (simp add: vx_lease_def)
  from vxlan_tables_follow_leases [OF mem_vxlan_laws vtep_lease_facts(4,5) this, of no_kern]
  obtain w' where w': "vn_handleSubnetEvents mem_netlink vtep_net [?e] no_kern = Some (Ok (), w')"
    "k_tables w' = vx_follow vtep_dev ?e (k_tables no_kern)" by auto
  note tables = w'(2) [unfolded vx_follow_added [OF vtep_lease_facts(3,2)]]
  have facts: "dev_index vtep_dev = 7" "subnet_ip (vtep_lease 0x0a000200) = IP4_ToIP 0x0a000200"
    "public_ip (vtep_lease 0x0a000200) = IP4_ToIP 0xc0a80002"
    "subnet_dest (vtep_lease 0x0a000200) = Dest (IP4_ToIP 0x0a000200) (CIDRMask 24 32)"
    by (simp_all add: dev_index_def vtep_dev_def dev_attrs_def subnet_ip_def public_ip_def subnet_dest_def vtep_lease_def demo_lease_def)
  have "k_arp w' (7, IP4_ToIP 0x0a000200) = Some vtep_mac" using arg_cong [OF tables, of vt_arp] by (simp add: k_tables_def facts)
  moreover have "k_fdb w' (7, vtep_mac) = Some (IP4_ToIP 0xc0a80002)" using arg_cong [OF tables, of vt_fdb] by (simp add: k_tables_def facts)
  moreover have "k_table w' (Dest (IP4_ToIP 0x0a000200) (CIDRMask 24 32)) = Some (Hop (IP4_ToIP 0x0a000200) 7)"
    using arg_cong [OF tables, of vt_routes] by (simp add: k_tables_def facts)
  ultimately show ?thesis using w'(1) by blast
qed



text \<open>
  C40. A node that gives up one of two subnets becomes unreachable through the other: the forwarding
  entry belongs to the node's MAC address, which both leases share, and the removal of one lease
  deletes it. The route and the ARP entry of the remaining lease stay.
\<close>

theorem shared_mac_entry_lost:
  assumes "vxlan_laws nl view False" "vn_dev nw = Some dev" "\<not> vd_directRouting dev"
    "\<forall>l \<in> {old, new}. lease_EnableIPv4 l \<and> \<not> lease_EnableIPv6 l"
    "lease_Attrs new = lease_Attrs old" "la_PublicIPv6 (lease_Attrs old) = None" "la_BackendType (lease_Attrs old) = ''vxlan''"
    "lease_mac old = Some mac" "subnet_ip new \<noteq> subnet_ip old"
  shows "\<exists>w'. vn_handleSubnetEvents nl nw
      [\<lparr>ev_Type = EventAdded, ev_Lease = old\<rparr>, \<lparr>ev_Type = EventAdded, ev_Lease = new\<rparr>, \<lparr>ev_Type = EventRemoved, ev_Lease = old\<rparr>] w
      = Some (Ok (), w') \<and>
    vt_routes (view w') (subnet_dest new) = Some (Hop (subnet_ip new) (dev_index dev)) \<and>
    vt_arp (view w') (dev_index dev, subnet_ip new) = Some mac \<and> vt_fdb (view w') (dev_index dev, mac) = None"
proof -
  let ?batch = "[\<lparr>ev_Type = EventAdded, ev_Lease = old\<rparr>, \<lparr>ev_Type = EventAdded, ev_Lease = new\<rparr>, \<lparr>ev_Type = EventRemoved, ev_Lease = old\<rparr>]"
  have "\<forall>e \<in> set ?batch. vx_lease (ev_Lease e)" using assms(4-6) by (simp add: vx_lease_def)
  from vxlan_batch_follow [OF assms(1-3) this, of w]
  obtain w' where w': "vn_handleSubnetEvents nl nw ?batch w = Some (Ok (), w')" "view w' = fold (vx_follow dev) ?batch (view w)" by blast
  have new: "la_BackendType (lease_Attrs new) = ''vxlan''" "lease_mac new = Some mac" "public_ip new = public_ip old"
    using assms(5,7,8) by (simp_all add: lease_mac_def public_ip_def)
  have "subnet_dest new \<noteq> subnet_dest old" using assms(9) by (simp add: subnet_dest_def subnet_ip_def)
  then show ?thesis
    using w'(1) assms(9) by (simp add: w'(2) vx_follow_added [OF assms(7,8)] vx_follow_added [OF new(1,2)] vx_follow_removed [OF assms(7,8)] new(3))
qed

theorem shared_mac_entry_lost_witness:
  "\<exists>w'. vn_handleSubnetEvents mem_netlink vtep_net
      [\<lparr>ev_Type = EventAdded, ev_Lease = vtep_lease 0x0a000200\<rparr>, \<lparr>ev_Type = EventAdded, ev_Lease = vtep_lease 0x0a000300\<rparr>,
       \<lparr>ev_Type = EventRemoved, ev_Lease = vtep_lease 0x0a000200\<rparr>] no_kern = Some (Ok (), w') \<and>
    vt_fdb (k_tables w') (dev_index vtep_dev, vtep_mac) = None"
proof -
  have l: "\<forall>l \<in> {vtep_lease 0x0a000200, vtep_lease 0x0a000300}. lease_EnableIPv4 l \<and> \<not> lease_EnableIPv6 l"
    "lease_Attrs (vtep_lease 0x0a000300) = lease_Attrs (vtep_lease 0x0a000200)" "la_PublicIPv6 (lease_Attrs (vtep_lease 0x0a000200)) = None"
    by (simp_all add: vtep_lease_def demo_lease_def)
  have "subnet_ip (vtep_lease 0x0a000300) \<noteq> subnet_ip (vtep_lease 0x0a000200)"
    by (simp add: subnet_ip_def vtep_lease_def demo_lease_def go_eval)
  from shared_mac_entry_lost [OF mem_vxlan_laws vtep_lease_facts(4,5) l vtep_lease_facts(3,2) this, of no_kern] show ?thesis by blast
qed



definition vtep_sm :: "'w subnet_manager" where
  "vtep_sm = \<lparr>sm_AcquireLease = (\<lambda>attrs. io_ret ((demo_lease 0x0a000100)\<lparr>lease_Attrs := attrs\<rparr>)),
     sm_GetNetworkConfig = io_ret demo_config, sm_GetStoredMacAddresses = io_ret ([], [])\<rparr>"

definition vtep_host :: kern where
  "vtep_host = no_kern\<lparr>k_ifaces := [ei_Iface demo_ei],
     k_addrs := (\<lambda>i. if i = 2 then [new_addr \<lparr>ipn_IP = [192, 168, 0, 1], ipn_Mask = [255, 255, 255, 0]\<rparr>] else [])\<rparr>"

text \<open>
  Recreating the device shrinks the MTU: a network registered on an interface with MTU 1500
  reports 1450 to its containers, and 1400 once the device has been deleted and recreated,
  because the overhead is subtracted from the MTU of the device, which has it subtracted already.
\<close>

theorem recreated_mtu_shrinks:
  "\<exists>nw w nw' w'. vxlan_RegisterNetwork mem_netlink vtep_sm demo_ei demo_config vtep_host = Some (Ok nw, w) \<and> vn_MTU nw = 1450 \<and>
     reCreateVxlan (\<lambda>_. io_ret ()) mem_netlink vtep_sm nw Second [False] (w\<lparr>k_links := []\<rparr>) = Some (Ok nw', w') \<and> vn_MTU nw' = 1400"
  by (simp add: go_eval kern_eval vtep_sm_def vtep_host_def demo_config_def demo_ei_def demo_lease_def)

end
