(* ===== verification/Wireguard.thy ===== *)
theory Wireguard
  imports Hardware_Addr Route_Network
begin

text \<open>
  The WireGuard backend (\<open>pkg/backend/wireguard\<close>): the device and its keys (\<open>device.go\<close>), the
  configuration and registration (\<open>wireguard.go\<close>) and the network that keeps a peer per remote lease
  (\<open>wireguard_network.go\<close>). The \<open>wgctrl\<close> client with its keys, the files and the resolver are the fields
  of the record \<open>wgctrl\<close>; a nil device is \<open>None\<close>.
\<close>

section \<open>Clients\<close>

type_synonym wgkey = "byte list"

record UDPAddr =
  ua_IP :: net_IP
  ua_Port :: nat

record PeerConfig =
  pc_PublicKey :: wgkey
  pc_Remove :: bool
  pc_PresharedKey :: "wgkey option"
  pc_Keepalive :: "int option"
  pc_Endpoint :: "UDPAddr option"
  pc_ReplaceAllowedIPs :: bool
  pc_AllowedIPs :: "IPNet list"

record wg_Config =
  wc_PrivateKey :: "wgkey option"
  wc_ListenPort :: "int option"
  wc_ReplacePeers :: bool
  wc_Peers :: "PeerConfig list"

record 'w wgctrl =
  wg_New :: "('w, unit) io"
  wg_Close :: "('w, unit) io"
  wg_ConfigureDevice :: "string \<Rightarrow> wg_Config \<Rightarrow> ('w, unit) io"
  wg_GeneratePrivateKey :: "('w, wgkey) io"
  wg_PublicKey :: "wgkey \<Rightarrow> wgkey"
  wg_KeyString :: "wgkey \<Rightarrow> string"
  wg_ParseKey :: "string \<Rightarrow> wgkey go"
  net_ResolveUDPAddr :: "string \<Rightarrow> ('w, UDPAddr) io"
  os_LookupEnv :: "string \<Rightarrow> ('w, string option) io"
  os_Stat :: "string \<Rightarrow> ('w, unit) io"
  os_ReadFile :: "string \<Rightarrow> ('w, string) io"
  os_MkdirAll :: "string \<Rightarrow> ('w, unit) io"
  os_Create :: "string \<Rightarrow> ('w, nat) io"
  os_Chmod :: "string \<Rightarrow> ('w, unit) io"
  os_WriteString :: "nat \<Rightarrow> string \<Rightarrow> ('w, unit) io"
  os_Close :: "nat \<Rightarrow> ('w, unit) io"

section \<open>The device\<close>

record wgDeviceAttrs =
  wda_listenPort :: int
  wda_privateKey :: "wgkey option"
  wda_publicKey :: "wgkey option"
  wda_psk :: "wgkey option"
  wda_keepalive :: "int option"
  wda_name :: string
  wda_MTU :: int

record wgDevice =
  wd_link :: LinkAttrs
  wd_attrs :: wgDeviceAttrs

abbreviation wg_link :: "LinkAttrs \<Rightarrow> Link" where "wg_link a \<equiv> OtherLink a ''wireguard''"

abbreviation (input) overhead :: int where "overhead \<equiv> 80"
abbreviation (input) SCOPE_LINK :: int where "SCOPE_LINK \<equiv> 253"
abbreviation ErrNotExist :: goerror where "ErrNotExist \<equiv> Sentinel ''os.ErrNotExist''"

fun error_is :: "goerror \<Rightarrow> goerror \<Rightarrow> bool" where
  "error_is (Wrapped s e) target \<longleftrightarrow> Wrapped s e = target \<or> error_is e target"
| "error_is e target \<longleftrightarrow> e = target"

text \<open>The directory of a path, with its slash.\<close>

definition filepath_dir :: "string \<Rightarrow> string" where
  "filepath_dir path = rev (dropWhile (\<lambda>c. c \<noteq> chr_slash) (rev path))"

definition writePrivateKey :: "'w wgctrl \<Rightarrow> string \<Rightarrow> string \<Rightarrow> ('w, unit) io" where
  "writePrivateKey wc path content =
     io_bind (os_MkdirAll wc (filepath_dir path)) (\<lambda>_.
     io_bind (os_Create wc path) (\<lambda>f.
     io_bind (os_Chmod wc path) (\<lambda>_.
     io_bind (os_WriteString wc f content) (\<lambda>_.
       os_Close wc f))))"

definition with_keys :: "'w wgctrl \<Rightarrow> wgkey \<Rightarrow> wgDeviceAttrs \<Rightarrow> wgDeviceAttrs" where
  "with_keys wc k a = a\<lparr>wda_privateKey := Some k, wda_publicKey := Some (wg_PublicKey wc k)\<rparr>"

definition generate_keys :: "'w wgctrl \<Rightarrow> string \<Rightarrow> wgDeviceAttrs \<Rightarrow> ('w, wgDeviceAttrs) io" where
  "generate_keys wc keyFile a =
     io_try (wg_GeneratePrivateKey wc)
       (\<lambda>k. io_try (writePrivateKey wc keyFile (wg_KeyString wc k)) (\<lambda>_. io_ret (with_keys wc k a))
              (\<lambda>e. io_err (Wrapped ''could not write key file'' e)))
       (\<lambda>e. io_err (Wrapped ''could not generate private key'' e))"

definition read_keys :: "'w wgctrl \<Rightarrow> string \<Rightarrow> wgDeviceAttrs \<Rightarrow> ('w, wgDeviceAttrs) io" where
  "read_keys wc keyFile a =
     io_bind (os_ReadFile wc keyFile) (\<lambda>data.
       io_try (io_of (wg_ParseKey wc data)) (\<lambda>k. io_ret (with_keys wc k a))
         (\<lambda>e. io_err (Wrapped ''could not parse private key from file'' e)))"

definition setupKeys :: "'w wgctrl \<Rightarrow> string \<Rightarrow> wgDeviceAttrs \<Rightarrow> ('w, wgDeviceAttrs) io" where
  "setupKeys wc psk a0 =
     io_bind (os_LookupEnv wc ''WIREGUARD_KEY_FILE'') (\<lambda>env.
     let keyFile = (case env of None \<Rightarrow> ''/run/flannel/wgkey'' | Some f \<Rightarrow> f) in
     io_bind
       (io_try (os_Stat wc keyFile) (\<lambda>_. read_keys wc keyFile a0)
          (\<lambda>e. if error_is e ErrNotExist then generate_keys wc keyFile a0 else read_keys wc keyFile a0)) (\<lambda>a.
     if psk \<noteq> [] then
       io_try (io_of (wg_ParseKey wc psk)) (\<lambda>k. io_ret (a\<lparr>wda_psk := Some k\<rparr>)) (\<lambda>e. io_err (Wrapped ''could not parse psk'' e))
     else io_ret a))"

text \<open>Opening the client, one call, and closing it whatever the outcome.\<close>

definition configure :: "'w wgctrl \<Rightarrow> string \<Rightarrow> wg_Config \<Rightarrow> string \<Rightarrow> ('w, unit) io" where
  "configure wc name cfg msg =
     io_try (wg_New wc)
       (\<lambda>_. io_try (wg_ConfigureDevice wc name cfg)
          (\<lambda>_. io_logged (wg_Close wc))
          (\<lambda>e. io_bind (io_logged (wg_Close wc)) (\<lambda>_. io_err (Wrapped msg e))))
       (\<lambda>e. io_err (Wrapped ''failed to open wgctrl'' e))"

definition wg_ensureLink :: "'w netlink \<Rightarrow> LinkAttrs \<Rightarrow> ('w, LinkAttrs) io" where
  "wg_ensureLink nl wglan =
     io_bind
       (io_try (nl_LinkAdd nl (wg_link wglan)) io_ret
         (\<lambda>e. if e = EEXIST then
                io_bind (nl_LinkByName nl (lk_Name wglan)) (\<lambda>existing.
                io_bind (nl_LinkDel nl existing) (\<lambda>_.
                io_try (nl_LinkAdd nl (wg_link wglan)) io_ret (\<lambda>e'. io_err (Wrapped ''could not create wireguard interface'' e'))))
              else io_err (Wrapped ''could not create wireguard interface'' e))) (\<lambda>link.
     io_try (nl_LinkByIndex nl (lk_Index (Link_Attrs link))) (\<lambda>_. io_ret (Link_Attrs link))
       (\<lambda>e. io_err (Wrapped ''can't locate created wireguard device'' e)))"

definition newWGDevice :: "'w netlink \<Rightarrow> 'w wgctrl \<Rightarrow> wgDeviceAttrs \<Rightarrow> ('w, wgDevice) io" where
  "newWGDevice nl wc devAttrs =
     io_bind (wg_ensureLink nl \<lparr>lk_Index = 0, lk_MTU = wda_MTU devAttrs - overhead, lk_Name = wda_name devAttrs, lk_HardwareAddr = []\<rparr>) (\<lambda>link.
     io_bind (configure wc (wda_name devAttrs)
        \<lparr>wc_PrivateKey = wda_privateKey devAttrs, wc_ListenPort = Some (wda_listenPort devAttrs), wc_ReplacePeers = True, wc_Peers = []\<rparr>
        ''failed to configure device'') (\<lambda>_.
       io_ret \<lparr>wd_link = link, wd_attrs = devAttrs\<rparr>))"

definition wgDevice_remove :: "'w netlink \<Rightarrow> wgDevice \<Rightarrow> ('w, unit) io" where
  "wgDevice_remove nl dev =
     io_try (nl_LinkDel nl (wg_link (wd_link dev))) io_ret (\<lambda>e. io_err (Wrapped ''could not remove wireguard device'' e))"

definition wg_addRoute :: "'w netlink \<Rightarrow> wgDevice option \<Rightarrow> IPNet \<Rightarrow> ('w, unit) io" where
  "wg_addRoute nl d dst =
     io_bind (io_of (deref d)) (\<lambda>dev.
       io_try (nl_RouteReplace nl (no_route\<lparr>rt_LinkIndex := lk_Index (wd_link dev), rt_Scope := SCOPE_LINK, rt_Dst := Some dst\<rparr>)) io_ret
         (\<lambda>e. io_err (Wrapped (''failed to add route '' @ wda_name (wd_attrs dev)) e)))"

definition upAndAddRoute :: "'w netlink \<Rightarrow> wgDevice \<Rightarrow> IPNet \<Rightarrow> ('w, unit) io" where
  "upAndAddRoute nl dev dst =
     io_try (nl_LinkSetUp nl (wg_link (wd_link dev)))
       (\<lambda>_. io_try (wg_addRoute nl (Some dev) dst) io_ret (\<lambda>e. io_err (Wrapped ''failed to add route to destination'' e)))
       (\<lambda>e. io_err (Wrapped (''failed to set interface '' @ wda_name (wd_attrs dev) @ '' to UP state'') e))"

definition wg_Configure :: "'w netlink \<Rightarrow> wgDevice option \<Rightarrow> IP4 \<Rightarrow> IP4Net \<Rightarrow> ('w, unit) io" where
  "wg_Configure nl d devIP flannelnet =
     io_bind (io_of (deref d)) (\<lambda>dev.
       io_try (EnsureV4AddressOnLink nl \<lparr>ip4_IP = devIP, ip4_PrefixLen = 32\<rparr> flannelnet (wd_link dev))
         (\<lambda>_. io_try (upAndAddRoute nl dev (IP4Net_ToIPNet flannelnet)) io_ret (\<lambda>e. io_err (Wrapped ''failed to set up the route'' e)))
         (\<lambda>e. io_err (Wrapped (''failed to ensure address of interface '' @ wda_name (wd_attrs dev)) e)))"

definition wg_ConfigureV6 :: "'w netlink \<Rightarrow> wgDevice option \<Rightarrow> IP6ptr \<Rightarrow> IP6Net \<Rightarrow> ('w, unit) io" where
  "wg_ConfigureV6 nl d devIP flannelnet =
     io_bind (io_of (deref d)) (\<lambda>dev.
       io_try (EnsureV6AddressOnLink nl \<lparr>ip6_IP = devIP, ip6_PrefixLen = 128\<rparr> flannelnet (wd_link dev))
         (\<lambda>_. io_bind (io_of (IP6Net_ToIPNet flannelnet)) (\<lambda>dst.
            io_try (upAndAddRoute nl dev dst) io_ret (\<lambda>e. io_err (Wrapped ''failed to set up the route'' e))))
         (\<lambda>e. io_err (Wrapped (''failed to ensure address of interface '' @ wda_name (wd_attrs dev)) e)))"

text \<open>The endpoint and the key are read before the device is dereferenced.\<close>

definition addPeer :: "'w wgctrl \<Rightarrow> wgDevice option \<Rightarrow> string \<Rightarrow> string \<Rightarrow> IPNet list \<Rightarrow> ('w, unit) io" where
  "addPeer wc d publicEndpoint peerPublicKeyRaw peerSubnets =
     io_try (net_ResolveUDPAddr wc publicEndpoint)
       (\<lambda>udpEndpoint. io_try (io_of (wg_ParseKey wc peerPublicKeyRaw))
          (\<lambda>peerPublicKey. io_bind (io_of (deref d)) (\<lambda>dev.
             configure wc (wda_name (wd_attrs dev))
               \<lparr>wc_PrivateKey = wda_privateKey (wd_attrs dev), wc_ListenPort = Some (wda_listenPort (wd_attrs dev)), wc_ReplacePeers = False,
                wc_Peers = [\<lparr>pc_PublicKey = peerPublicKey, pc_Remove = False, pc_PresharedKey = wda_psk (wd_attrs dev),
                  pc_Keepalive = wda_keepalive (wd_attrs dev), pc_Endpoint = Some udpEndpoint, pc_ReplaceAllowedIPs = True,
                  pc_AllowedIPs = peerSubnets\<rparr>]\<rparr>
               ''failed to configure device''))
          (\<lambda>e. io_err (Wrapped ''failed to parse publicKey'' e)))
       (\<lambda>e. io_err (Wrapped ''failed to resolve UDP address'' e))"

definition removePeer :: "'w wgctrl \<Rightarrow> wgDevice option \<Rightarrow> string \<Rightarrow> ('w, unit) io" where
  "removePeer wc d peerPublicKeyRaw =
     io_try (io_of (wg_ParseKey wc peerPublicKeyRaw))
       (\<lambda>peerPublicKey.
          io_try (wg_New wc)
            (\<lambda>_. io_bind (io_of (deref d)) (\<lambda>dev.
               io_try (wg_ConfigureDevice wc (wda_name (wd_attrs dev))
                   \<lparr>wc_PrivateKey = None, wc_ListenPort = None, wc_ReplacePeers = False,
                    wc_Peers = [\<lparr>pc_PublicKey = peerPublicKey, pc_Remove = True, pc_PresharedKey = None, pc_Keepalive = None,
                      pc_Endpoint = None, pc_ReplaceAllowedIPs = False, pc_AllowedIPs = []\<rparr>]\<rparr>)
                 (\<lambda>_. io_logged (wg_Close wc))
                 (\<lambda>e. io_bind (io_logged (wg_Close wc)) (\<lambda>_. io_err (Wrapped ''failed to remove peer'' e)))))
            (\<lambda>e. io_err (Wrapped ''failed to open wgctrl'' e)))
       (\<lambda>e. io_err (Wrapped ''failed to parse publicKey'' e))"

lemmas [go_eval] =
  filepath_dir_def writePrivateKey_def with_keys_def generate_keys_def read_keys_def setupKeys_def configure_def wg_ensureLink_def
  newWGDevice_def wgDevice_remove_def wg_addRoute_def upAndAddRoute_def wg_Configure_def wg_ConfigureV6_def addPeer_def removePeer_def

section \<open>The attributes of a lease\<close>

record wireguardLeaseAttrs =
  wla_PublicKey :: string
  wla_Port :: nat

definition no_wireguardLeaseAttrs :: wireguardLeaseAttrs where
  "no_wireguardLeaseAttrs = \<lparr>wla_PublicKey = [], wla_Port = 0\<rparr>"

definition wireguardLeaseAttrs_Marshal :: "wireguardLeaseAttrs \<Rightarrow> string" where
  "wireguardLeaseAttrs_Marshal a = json_object [(''PublicKey'', json_quote (wla_PublicKey a)), (''Port'', nat_dec (wla_Port a))]"

definition wg_attrs_set :: "string \<Rightarrow> string \<Rightarrow> json \<Rightarrow> wireguardLeaseAttrs \<Rightarrow> wireguardLeaseAttrs go" where
  "wg_attrs_set f raw v a =
     (if f = ''PublicKey'' then go_bind (dec_string (wla_PublicKey a) v) (\<lambda>s. Ok (a\<lparr>wla_PublicKey := s\<rparr>))
      else go_bind (dec_uint 16 (wla_Port a) v) (\<lambda>n. Ok (a\<lparr>wla_Port := n\<rparr>)))"

text \<open>Data of length zero is not decoded.\<close>

definition wg_decode :: "string option \<Rightarrow> wireguardLeaseAttrs \<Rightarrow> wireguardLeaseAttrs go" where
  "wg_decode data a =
     (case data of
        None \<Rightarrow> Ok a
      | Some s \<Rightarrow> if s = [] then Ok a else json_Unmarshal [''PublicKey'', ''Port''] wg_attrs_set s a)"

definition uint16 :: "int \<Rightarrow> nat" where
  "uint16 n = nat (n mod 65536)"

definition wg_newSubnetAttrs :: "net_IP \<Rightarrow> net_IP \<Rightarrow> bool \<Rightarrow> bool \<Rightarrow> string \<Rightarrow> nat \<Rightarrow> nat \<Rightarrow> LeaseAttrs go" where
  "wg_newSubnetAttrs publicIP publicIPv6 enableIPv4 enableIPv6 publicKey v4Port v6Port =
     (let v4Data = wireguardLeaseAttrs_Marshal \<lparr>wla_PublicKey = publicKey, wla_Port = v4Port\<rparr>;
          v6Data = wireguardLeaseAttrs_Marshal \<lparr>wla_PublicKey = publicKey, wla_Port = v6Port\<rparr> in
      go_bind (if publicIP \<noteq> [] then FromIP publicIP else Ok 0) (\<lambda>ip.
      go_bind (if publicIPv6 \<noteq> [] then go_bind (FromIP6 publicIPv6) (\<lambda>v. Ok (Some v)) else Ok None) (\<lambda>ip6.
        Ok \<lparr>la_PublicIP = ip, la_PublicIPv6 = ip6, la_BackendType = ''wireguard'',
            la_BackendData = (if enableIPv4 then Some v4Data else None),
            la_BackendV6Data = (if enableIPv6 then Some v6Data else None)\<rparr>)))"

section \<open>Configuration and registration\<close>

abbreviation Separate :: string where "Separate \<equiv> ''separate''"
abbreviation Auto :: string where "Auto \<equiv> ''auto''"
abbreviation Ipv4 :: string where "Ipv4 \<equiv> ''ipv4''"
abbreviation Ipv6 :: string where "Ipv6 \<equiv> ''ipv6''"

record wg_backend_config =
  wbc_ListenPort :: int
  wbc_ListenPortV6 :: int
  wbc_MTU :: int
  wbc_PSK :: string
  wbc_Keepalive :: int
  wbc_Mode :: string

definition wg_config_set :: "string \<Rightarrow> string \<Rightarrow> json \<Rightarrow> wg_backend_config \<Rightarrow> wg_backend_config go" where
  "wg_config_set f raw v c =
     (if f = ''ListenPort'' then go_bind (dec_int 64 (wbc_ListenPort c) v) (\<lambda>n. Ok (c\<lparr>wbc_ListenPort := n\<rparr>))
      else if f = ''ListenPortV6'' then go_bind (dec_int 64 (wbc_ListenPortV6 c) v) (\<lambda>n. Ok (c\<lparr>wbc_ListenPortV6 := n\<rparr>))
      else if f = ''MTU'' then go_bind (dec_int 64 (wbc_MTU c) v) (\<lambda>n. Ok (c\<lparr>wbc_MTU := n\<rparr>))
      else if f = ''PSK'' then go_bind (dec_string (wbc_PSK c) v) (\<lambda>s. Ok (c\<lparr>wbc_PSK := s\<rparr>))
      else if f = ''PersistentKeepaliveInterval'' then go_bind (dec_int 64 (wbc_Keepalive c) v) (\<lambda>n. Ok (c\<lparr>wbc_Keepalive := n\<rparr>))
      else go_bind (dec_string (wbc_Mode c) v) (\<lambda>s. Ok (c\<lparr>wbc_Mode := s\<rparr>)))"

definition wg_parse_config :: "string \<Rightarrow> int \<Rightarrow> wg_backend_config go" where
  "wg_parse_config backend mtu =
     (let cfg = \<lparr>wbc_ListenPort = 51820, wbc_ListenPortV6 = 51821, wbc_MTU = mtu, wbc_PSK = [], wbc_Keepalive = 0, wbc_Mode = Separate\<rparr> in
      if length backend > 0 then
        json_Unmarshal [''ListenPort'', ''ListenPortV6'', ''MTU'', ''PSK'', ''PersistentKeepaliveInterval'', ''Mode''] wg_config_set backend cfg
      else Ok cfg)"

definition createWGDev :: "'w netlink \<Rightarrow> 'w wgctrl \<Rightarrow> string \<Rightarrow> string \<Rightarrow> int \<Rightarrow> int \<Rightarrow> int \<Rightarrow> ('w, wgDevice) io" where
  "createWGDev nl wc name psk keepalive listenPort mtu =
     io_bind (setupKeys wc psk
       \<lparr>wda_listenPort = listenPort, wda_privateKey = None, wda_publicKey = None, wda_psk = None, wda_keepalive = Some keepalive,
        wda_name = name, wda_MTU = mtu\<rparr>) (newWGDevice nl wc)"

definition public_key :: "'w wgctrl \<Rightarrow> wgDevice \<Rightarrow> string go" where
  "public_key wc dev = go_bind (deref (wda_publicKey (wd_attrs dev))) (\<lambda>k. Ok (wg_KeyString wc k))"

definition create_devices ::
  "'w netlink \<Rightarrow> 'w wgctrl \<Rightarrow> wg_backend_config \<Rightarrow> Config \<Rightarrow> ('w, wgDevice option \<times> wgDevice option \<times> string) io" where
  "create_devices nl wc cfg config =
     (let keepalive = seconds (wbc_Keepalive cfg);
          create = (\<lambda>name port. createWGDev nl wc name (wbc_PSK cfg) keepalive port (wbc_MTU cfg)) in
      if wbc_Mode cfg = Separate then
        io_bind
          (if cfg_EnableIPv4 config then
             io_bind (create ''flannel-wg'' (wbc_ListenPort cfg)) (\<lambda>dev.
             io_bind (io_of (public_key wc dev)) (\<lambda>k. io_ret (Some dev, k)))
           else io_ret (None, [])) (\<lambda>(dev, k4).
        if cfg_EnableIPv6 config then
          io_bind (create ''flannel-wg-v6'' (wbc_ListenPortV6 cfg)) (\<lambda>v6Dev.
          io_bind (io_of (public_key wc v6Dev)) (\<lambda>k. io_ret (dev, Some v6Dev, k)))
        else io_ret (dev, None, k4))
      else if wbc_Mode cfg = Auto \<or> wbc_Mode cfg = Ipv4 \<or> wbc_Mode cfg = Ipv6 then
        io_bind (create ''flannel-wg'' (wbc_ListenPort cfg)) (\<lambda>dev.
        io_bind (io_of (public_key wc dev)) (\<lambda>k. io_ret (Some dev, None, k)))
      else io_err (ErrorString ''no valid Mode configured''))"

record wg_network =
  wn_dev :: "wgDevice option"
  wn_v6Dev :: "wgDevice option"
  wn_extIface :: ExternalInterface
  wn_mode :: string
  wn_lease :: Lease
  wn_mtu :: int

definition wg_newNetwork ::
  "ExternalInterface \<Rightarrow> wgDevice option \<Rightarrow> wgDevice option \<Rightarrow> string \<Rightarrow> Lease \<Rightarrow> int \<Rightarrow> wg_network" where
  "wg_newNetwork ei dev v6Dev mode l mtu =
     \<lparr>wn_dev = dev, wn_v6Dev = v6Dev, wn_extIface = ei, wn_mode = mode, wn_lease = l, wn_mtu = mtu\<rparr>"

definition wn_MTU :: "wg_network \<Rightarrow> int" where
  "wn_MTU n = wn_mtu n - overhead"

definition configure_wg :: "'w netlink \<Rightarrow> Config \<Rightarrow> string \<Rightarrow> wgDevice option \<Rightarrow> wgDevice option \<Rightarrow> Lease \<Rightarrow> ('w, unit) io" where
  "configure_wg nl config mode dev v6Dev l =
     io_bind
       (if cfg_EnableIPv4 config then
          (if IP4Net_Empty (lease_Subnet l) then
             io_err (ErrorString ''failed to configure wg interface: IPv4 is enabled but the lease has no IPv4'')
           else wg_Configure nl dev (ip4_IP (lease_Subnet l)) (cfg_Network config))
        else io_ret ()) (\<lambda>_.
     if cfg_EnableIPv6 config then
       (if IP6Net_Empty (lease_IPv6Subnet l) then
          io_err (ErrorString ''failed to configure wg interface: IPv6 is enabled but the lease has no IPv6'')
        else wg_ConfigureV6 nl (if mode = Separate then v6Dev else dev) (ip6_IP (lease_IPv6Subnet l)) (cfg_IPv6Network config))
     else io_ret ())"

definition wg_RegisterNetwork ::
  "'w netlink \<Rightarrow> 'w wgctrl \<Rightarrow> 'w subnet_manager \<Rightarrow> ExternalInterface \<Rightarrow> Config \<Rightarrow> ('w, wg_network) io" where
  "wg_RegisterNetwork nl wc sm ei config =
     io_try (io_of (wg_parse_config (cfg_Backend config) (if_MTU (ei_Iface ei))))
       (\<lambda>cfg.
          io_bind (create_devices nl wc cfg config) (\<lambda>(dev, v6Dev, publicKey).
          io_bind (io_of (wg_newSubnetAttrs (ei_ExtAddr ei) (ei_ExtV6Addr ei) (cfg_EnableIPv4 config) (cfg_EnableIPv6 config) publicKey
             (uint16 (wbc_ListenPort cfg)) (uint16 (wbc_ListenPortV6 cfg)))) (\<lambda>subnetAttrs.
          io_bind (acquire_or_fail sm subnetAttrs) (\<lambda>l.
          io_bind (configure_wg nl config (wbc_Mode cfg) dev v6Dev l) (\<lambda>_.
            io_ret (wg_newNetwork ei dev v6Dev (wbc_Mode cfg) l (wbc_MTU cfg)))))))
       (\<lambda>e. io_err (Wrapped ''error decoding backend config'' e))"

lemmas [go_eval] =
  no_wireguardLeaseAttrs_def wireguardLeaseAttrs_Marshal_def wg_attrs_set_def wg_decode_def uint16_def wg_newSubnetAttrs_def
  wg_config_set_def wg_parse_config_def createWGDev_def public_key_def create_devices_def wg_newNetwork_def wn_MTU_def
  configure_wg_def wg_RegisterNetwork_def

section \<open>Events\<close>

definition selectMode :: "wg_network \<Rightarrow> IP4 \<Rightarrow> IP6ptr \<Rightarrow> string go" where
  "selectMode n ip4 ip6 =
     (if ip6 = None then Ok Ipv4
      else if \<not> IP4_IsPrivate ip4 \<and> ei_ExtAddr (wn_extIface n) \<noteq> [] then Ok Ipv4
      else
        go_bind (IP6_IsPrivate ip6) (\<lambda>private.
          if private \<or> ei_ExtV6Addr (wn_extIface n) = [] then Ok Ipv4
          else
            go_bind (FromIP6 (ei_ExtV6Addr (wn_extIface n))) (\<lambda>own.
            go_bind (IP6_IsPrivate (Some own)) (\<lambda>own_private.
              Ok (if own_private then Ipv4 else Ipv6)))))"

definition or_listen_port :: "nat \<Rightarrow> wgDevice option \<Rightarrow> nat" where
  "or_listen_port port d =
     (case d of None \<Rightarrow> port | Some dev \<Rightarrow> if port = 0 then uint16 (wda_listenPort (wd_attrs dev)) else port)"

text \<open>The network configuration is used even when it could not be read.\<close>

definition network_config :: "'w subnet_manager \<Rightarrow> ('w, Config option) io" where
  "network_config sm = io_try (sm_GetNetworkConfig sm) (\<lambda>c. io_ret (Some c)) (\<lambda>_. io_ret None)"

definition add_v4_peer ::
  "'w netlink \<Rightarrow> 'w wgctrl \<Rightarrow> 'w subnet_manager \<Rightarrow> wgDevice option \<Rightarrow> string \<Rightarrow> string \<Rightarrow> IP4Net \<Rightarrow> ('w, unit) io" where
  "add_v4_peer nl wc sm dev endpoint key sn =
     io_bind (io_logged (addPeer wc dev endpoint key [IP4Net_ToIPNet sn])) (\<lambda>_.
     io_bind (network_config sm) (\<lambda>netconf.
     io_bind (io_of (deref netconf)) (\<lambda>c.
       io_logged (wg_addRoute nl dev (IP4Net_ToIPNet (cfg_Network c))))))"

definition add_v6_peer ::
  "'w netlink \<Rightarrow> 'w wgctrl \<Rightarrow> 'w subnet_manager \<Rightarrow> wgDevice option \<Rightarrow> string \<Rightarrow> string \<Rightarrow> IP6Net \<Rightarrow> ('w, unit) io" where
  "add_v6_peer nl wc sm dev endpoint key sn =
     io_bind (io_of (IP6Net_ToIPNet sn)) (\<lambda>allowed.
     io_bind (io_logged (addPeer wc dev endpoint key [allowed])) (\<lambda>_.
     io_bind (network_config sm) (\<lambda>netconf.
     io_bind (io_of (deref netconf)) (\<lambda>c.
     io_bind (io_of (IP6Net_ToIPNet (cfg_IPv6Network c))) (\<lambda>dst.
       io_logged (wg_addRoute nl dev dst))))))"

definition add_joint_peer ::
  "'w netlink \<Rightarrow> 'w wgctrl \<Rightarrow> 'w subnet_manager \<Rightarrow> wgDevice option \<Rightarrow> string \<Rightarrow> string \<Rightarrow> IPNet list \<Rightarrow> ('w, unit) io" where
  "add_joint_peer nl wc sm dev endpoint key subnets =
     io_bind (io_logged (addPeer wc dev endpoint key subnets)) (\<lambda>_.
     io_bind (network_config sm) (\<lambda>netconf.
     io_bind (io_of (deref netconf)) (\<lambda>c.
     io_bind (io_logged (wg_addRoute nl dev (IP4Net_ToIPNet (cfg_Network c)))) (\<lambda>_.
     io_bind (io_of (IP6Net_ToIPNet (cfg_IPv6Network c))) (\<lambda>dst.
       io_logged (wg_addRoute nl dev dst))))))"

definition v4_endpoint :: "IP4 \<Rightarrow> nat \<Rightarrow> string" where
  "v4_endpoint ip port = IP4_String ip @ '':'' @ nat_dec port"

definition v6_endpoint :: "IP6ptr \<Rightarrow> nat \<Rightarrow> string go" where
  "v6_endpoint p port =
     (case p of
        None \<Rightarrow> Ok []
      | Some v \<Rightarrow> go_bind (IP6_String v) (\<lambda>s. Ok (''['' @ s @ '']:'' @ nat_dec port)))"

definition wg_added :: "'w netlink \<Rightarrow> 'w wgctrl \<Rightarrow> 'w subnet_manager \<Rightarrow> wg_network \<Rightarrow> Lease \<Rightarrow> ('w, unit) io" where
  "wg_added nl wc sm n l =
     (let at = lease_Attrs l; none = no_wireguardLeaseAttrs in
      io_try (io_of (if lease_EnableIPv4 l then wg_decode (la_BackendData at) none else Ok none)) (\<lambda>v4.
      io_try (io_of (if lease_EnableIPv6 l then wg_decode (la_BackendV6Data at) none else Ok none)) (\<lambda>v6.
      io_bind (io_of (if lease_EnableIPv6 l then go_bind (IP6Net_ToIPNet (lease_IPv6Subnet l)) (\<lambda>x. Ok [x]) else Ok [])) (\<lambda>subnets6.
      io_bind (io_of (v6_endpoint (la_PublicIPv6 at) (or_listen_port (wla_Port v6) (wn_v6Dev n)))) (\<lambda>v6PeerEndpoint.
      let v4PeerEndpoint = v4_endpoint (la_PublicIP at) (or_listen_port (wla_Port v4) (wn_dev n));
          subnets = (if lease_EnableIPv4 l then [IP4Net_ToIPNet (lease_Subnet l)] else []) @ subnets6;
          wireguardAttrs = (if lease_EnableIPv6 l then v6 else v4) in
      if wn_mode n = Separate then
        io_bind (if lease_EnableIPv4 l then add_v4_peer nl wc sm (wn_dev n) v4PeerEndpoint (wla_PublicKey v4) (lease_Subnet l) else io_ret ()) (\<lambda>_.
          if lease_EnableIPv6 l then add_v6_peer nl wc sm (wn_v6Dev n) v6PeerEndpoint (wla_PublicKey v6) (lease_IPv6Subnet l) else io_ret ())
      else
        io_bind (io_of (if wn_mode n \<noteq> Ipv4 \<and> wn_mode n \<noteq> Ipv6 then selectMode n (la_PublicIP at) (la_PublicIPv6 at) else Ok (wn_mode n))) (\<lambda>mode.
          add_joint_peer nl wc sm (wn_dev n) (if mode = Ipv4 then v4PeerEndpoint else v6PeerEndpoint) (wla_PublicKey wireguardAttrs) subnets))))
        (\<lambda>_. io_ret ()))
        (\<lambda>_. io_ret ()))"

text \<open>The attributes of the second family are decoded over those of the first.\<close>

definition wg_removed :: "'w wgctrl \<Rightarrow> wg_network \<Rightarrow> Lease \<Rightarrow> ('w, unit) io" where
  "wg_removed wc n l =
     (let at = lease_Attrs l; v4 = lease_EnableIPv4 l \<and> wn_dev n \<noteq> None in
      io_try (io_of (if v4 then wg_decode (la_BackendData at) no_wireguardLeaseAttrs else Ok no_wireguardLeaseAttrs)) (\<lambda>a4.
      io_bind (if v4 then io_logged (removePeer wc (wn_dev n) (wla_PublicKey a4)) else io_ret ()) (\<lambda>_.
      if lease_EnableIPv6 l then
        io_try (io_of (wg_decode (la_BackendV6Data at) a4))
          (\<lambda>a. io_logged (removePeer wc (if wn_mode n = Separate \<and> wn_v6Dev n \<noteq> None then wn_v6Dev n else wn_dev n) (wla_PublicKey a)))
          (\<lambda>_. io_ret ())
      else io_ret ()))
        (\<lambda>_. io_ret ()))"

definition wg_event :: "'w netlink \<Rightarrow> 'w wgctrl \<Rightarrow> 'w subnet_manager \<Rightarrow> wg_network \<Rightarrow> Event \<Rightarrow> ('w, unit) io" where
  "wg_event nl wc sm n e =
     (if la_BackendType (lease_Attrs (ev_Lease e)) \<noteq> ''wireguard'' then io_ret ()
      else (case ev_Type e of EventAdded \<Rightarrow> wg_added nl wc sm n (ev_Lease e) | EventRemoved \<Rightarrow> wg_removed wc n (ev_Lease e)))"

definition wn_handleSubnetEvents :: "'w netlink \<Rightarrow> 'w wgctrl \<Rightarrow> 'w subnet_manager \<Rightarrow> wg_network \<Rightarrow> Event list \<Rightarrow> ('w, unit) io" where
  "wn_handleSubnetEvents nl wc sm n batch = io_fold (\<lambda>e _. wg_event nl wc sm n e) batch ()"

text \<open>Run over the batches that the watch delivers.\<close>

definition wn_Run :: "'w netlink \<Rightarrow> 'w wgctrl \<Rightarrow> 'w subnet_manager \<Rightarrow> wg_network \<Rightarrow> Event list list \<Rightarrow> ('w, unit) io" where
  "wn_Run nl wc sm n batches = io_fold (\<lambda>b _. wn_handleSubnetEvents nl wc sm n b) batches ()"

lemmas [go_eval] =
  selectMode_def or_listen_port_def network_config_def add_v4_peer_def add_v6_peer_def add_joint_peer_def v4_endpoint_def
  v6_endpoint_def wg_added_def wg_removed_def wg_event_def wn_handleSubnetEvents_def wn_Run_def

end
