(* ===== verification/Wireguard_Peers.thy ===== *)
theory Wireguard_Peers
  imports Wireguard
begin

text \<open>
  The peers of a WireGuard device follow the leases. The laws say how the device's table of
  peers changes: an allowed network belongs to one peer only, the last that was configured with it.
\<close>

section \<open>Published attributes are read back\<close>

definition wg_members :: "wireguardLeaseAttrs \<Rightarrow> (string \<times> string \<times> json) list" where
  "wg_members a = [(''PublicKey'', json_quote (wla_PublicKey a), JStr (wla_PublicKey a)),
     (''Port'', nat_dec (wla_Port a), JNum (nat_dec (wla_Port a)))]"

lemma json_reads_wg: "json_reads (wireguardLeaseAttrs_Marshal a) (JObj (wg_members a))"
proof -
  have "json_reads (json_object (map (\<lambda>(n, raw, v). (n, raw)) (wg_members a))) (JObj (wg_members a))"
    by (rule json_reads_object) (auto simp: wg_members_def json_reads_nat json_reads_quote)
  then show ?thesis by (simp add: wireguardLeaseAttrs_Marshal_def wg_members_def)
qed

lemma wg_round_trip:
  assumes "wla_Port a < 65536"
  shows "wg_decode (Some (wireguardLeaseAttrs_Marshal a)) b = Ok a"
proof -
  have "ParseUint 16 (nat_dec (wla_Port a)) = Some (wla_Port a)" using assms ParseUint_nat_dec by simp
  moreover have "wireguardLeaseAttrs_Marshal a \<noteq> []" by (simp add: wireguardLeaseAttrs_Marshal_def json_object_def)
  ultimately show ?thesis using json_parse_reads [OF json_reads_wg [of a]]
    by (simp add: wg_decode_def json_Unmarshal_def wg_members_def field_of_def wg_attrs_set_def)
qed

section \<open>The laws\<close>

type_synonym peers = "wgkey \<Rightarrow> (UDPAddr option \<times> IPNet list) option"

definition move_allowed :: "wgkey \<Rightarrow> IPNet list \<Rightarrow> peers \<Rightarrow> peers" where
  "move_allowed k nets P = (\<lambda>k'. if k' = k then P k' else map_option (\<lambda>(e, a). (e, filter (\<lambda>x. x \<notin> set nets) a)) (P k'))"

definition wg_apply :: "PeerConfig \<Rightarrow> peers \<Rightarrow> peers" where
  "wg_apply c P =
     (let k = pc_PublicKey c in
      if pc_Remove c then P(k := None)
      else
        let old = (case P k of None \<Rightarrow> (None, []) | Some x \<Rightarrow> x);
            ep = (case pc_Endpoint c of None \<Rightarrow> fst old | Some e \<Rightarrow> Some e);
            nets = (if pc_ReplaceAllowedIPs c then [] else snd old) @ pc_AllowedIPs c in
        (move_allowed k (pc_AllowedIPs c) P)(k \<mapsto> (ep, nets)))"

definition wg_laws :: "'w netlink \<Rightarrow> 'w wgctrl \<Rightarrow> 'w subnet_manager \<Rightarrow> ('w \<Rightarrow> string \<Rightarrow> peers) \<Rightarrow> bool" where
  "wg_laws nl wc sm view \<longleftrightarrow>
     (\<forall>name cfg w. \<exists>w'. wg_ConfigureDevice wc name cfg w = Some (Ok (), w') \<and>
        view w' = (view w)(name := fold wg_apply (wc_Peers cfg) (if wc_ReplacePeers cfg then Map.empty else view w name))) \<and>
     (\<forall>w. \<exists>w'. wg_New wc w = Some (Ok (), w') \<and> view w' = view w) \<and>
     (\<forall>w. \<exists>q w'. wg_Close wc w = Some (q, w') \<and> (q = Ok () \<or> fails q) \<and> view w' = view w) \<and>
     (\<forall>k. wg_ParseKey wc (wg_KeyString wc k) = Ok k) \<and>
     (\<forall>ip port w. port < 65536 \<longrightarrow>
        (\<exists>w'. net_ResolveUDPAddr wc (v4_endpoint ip port) w = Some (Ok \<lparr>ua_IP = IP4_ToIP ip, ua_Port = port\<rparr>, w') \<and> view w' = view w)) \<and>
     (\<forall>r w. \<exists>q w'. nl_RouteReplace nl r w = Some (q, w') \<and> (q = Ok () \<or> fails q) \<and> view w' = view w)"

lemma wg_lawsD:
  assumes "wg_laws nl wc sm view"
  shows "\<exists>w'. wg_ConfigureDevice wc name cfg w = Some (Ok (), w') \<and>
        view w' = (view w)(name := fold wg_apply (wc_Peers cfg) (if wc_ReplacePeers cfg then Map.empty else view w name))"
    "\<exists>w'. wg_New wc w = Some (Ok (), w') \<and> view w' = view w"
    "\<exists>q w'. wg_Close wc w = Some (q, w') \<and> (q = Ok () \<or> fails q) \<and> view w' = view w"
    "wg_ParseKey wc (wg_KeyString wc k) = Ok k"
    "port < 65536 \<Longrightarrow>
      \<exists>w'. net_ResolveUDPAddr wc (v4_endpoint ip port) w = Some (Ok \<lparr>ua_IP = IP4_ToIP ip, ua_Port = port\<rparr>, w') \<and> view w' = view w"
    "\<exists>q w'. nl_RouteReplace nl r w = Some (q, w') \<and> (q = Ok () \<or> fails q) \<and> view w' = view w"
  using assms unfolding wg_laws_def by blast+

definition config_law :: "'w subnet_manager \<Rightarrow> ('w \<Rightarrow> string \<Rightarrow> peers) \<Rightarrow> bool" where
  "config_law sm view \<longleftrightarrow> (\<forall>w. \<exists>c w'. sm_GetNetworkConfig sm w = Some (Ok c, w') \<and> view w' = view w)"

section \<open>One call\<close>

lemma logged_ok_or_fails:
  assumes "m w = Some (q, w')" "q = Ok () \<or> fails q"
  shows "io_logged m w = Some (Ok (), w')"
  using assms by (cases q) (auto simp: io_logged_def io_try_apply)

lemma logged_ok: "m w = Some (Ok x, w') \<Longrightarrow> io_logged m w = Some (Ok (), w')"
  by (simp add: io_logged_def io_try_apply)

lemma close_view:
  assumes "wg_laws nl wc sm view"
  shows "\<exists>w'. io_logged (wg_Close wc) w = Some (Ok (), w') \<and> view w' = view w"
proof -
  obtain q w' where "wg_Close wc w = Some (q, w')" "q = Ok () \<or> fails q" "view w' = view w" using wg_lawsD(3) [OF assms] by blast
  then show ?thesis using logged_ok_or_fails [of "wg_Close wc" w q w'] by blast
qed

lemma configure_view:
  assumes l: "wg_laws nl wc sm view" and c: "wc_Peers cfg = [p]" "\<not> wc_ReplacePeers cfg"
  shows "\<exists>w'. configure wc name cfg msg w = Some (Ok (), w') \<and> view w' = (view w)(name := wg_apply p (view w name))"
proof -
  obtain w1 where 1: "wg_New wc w = Some (Ok (), w1)" "view w1 = view w" using wg_lawsD(2) [OF l] by blast
  obtain w2 where 2: "wg_ConfigureDevice wc name cfg w1 = Some (Ok (), w2)" "view w2 = (view w)(name := wg_apply p (view w name))"
    using wg_lawsD(1) [OF l, of name cfg w1] c 1(2) by auto
  obtain w3 where "io_logged (wg_Close wc) w2 = Some (Ok (), w3)" "view w3 = view w2" using close_view [OF l] by blast
  with 1 2 show ?thesis by (simp add: configure_def io_try_apply)
qed

abbreviation peer_of :: "wgDevice \<Rightarrow> wgkey \<Rightarrow> UDPAddr \<Rightarrow> IPNet list \<Rightarrow> PeerConfig" where
  "peer_of dev k ep nets \<equiv>
     \<lparr>pc_PublicKey = k, pc_Remove = False, pc_PresharedKey = wda_psk (wd_attrs dev), pc_Keepalive = wda_keepalive (wd_attrs dev),
      pc_Endpoint = Some ep, pc_ReplaceAllowedIPs = True, pc_AllowedIPs = nets\<rparr>"

lemma addPeer_view:
  assumes l: "wg_laws nl wc sm view" and p: "port < 65536"
  shows "\<exists>w'. addPeer wc (Some dev) (v4_endpoint ip port) (wg_KeyString wc k) nets w = Some (Ok (), w') \<and>
    view w' = (view w)(wda_name (wd_attrs dev) :=
      (move_allowed k nets (view w (wda_name (wd_attrs dev))))(k \<mapsto> (Some \<lparr>ua_IP = IP4_ToIP ip, ua_Port = port\<rparr>, nets)))"
proof -
  let ?ep = "\<lparr>ua_IP = IP4_ToIP ip, ua_Port = port\<rparr>"
  obtain w1 where 1: "net_ResolveUDPAddr wc (v4_endpoint ip port) w = Some (Ok ?ep, w1)" "view w1 = view w"
    using wg_lawsD(5) [OF l p] by blast
  let ?cfg = "\<lparr>wc_PrivateKey = wda_privateKey (wd_attrs dev), wc_ListenPort = Some (wda_listenPort (wd_attrs dev)),
    wc_ReplacePeers = False, wc_Peers = [peer_of dev k ?ep nets]\<rparr>"
  obtain w2 where 2: "configure wc (wda_name (wd_attrs dev)) ?cfg ''failed to configure device'' w1 = Some (Ok (), w2)"
    "view w2 = (view w1)(wda_name (wd_attrs dev) := wg_apply (peer_of dev k ?ep nets) (view w1 (wda_name (wd_attrs dev))))"
    using configure_view [OF l, of ?cfg "peer_of dev k ?ep nets" "wda_name (wd_attrs dev)" "''failed to configure device''" w1] by auto
  have "addPeer wc (Some dev) (v4_endpoint ip port) (wg_KeyString wc k) nets w = Some (Ok (), w2)"
    using 1(1) 2(1) by (simp add: addPeer_def wg_lawsD(4) [OF l] io_try_apply)
  with 2(2) 1(2) show ?thesis by (simp add: wg_apply_def Let_def)
qed

lemma removePeer_view:
  assumes l: "wg_laws nl wc sm view"
  shows "\<exists>w'. removePeer wc (Some dev) (wg_KeyString wc k) w = Some (Ok (), w') \<and>
    view w' = (view w)(wda_name (wd_attrs dev) := (view w (wda_name (wd_attrs dev)))(k := None))"
proof -
  let ?p = "\<lparr>pc_PublicKey = k, pc_Remove = True, pc_PresharedKey = None, pc_Keepalive = None, pc_Endpoint = None,
    pc_ReplaceAllowedIPs = False, pc_AllowedIPs = []\<rparr>"
  let ?cfg = "\<lparr>wc_PrivateKey = None, wc_ListenPort = None, wc_ReplacePeers = False, wc_Peers = [?p]\<rparr>"
  obtain w1 where 1: "wg_New wc w = Some (Ok (), w1)" "view w1 = view w" using wg_lawsD(2) [OF l] by blast
  obtain w2 where 2: "wg_ConfigureDevice wc (wda_name (wd_attrs dev)) ?cfg w1 = Some (Ok (), w2)"
    "view w2 = (view w1)(wda_name (wd_attrs dev) := wg_apply ?p (view w1 (wda_name (wd_attrs dev))))"
    using wg_lawsD(1) [OF l, of "wda_name (wd_attrs dev)" ?cfg w1] by auto
  obtain w3 where 3: "io_logged (wg_Close wc) w2 = Some (Ok (), w3)" "view w3 = view w2" using close_view [OF l] by blast
  have "removePeer wc (Some dev) (wg_KeyString wc k) w = Some (Ok (), w3)"
    using 1(1) 2(1) 3(1) by (simp add: removePeer_def wg_lawsD(4) [OF l] io_try_apply)
  with 1(2) 2(2) 3(2) show ?thesis by (simp add: wg_apply_def Let_def)
qed

section \<open>Events\<close>

text \<open>The lease of a node that has published its key and port, for IPv4.\<close>

definition published :: "'w wgctrl \<Rightarrow> wgkey \<Rightarrow> nat \<Rightarrow> Lease \<Rightarrow> bool" where
  "published wc k port l \<longleftrightarrow> lease_EnableIPv4 l \<and> \<not> lease_EnableIPv6 l \<and> 0 < port \<and> port < 65536 \<and>
     la_BackendType (lease_Attrs l) = ''wireguard'' \<and> la_PublicIPv6 (lease_Attrs l) = None \<and>
     la_BackendData (lease_Attrs l) = Some (wireguardLeaseAttrs_Marshal \<lparr>wla_PublicKey = wg_KeyString wc k, wla_Port = port\<rparr>)"

fun peers_step :: "Event \<times> wgkey \<times> nat \<Rightarrow> peers \<Rightarrow> peers" where
  "peers_step (e, k, port) P =
     (case ev_Type e of
        EventAdded \<Rightarrow>
          (let net = IP4Net_ToIPNet (lease_Subnet (ev_Lease e)) in
           (move_allowed k [net] P)(k \<mapsto> (Some \<lparr>ua_IP = IP4_ToIP (la_PublicIP (lease_Attrs (ev_Lease e))), ua_Port = port\<rparr>, [net])))
      | EventRemoved \<Rightarrow> P(k := None))"

lemma wg_added_view:
  assumes l: "wg_laws nl wc sm view" "config_law sm view" and n: "wn_mode n = Separate" "wn_dev n = Some dev"
    and p: "published wc k port x"
  shows "\<exists>w'. wg_added nl wc sm n x w = Some (Ok (), w') \<and>
    view w' = (view w)(wda_name (wd_attrs dev) :=
      (move_allowed k [IP4Net_ToIPNet (lease_Subnet x)] (view w (wda_name (wd_attrs dev))))
        (k \<mapsto> (Some \<lparr>ua_IP = IP4_ToIP (la_PublicIP (lease_Attrs x)), ua_Port = port\<rparr>, [IP4Net_ToIPNet (lease_Subnet x)])))"
proof -
  let ?net = "IP4Net_ToIPNet (lease_Subnet x)" and ?ep = "v4_endpoint (la_PublicIP (lease_Attrs x)) port"
  have port: "port < 65536" "0 < port" using p by (simp_all add: published_def)
  have dec: "wg_decode (Some (wireguardLeaseAttrs_Marshal \<lparr>wla_PublicKey = wg_KeyString wc k, wla_Port = port\<rparr>)) b = Ok \<lparr>wla_PublicKey = wg_KeyString wc k, wla_Port = port\<rparr>" for b
    using p wg_round_trip [of "\<lparr>wla_PublicKey = wg_KeyString wc k, wla_Port = port\<rparr>" b] by (simp add: published_def)
  obtain w1 where 1: "addPeer wc (Some dev) ?ep (wg_KeyString wc k) [?net] w = Some (Ok (), w1)"
    "view w1 = (view w)(wda_name (wd_attrs dev) :=
      (move_allowed k [?net] (view w (wda_name (wd_attrs dev))))
        (k \<mapsto> (Some \<lparr>ua_IP = IP4_ToIP (la_PublicIP (lease_Attrs x)), ua_Port = port\<rparr>, [?net])))"
    using addPeer_view [OF l(1) port(1)] by blast
  obtain c w2 where 2: "sm_GetNetworkConfig sm w1 = Some (Ok c, w2)" "view w2 = view w1" using l(2) unfolding config_law_def by blast
  let ?r = "no_route\<lparr>rt_LinkIndex := lk_Index (wd_link dev), rt_Scope := SCOPE_LINK, rt_Dst := Some (IP4Net_ToIPNet (cfg_Network c))\<rparr>"
  obtain q w3 where 3: "nl_RouteReplace nl ?r w2 = Some (q, w3)" "q = Ok () \<or> fails q" "view w3 = view w2" using wg_lawsD(6) [OF l(1)] by blast
  have "io_logged (wg_addRoute nl (Some dev) (IP4Net_ToIPNet (cfg_Network c))) w2 = Some (Ok (), w3)"
    using 3(1,2) by (cases q) (auto simp: wg_addRoute_def io_logged_def io_try_apply)
  then have "add_v4_peer nl wc sm (Some dev) ?ep (wg_KeyString wc k) (lease_Subnet x) w = Some (Ok (), w3)"
    using 2(1) logged_ok [where m = "addPeer wc (Some dev) ?ep (wg_KeyString wc k) [?net]", OF 1(1)] by (simp add: add_v4_peer_def network_config_def io_bind_apply io_try_apply)
  moreover have "or_listen_port port (Some dev) = port" using port(2) by (simp add: or_listen_port_def)
  ultimately have "wg_added nl wc sm n x w = Some (Ok (), w3)"
    using p n by (simp add: wg_added_def dec published_def v6_endpoint_def Let_def io_bind_apply io_try_apply)
  with 1(2) 2(2) 3(3) show ?thesis by simp
qed

lemma wg_removed_view:
  assumes l: "wg_laws nl wc sm view" and n: "wn_mode n = Separate" "wn_dev n = Some dev" and p: "published wc k port x"
  shows "\<exists>w'. wg_removed wc n x w = Some (Ok (), w') \<and>
    view w' = (view w)(wda_name (wd_attrs dev) := (view w (wda_name (wd_attrs dev)))(k := None))"
proof -
  have dec: "wg_decode (Some (wireguardLeaseAttrs_Marshal \<lparr>wla_PublicKey = wg_KeyString wc k, wla_Port = port\<rparr>)) b = Ok \<lparr>wla_PublicKey = wg_KeyString wc k, wla_Port = port\<rparr>" for b
    using p wg_round_trip [of "\<lparr>wla_PublicKey = wg_KeyString wc k, wla_Port = port\<rparr>" b] by (simp add: published_def)
  obtain w1 where 1: "removePeer wc (Some dev) (wg_KeyString wc k) w = Some (Ok (), w1)"
    "view w1 = (view w)(wda_name (wd_attrs dev) := (view w (wda_name (wd_attrs dev)))(k := None))" using removePeer_view [OF l] by blast
  have "wg_removed wc n x w = Some (Ok (), w1)"
    using p n logged_ok [where m = "removePeer wc (Some dev) (wg_KeyString wc k)", OF 1(1)] by (simp add: wg_removed_def dec published_def Let_def io_bind_apply io_try_apply)
  with 1(2) show ?thesis by blast
qed

lemma wg_event_view:
  assumes l: "wg_laws nl wc sm view" "config_law sm view" and n: "wn_mode n = Separate" "wn_dev n = Some dev"
    and p: "published wc k port (ev_Lease e)"
  shows "\<exists>w'. wg_event nl wc sm n e w = Some (Ok (), w') \<and>
    view w' = (view w)(wda_name (wd_attrs dev) := peers_step (e, k, port) (view w (wda_name (wd_attrs dev))))"
  using wg_added_view [OF l n p, of w] wg_removed_view [OF l(1) n p, of w] p
  by (cases "ev_Type e") (auto simp: wg_event_def published_def Let_def)

lemma peers_follow:
  assumes "wg_laws nl wc sm view" "config_law sm view" "wn_mode n = Separate" "wn_dev n = Some dev"
    and "\<forall>(e, k, port) \<in> set xs. published wc k port (ev_Lease e)"
  shows "\<exists>w'. wn_handleSubnetEvents nl wc sm n (map fst xs) w = Some (Ok (), w') \<and>
    view w' = (view w)(wda_name (wd_attrs dev) := fold peers_step xs (view w (wda_name (wd_attrs dev))))"
  using assms(5)
proof (induction xs arbitrary: w)
  case Nil
  then show ?case by (simp add: wn_handleSubnetEvents_def)
next
  case (Cons x xs)
  obtain e k port where x: "x = (e, k, port)" by (cases x)
  obtain w1 where 1: "wg_event nl wc sm n e w = Some (Ok (), w1)"
    "view w1 = (view w)(wda_name (wd_attrs dev) := peers_step x (view w (wda_name (wd_attrs dev))))"
    using wg_event_view [OF assms(1-4), of k port e w] Cons.prems by (auto simp: x)
  have "\<forall>(e, k, port) \<in> set xs. published wc k port (ev_Lease e)" using Cons.prems by simp
  from Cons.IH [OF this, of w1] obtain w2 where 2: "wn_handleSubnetEvents nl wc sm n (map fst xs) w1 = Some (Ok (), w2)"
    "view w2 = (view w1)(wda_name (wd_attrs dev) := fold peers_step xs (view w1 (wda_name (wd_attrs dev))))" by blast
  have "wn_handleSubnetEvents nl wc sm n (map fst (x # xs)) w = Some (Ok (), w2)"
    using 1(1) 2(1) by (simp add: wn_handleSubnetEvents_def x io_bind_apply)
  moreover have "view w2 = (view w)(wda_name (wd_attrs dev) := fold peers_step (x # xs) (view w (wda_name (wd_attrs dev))))"
    unfolding 2(2) 1(2) by (simp only: fun_upd_same fun_upd_upd fold_simps)
  ultimately show ?case by blast
qed


section \<open>A device kept in memory\<close>

type_synonym wg_world = "string \<Rightarrow> peers"

definition mem_resolve :: "string \<Rightarrow> (wg_world, UDPAddr) io" where
  "mem_resolve s w =
     (case CutChar s (CHR '':'') of
        Some (host, port) \<Rightarrow>
          (case (ParseIP4 host, ParseUint 16 port) of
             (Ok ip, Some n) \<Rightarrow> Some (Ok \<lparr>ua_IP = IP4_ToIP ip, ua_Port = n\<rparr>, w)
           | _ \<Rightarrow> Some (Err (ErrorString ''invalid address''), w))
      | None \<Rightarrow> Some (Err (ErrorString ''missing port''), w))"

abbreviation (input) unsupported :: "('w, 'a) io" where "unsupported \<equiv> io_err (ErrorString ''not supported'')"

text \<open>The text of a key in memory is its bytes as characters.\<close>

definition mem_wg :: "wg_world wgctrl" where
  "mem_wg =
     \<lparr>wg_New = io_ret (), wg_Close = io_ret (),
      wg_ConfigureDevice = (\<lambda>name cfg w. Some (Ok (),
        w(name := fold wg_apply (wc_Peers cfg) (if wc_ReplacePeers cfg then Map.empty else w name)))),
      wg_GeneratePrivateKey = io_ret [1], wg_PublicKey = (\<lambda>k. k), wg_KeyString = map (\<lambda>b. char_of (unat b)),
      wg_ParseKey = (\<lambda>s. Ok (map (\<lambda>c. of_nat (of_char c)) s)), net_ResolveUDPAddr = mem_resolve, os_LookupEnv = (\<lambda>_. io_ret None),
      os_Stat = (\<lambda>_. io_ret ()), os_ReadFile = (\<lambda>_. unsupported), os_MkdirAll = (\<lambda>_. unsupported), os_Create = (\<lambda>_. unsupported),
      os_Chmod = (\<lambda>_. unsupported), os_WriteString = (\<lambda>_ _. unsupported), os_Close = (\<lambda>_. unsupported)\<rparr>"

definition idle_netlink :: "'w netlink" where
  "idle_netlink =
     \<lparr>nl_RouteList = (\<lambda>_. io_ret []), nl_RouteListFiltered = (\<lambda>_ _ _. io_ret []), nl_RouteGet = (\<lambda>_. io_ret []),
      nl_RouteAdd = (\<lambda>_. io_ret ()), nl_RouteReplace = (\<lambda>_. io_ret ()), nl_RouteDel = (\<lambda>_. io_ret ()),
      nl_AddrList = (\<lambda>_ _. io_ret []), nl_AddrAdd = (\<lambda>_ _. io_ret ()), nl_AddrDel = (\<lambda>_ _. io_ret ()), nl_AddrEqual = (=),
      nl_LinkAdd = io_ret, nl_LinkByName = (\<lambda>_. unsupported), nl_LinkByIndex = (\<lambda>_. unsupported), nl_LinkDel = (\<lambda>_. io_ret ()),
      nl_LinkSetUp = (\<lambda>_. io_ret ()), nl_LinkSetMTU = (\<lambda>l _. io_ret l), nl_NeighSet = (\<lambda>_. io_ret ()), nl_NeighDel = (\<lambda>_. io_ret ()),
      nl_Interfaces = io_ret [], nl_InterfaceByIndex = (\<lambda>_. unsupported), nl_InterfaceByName = (\<lambda>_. unsupported),
      nl_Sysctl = (\<lambda>_ _. unsupported), nl_RandRead = (\<lambda>_. unsupported), nl_retry = (\<lambda>m. m)\<rparr>"

definition idle_manager :: "Config go \<Rightarrow> 'w subnet_manager" where
  "idle_manager c =
     \<lparr>sm_AcquireLease = (\<lambda>_. unsupported), sm_GetNetworkConfig = io_of c, sm_GetStoredMacAddresses = unsupported\<rparr>"

lemma mem_resolve_endpoint:
  assumes "port < 65536"
  shows "mem_resolve (v4_endpoint ip port) w = Some (Ok \<lparr>ua_IP = IP4_ToIP ip, ua_Port = port\<rparr>, w)"
proof -
  have "CHR '':'' \<notin> set (IP4_String ip)" using IP4_String_chars [of "CHR '':''" ip] by (auto simp: is_digit_def code_of_def)
  then have "CutChar (v4_endpoint ip port) (CHR '':'') = Some (IP4_String ip, nat_dec port)" by (simp add: v4_endpoint_def CutChar_append)
  moreover have "ParseUint 16 (nat_dec port) = Some port" using assms ParseUint_nat_dec [of port 16] by simp
  ultimately show ?thesis by (simp add: mem_resolve_def)
qed

lemma mem_key: "word_of_nat (unat b mod 256) = b" for b :: byte
proof -
  have "unat b < 256" using unat_byte_le [of b] by simp
  then show ?thesis by simp
qed

lemma mem_wg_laws: "wg_laws idle_netlink mem_wg sm (\<lambda>w. w)"
  by (auto simp: wg_laws_def mem_wg_def idle_netlink_def mem_resolve_endpoint mem_key comp_def)

definition wg_device :: wgDevice where
  "wg_device = \<lparr>wd_link = \<lparr>lk_Index = 7, lk_MTU = 1420, lk_Name = ''flannel-wg'', lk_HardwareAddr = []\<rparr>,
     wd_attrs = \<lparr>wda_listenPort = 51820, wda_privateKey = Some [9], wda_publicKey = Some [9], wda_psk = None,
       wda_keepalive = Some 0, wda_name = ''flannel-wg'', wda_MTU = 1500\<rparr>\<rparr>"

definition wg_net :: wg_network where
  "wg_net = wg_newNetwork
     \<lparr>ei_Iface = \<lparr>if_Index = 2, if_MTU = 1500, if_Name = ''eth0''\<rparr>, ei_IfaceName = ''eth0'', ei_IfaceAddr = [], ei_IfaceV6Addr = [],
      ei_ExtAddr = [], ei_ExtV6Addr = []\<rparr> (Some wg_device) None Separate
     \<lparr>lease_EnableIPv4 = True, lease_EnableIPv6 = False, lease_Subnet = \<lparr>ip4_IP = 0x0AF40100, ip4_PrefixLen = 24\<rparr>, lease_IPv6Subnet = empty_IP6Net,
      lease_Attrs = empty_attrs, lease_Expiration = 0, lease_Asof = 0\<rparr> 1500"

definition wg_remote :: "IP4 \<Rightarrow> Lease" where
  "wg_remote sn =
     \<lparr>lease_EnableIPv4 = True, lease_EnableIPv6 = False, lease_Subnet = \<lparr>ip4_IP = sn, ip4_PrefixLen = 24\<rparr>, lease_IPv6Subnet = empty_IP6Net,
      lease_Attrs = \<lparr>la_PublicIP = 0xC0A80002, la_PublicIPv6 = None, la_BackendType = ''wireguard'',
        la_BackendData = Some (wireguardLeaseAttrs_Marshal \<lparr>wla_PublicKey = wg_KeyString mem_wg [5], wla_Port = 51820\<rparr>), la_BackendV6Data = None\<rparr>,
      lease_Expiration = 0, lease_Asof = 0\<rparr>"

definition wg_pool :: Config where
  "wg_pool = \<lparr>cfg_EnableIPv4 = True, cfg_EnableIPv6 = False, cfg_EnableNFTables = False, cfg_Network = \<lparr>ip4_IP = 0x0AF40000, ip4_PrefixLen = 16\<rparr>,
     cfg_IPv6Network = empty_IP6Net, cfg_SubnetMin = 0, cfg_SubnetMax = 0, cfg_IPv6SubnetMin = None, cfg_IPv6SubnetMax = None,
     cfg_SubnetLen = 24, cfg_IPv6SubnetLen = 0, cfg_BackendType = ''wireguard'', cfg_Backend = []\<rparr>"

lemma published_remote: "published mem_wg [5] 51820 (wg_remote sn)"
  by (simp add: published_def wg_remote_def)

lemma wg_net_simps [simp]: "wn_mode wg_net = Separate" "wn_dev wg_net = Some wg_device" "wda_name (wd_attrs wg_device) = ''flannel-wg''"
  by (simp_all add: wg_net_def wg_newNetwork_def wg_device_def)

lemma idle_config: "config_law (idle_manager (Ok c)) view"
  by (simp add: config_law_def idle_manager_def)


section \<open>Failures\<close>

text \<open>
  C39. When the network configuration cannot be read while a lease is added, the handler of events
  panics: the error is logged and the missing configuration is dereferenced.
\<close>

theorem unreadable_config_panics:
  assumes "wg_laws nl wc sm view" "wn_mode n = ''separate''" "wn_dev n = Some dev" "published wc k port l"
    and "\<forall>w. \<exists>e w'. sm_GetNetworkConfig sm w = Some (Err e, w')"
  shows "\<exists>w'. wn_handleSubnetEvents nl wc sm n (\<lparr>ev_Type = EventAdded, ev_Lease = l\<rparr> # es) w = Some (Panic NilDeref, w')"
proof -
  let ?net = "IP4Net_ToIPNet (lease_Subnet l)" and ?ep = "v4_endpoint (la_PublicIP (lease_Attrs l)) port"
  have port: "port < 65536" "0 < port" using assms(4) by (simp_all add: published_def)
  have dec: "wg_decode (Some (wireguardLeaseAttrs_Marshal \<lparr>wla_PublicKey = wg_KeyString wc k, wla_Port = port\<rparr>)) b =
      Ok \<lparr>wla_PublicKey = wg_KeyString wc k, wla_Port = port\<rparr>" for b
    using port wg_round_trip [of "\<lparr>wla_PublicKey = wg_KeyString wc k, wla_Port = port\<rparr>" b] by simp
  obtain w1 where 1: "addPeer wc (Some dev) ?ep (wg_KeyString wc k) [?net] w = Some (Ok (), w1)"
    using addPeer_view [OF assms(1) port(1)] by blast
  obtain e w2 where 2: "sm_GetNetworkConfig sm w1 = Some (Err e, w2)" using assms(5) by blast
  have "add_v4_peer nl wc sm (Some dev) ?ep (wg_KeyString wc k) (lease_Subnet l) w = Some (Panic NilDeref, w2)"
    using 2 logged_ok [where m = "addPeer wc (Some dev) ?ep (wg_KeyString wc k) [?net]", OF 1]
    by (simp add: add_v4_peer_def network_config_def io_bind_apply io_try_apply)
  moreover have "or_listen_port port (Some dev) = port" using port(2) by (simp add: or_listen_port_def)
  ultimately have "wg_added nl wc sm n l w = Some (Panic NilDeref, w2)"
    using assms(2-4) by (simp add: wg_added_def dec published_def v6_endpoint_def Let_def io_bind_apply io_try_apply)
  then show ?thesis using assms(4) by (simp add: wn_handleSubnetEvents_def wg_event_def published_def io_bind_apply)
qed

lemma unreadable_config_panics_witness:
  "\<exists>w'. wn_handleSubnetEvents idle_netlink mem_wg (idle_manager (Err (ErrorString ''etcd is down''))) wg_net
     [\<lparr>ev_Type = EventAdded, ev_Lease = wg_remote 0x0AF40200\<rparr>] (\<lambda>_. Map.empty) = Some (Panic NilDeref, w')"
proof -
  have "\<forall>w. \<exists>e w'. sm_GetNetworkConfig (idle_manager (Err (ErrorString ''etcd is down''))) w = Some (Err e, w')"
    by (simp add: idle_manager_def io_of_def)
  then show ?thesis by (rule unreadable_config_panics [OF mem_wg_laws wg_net_simps(1,2) published_remote])
qed

text \<open>
  A node that moves to another subnet keeps its key: when its old lease is removed, the peer goes,
  and with it the subnet the node holds now.
\<close>

lemma moved_node_loses_peer:
  assumes "wg_laws nl wc sm view" "config_law sm view" "wn_mode n = ''separate''" "wn_dev n = Some dev"
    and "published wc k port l" "published wc k port l'"
  shows "\<exists>w'. wn_handleSubnetEvents nl wc sm n [\<lparr>ev_Type = EventAdded, ev_Lease = l\<rparr>, \<lparr>ev_Type = EventAdded, ev_Lease = l'\<rparr>,
      \<lparr>ev_Type = EventRemoved, ev_Lease = l\<rparr>] w = Some (Ok (), w') \<and> view w' (wda_name (wd_attrs dev)) k = None"
  using peers_follow [OF assms(1-4), of "[(\<lparr>ev_Type = EventAdded, ev_Lease = l\<rparr>, k, port), (\<lparr>ev_Type = EventAdded, ev_Lease = l'\<rparr>, k, port),
      (\<lparr>ev_Type = EventRemoved, ev_Lease = l\<rparr>, k, port)]" w] assms(5,6) by auto

end
