(* ===== verification/Iptables.thy ===== *)
theory Iptables
  imports Netlink Subnet_Key
begin

text \<open>
  The traffic manager that uses \<open>iptables\<close> (\<open>pkg/trafficmngr/iptables\<close>): the rules it installs, the
  transactions it builds for \<open>iptables-restore\<close> and the periodic check. The \<open>go-iptables\<close> client, the
  lookup of binaries and the run of \<open>iptables-restore\<close> are the fields of the record \<open>iptables\<close>, one for
  each address family. A Go map from tables to rules is a list of its entries, in the order in
  which the map is iterated.
\<close>

section \<open>Rules and clients\<close>

record IPTablesRule =
  ir_Table :: string
  ir_Action :: string
  ir_Chain :: string
  ir_Rulespec :: "string list"

abbreviation (input) KubeProxyMark :: string where "KubeProxyMark \<equiv> ''0x4000/0x4000''"

record 'w iptables =
  ipt_New :: "('w, unit) io"
  ipt_HasRandomFully :: bool
  ipt_ChainExists :: "string \<Rightarrow> string \<Rightarrow> ('w, bool) io"
  ipt_ClearChain :: "string \<Rightarrow> string \<Rightarrow> ('w, unit) io"
  ipt_ClearAndDeleteChain :: "string \<Rightarrow> string \<Rightarrow> ('w, unit) io"
  ipt_Exists :: "string \<Rightarrow> string \<Rightarrow> string list \<Rightarrow> ('w, bool) io"
  exec_LookPath :: "string \<Rightarrow> ('w, string) io"
  exec_Version :: "string \<Rightarrow> ('w, string) io"
  exec_Run :: "string \<Rightarrow> string list \<Rightarrow> string \<Rightarrow> ('w, unit) io"

type_synonym RestoreRules = "(string \<times> string list list) list"

section \<open>Running iptables-restore\<close>

definition ipTablesHasWaitSupport :: "int \<Rightarrow> int \<Rightarrow> int \<Rightarrow> bool" where
  "ipTablesHasWaitSupport v1 v2 v3 \<longleftrightarrow> v1 > 1 \<or> (v1 = 1 \<and> v2 > 6) \<or> (v1 = 1 \<and> v2 = 6 \<and> v3 \<ge> 2)"

definition versionMatcher :: rx where
  "versionMatcher = RSeq [RSet ''v'', RGroup 1 (RPlus rx_digit), RSet ''.'', RGroup 2 (RPlus rx_digit), RSet ''.'', RGroup 3 (RPlus rx_digit)]"

definition Atoi :: "string \<Rightarrow> int go" where
  "Atoi s = (case ParseInt 64 s of None \<Rightarrow> Err (ErrorString ''strconv.Atoi'') | Some n \<Rightarrow> Ok n)"

definition extractIptablesRestoreVersion :: "string \<Rightarrow> (int \<times> int \<times> int) go" where
  "extractIptablesRestoreVersion str =
     (case rx_find versionMatcher str of
        None \<Rightarrow> Err (ErrorString (''no iptables-restore version found in string: '' @ str))
      | Some result \<Rightarrow>
          go_bind (Atoi (submatch 1 result)) (\<lambda>v1.
          go_bind (Atoi (submatch 2 result)) (\<lambda>v2.
          go_bind (Atoi (submatch 3 result)) (\<lambda>v3. Ok (v1, v2, v3)))))"

definition getIptablesRestoreSupport :: "'w iptables \<Rightarrow> string \<Rightarrow> ('w, bool) io" where
  "getIptablesRestoreSupport ipt path =
     io_try (exec_Version ipt path)
       (\<lambda>version. io_bind (io_of (extractIptablesRestoreVersion version)) (\<lambda>(v1, v2, v3).
          io_ret (ipTablesHasWaitSupport v1 v2 v3)))
       (\<lambda>e. io_err (Wrapped ''unable to find iptables-restore version'' e))"

datatype Protocol = ProtocolIPv4 | ProtocolIPv6

definition getIptablesRestoreCommand :: "Protocol \<Rightarrow> string" where
  "getIptablesRestoreCommand proto = (if proto = ProtocolIPv6 then ''ip6tables-restore'' else ''iptables-restore'')"

definition getIptablesCommand :: "Protocol \<Rightarrow> string" where
  "getIptablesCommand proto = (if proto = ProtocolIPv6 then ''ip6tables'' else ''iptables'')"

record ipTablesRestore =
  itr_path :: string
  itr_proto :: Protocol
  itr_hasWait :: bool

definition NewIPTablesRestoreWithProtocol :: "'w iptables \<Rightarrow> Protocol \<Rightarrow> ('w, ipTablesRestore) io" where
  "NewIPTablesRestoreWithProtocol ipt protocol =
     io_bind (exec_LookPath ipt (getIptablesRestoreCommand protocol)) (\<lambda>path.
     io_bind (exec_LookPath ipt (getIptablesCommand protocol)) (\<lambda>pathIptables.
     io_bind (getIptablesRestoreSupport ipt pathIptables) (\<lambda>hasWait.
       io_ret \<lparr>itr_path = path, itr_proto = protocol, itr_hasWait = hasWait\<rparr>)))"

text \<open>The words of a rule, each followed by a space or, at the end, a newline; a comment is quoted.\<close>

fun payload_words :: "string \<Rightarrow> string list \<Rightarrow> string" where
  "payload_words prev [] = []"
| "payload_words prev (w # ws) =
     (if prev = ''--comment'' then [chr_quote] @ w @ [chr_quote] else w) @ (if ws = [] then [chr_newline] else '' '') @ payload_words w ws"

definition buildIPTablesRestorePayload :: "RestoreRules \<Rightarrow> string" where
  "buildIPTablesRestorePayload tableRules =
     concat (map (\<lambda>(table, rules). ''*'' @ table @ [chr_newline] @ concat (map (payload_words []) rules) @ ''COMMIT'' @ [chr_newline]) tableRules)"

definition ApplyWithoutFlush :: "'w iptables \<Rightarrow> ipTablesRestore \<Rightarrow> RestoreRules \<Rightarrow> ('w, unit) io" where
  "ApplyWithoutFlush ipt iptr rules =
     io_try (exec_Run ipt (itr_path iptr) ([''--noflush''] @ (if itr_hasWait iptr then [''--wait''] else [])) (buildIPTablesRestorePayload rules))
       io_ret (\<lambda>e. io_err (Wrapped ''unable to run iptables-restore'' e))"

section \<open>Transactions\<close>

text \<open>The flannel chain a rule belongs to or jumps to; the last word of an empty rule does not exist.\<close>

definition concerns :: "IPTablesRule \<Rightarrow> string \<Rightarrow> bool go" where
  "concerns rule chain =
     (if ir_Chain rule = chain then Ok True
      else if ir_Rulespec rule = [] then Panic IndexRange
      else Ok (last (ir_Rulespec rule) = chain))"

definition flannel_chain :: "IPTablesRule \<Rightarrow> string option go" where
  "flannel_chain rule =
     go_bind (concerns rule ''FLANNEL-FWD'') (\<lambda>fwd.
       if fwd then Ok (Some ''FLANNEL-FWD'')
       else go_bind (concerns rule ''FLANNEL-POSTRTG'') (\<lambda>post.
         Ok (if post then Some ''FLANNEL-POSTRTG'' else None)))"

definition check_error :: "goerror \<Rightarrow> ('w, 'a) io" where
  "check_error e = io_err (Wrapped ''failed to check rule existence'' e)"

definition chain_there :: "'w iptables \<Rightarrow> IPTablesRule \<Rightarrow> string option \<Rightarrow> ('w, bool) io" where
  "chain_there ipt rule c =
     (case c of None \<Rightarrow> io_ret True | Some chain \<Rightarrow> io_try (ipt_ChainExists ipt (ir_Table rule) chain) io_ret check_error)"

definition rule_there :: "'w iptables \<Rightarrow> IPTablesRule \<Rightarrow> ('w, bool) io" where
  "rule_there ipt rule = io_try (ipt_Exists ipt (ir_Table rule) (ir_Chain rule) (ir_Rulespec rule)) io_ret check_error"

fun ipTablesRulesExist :: "'w iptables \<Rightarrow> IPTablesRule list \<Rightarrow> ('w, bool) io" where
  "ipTablesRulesExist ipt [] = io_ret True"
| "ipTablesRulesExist ipt (rule # rules) =
     io_bind (io_of (flannel_chain rule)) (\<lambda>c.
     io_bind (chain_there ipt rule c) (\<lambda>chainExist.
       if \<not> chainExist then io_ret False
       else io_bind (rule_there ipt rule) (\<lambda>ex. if \<not> ex then io_ret False else ipTablesRulesExist ipt rules)))"

fun add_line :: "string \<Rightarrow> string list \<Rightarrow> RestoreRules \<Rightarrow> RestoreRules" where
  "add_line table line [] = [(table, [line])]"
| "add_line table line ((t, ls) # rest) = (if t = table then (t, ls @ [line]) # rest else (t, ls) # add_line table line rest)"

definition create_chain :: "'w iptables \<Rightarrow> IPTablesRule \<Rightarrow> string option \<Rightarrow> ('w, unit) io" where
  "create_chain ipt rule c =
     io_bind (chain_there ipt rule c) (\<lambda>chainExist.
       if chainExist then io_ret ()
       else io_try (ipt_ClearChain ipt (ir_Table rule) (the c)) io_ret (\<lambda>e. io_err (Wrapped ''failed to create rule chain'' e)))"

definition build_rule :: "'w iptables \<Rightarrow> IPTablesRule \<Rightarrow> RestoreRules \<Rightarrow> ('w, RestoreRules) io" where
  "build_rule ipt rule tablesRules =
     io_bind (io_of (flannel_chain rule)) (\<lambda>c.
     io_bind (create_chain ipt rule c) (\<lambda>_.
     io_bind (rule_there ipt rule) (\<lambda>ex.
       io_ret (add_line (ir_Table rule) ([ir_Action rule, ir_Chain rule] @ ir_Rulespec rule)
         (if ex then add_line (ir_Table rule) ([''-D'', ir_Chain rule] @ ir_Rulespec rule) tablesRules else tablesRules)))))"

definition ipTablesCleanAndBuild :: "'w iptables \<Rightarrow> IPTablesRule list \<Rightarrow> ('w, RestoreRules) io" where
  "ipTablesCleanAndBuild ipt rules = io_fold (build_rule ipt) rules []"

definition ipTablesBootstrap :: "'w iptables \<Rightarrow> ipTablesRestore \<Rightarrow> IPTablesRule list \<Rightarrow> ('w, unit) io" where
  "ipTablesBootstrap ipt iptRestore rules =
     io_try (ipTablesCleanAndBuild ipt rules)
       (\<lambda>tablesRules. io_try (ApplyWithoutFlush ipt iptRestore tablesRules) io_ret
          (\<lambda>e. io_err (Wrapped ''failed to apply partial iptables-restore'' e)))
       (\<lambda>e. io_err (Wrapped ''failed to setup iptables-restore payload'' e))"

definition ensureIPTables :: "'w iptables \<Rightarrow> ipTablesRestore \<Rightarrow> IPTablesRule list \<Rightarrow> ('w, unit) io" where
  "ensureIPTables ipt iptRestore rules =
     io_try (ipTablesRulesExist ipt rules)
       (\<lambda>ex. if ex then io_ret ()
             else io_try (ipTablesBootstrap ipt iptRestore rules) io_ret (\<lambda>e. io_err (Wrapped ''error setting up rules'' e)))
       (\<lambda>e. io_err (Wrapped ''error checking rule existence'' e))"

definition teardown_rule :: "'w iptables \<Rightarrow> IPTablesRule \<Rightarrow> RestoreRules \<Rightarrow> ('w, RestoreRules) io" where
  "teardown_rule ipt rule tablesRules =
     io_bind (io_of (flannel_chain rule)) (\<lambda>c.
     io_bind (chain_there ipt rule c) (\<lambda>chainExists.
       if \<not> chainExists then io_ret tablesRules
       else io_bind (rule_there ipt rule) (\<lambda>ex.
         io_ret (if ex then add_line (ir_Table rule) ([''-D'', ir_Chain rule] @ ir_Rulespec rule) tablesRules else tablesRules))))"

definition teardownIPTables :: "'w iptables \<Rightarrow> ipTablesRestore \<Rightarrow> IPTablesRule list \<Rightarrow> ('w, unit) io" where
  "teardownIPTables ipt iptr rules =
     io_bind (io_fold (teardown_rule ipt) rules []) (\<lambda>tablesRules.
       io_try (ApplyWithoutFlush ipt iptr tablesRules) io_ret (\<lambda>e. io_err (Wrapped ''unable to teardown iptables'' e)))"

section \<open>The rules\<close>

definition nat_rule :: "string \<Rightarrow> string list \<Rightarrow> IPTablesRule" where
  "nat_rule chain spec = \<lparr>ir_Table = ''nat'', ir_Action = ''-A'', ir_Chain = chain, ir_Rulespec = spec\<rparr>"

abbreviation (input) masq_comment :: "string list" where "masq_comment \<equiv> [''-m'', ''comment'', ''--comment'', ''flanneld masq'']"

definition masq_rules_of :: "string \<Rightarrow> string \<Rightarrow> string \<Rightarrow> bool \<Rightarrow> IPTablesRule list" where
  "masq_rules_of cluster_cidr pod_cidr multicast random_fully =
     (let masquerade = [''-j'', ''MASQUERADE''] @ (if random_fully then [''--random-fully''] else []) in
      [nat_rule ''POSTROUTING'' (masq_comment @ [''-j'', ''FLANNEL-POSTRTG'']),
       nat_rule ''FLANNEL-POSTRTG'' ([''-m'', ''mark'', ''--mark'', KubeProxyMark] @ masq_comment @ [''-j'', ''RETURN'']),
       nat_rule ''FLANNEL-POSTRTG'' ([''-s'', pod_cidr, ''-d'', cluster_cidr] @ masq_comment @ [''-j'', ''RETURN'']),
       nat_rule ''FLANNEL-POSTRTG'' ([''-s'', cluster_cidr, ''-d'', pod_cidr] @ masq_comment @ [''-j'', ''RETURN'']),
       nat_rule ''FLANNEL-POSTRTG'' ([''!'', ''-s'', cluster_cidr, ''-d'', pod_cidr] @ masq_comment @ [''-j'', ''RETURN'']),
       nat_rule ''FLANNEL-POSTRTG'' ([''-s'', cluster_cidr, ''!'', ''-d'', multicast] @ masq_comment @ masquerade),
       nat_rule ''FLANNEL-POSTRTG'' ([''!'', ''-s'', cluster_cidr, ''-d'', cluster_cidr] @ masq_comment @ masquerade)])"

definition supports_random_fully :: "'w iptables \<Rightarrow> ('w, bool) io" where
  "supports_random_fully ipt = io_try (ipt_New ipt) (\<lambda>_. io_ret (ipt_HasRandomFully ipt)) (\<lambda>_. io_ret False)"

definition masqRules :: "'w iptables \<Rightarrow> IP4Net \<Rightarrow> Lease \<Rightarrow> bool \<Rightarrow> ('w, IPTablesRule list) io" where
  "masqRules ipt ccidr l ipMasqRandomFullyDisable =
     io_bind (supports_random_fully ipt) (\<lambda>full.
       io_ret (masq_rules_of (IP4Net_String ccidr) (IP4Net_String (lease_Subnet l)) ''224.0.0.0/4'' (full \<and> \<not> ipMasqRandomFullyDisable)))"

definition masqIP6Rules :: "'w iptables \<Rightarrow> IP6Net \<Rightarrow> Lease \<Rightarrow> bool \<Rightarrow> ('w, IPTablesRule list) io" where
  "masqIP6Rules ipt6 ccidr l ipMasqRandomFullyDisable =
     io_bind (io_of (IP6Net_String ccidr)) (\<lambda>cluster.
     io_bind (io_of (IP6Net_String (lease_IPv6Subnet l))) (\<lambda>pod.
     io_bind (supports_random_fully ipt6) (\<lambda>full.
       io_ret (masq_rules_of cluster pod ''ff00::/8'' (full \<and> \<not> ipMasqRandomFullyDisable)))))"

definition forwardRules :: "string \<Rightarrow> IPTablesRule list" where
  "forwardRules flannelNetwork =
     (let rule = (\<lambda>chain spec target. \<lparr>ir_Table = ''filter'', ir_Action = ''-A'', ir_Chain = chain,
                    ir_Rulespec = spec @ [''-m'', ''comment'', ''--comment'', ''flanneld forward'', ''-j'', target]\<rparr>) in
      [rule ''FORWARD'' [] ''FLANNEL-FWD'', rule ''FLANNEL-FWD'' [''-s'', flannelNetwork] ''ACCEPT'',
       rule ''FLANNEL-FWD'' [''-d'', flannelNetwork] ''ACCEPT''])"

section \<open>The manager\<close>

record IPTablesManager =
  im_ipv4Rules :: "IPTablesRule list"
  im_ipv6Rules :: "IPTablesRule list"

definition iptm_Init :: IPTablesManager where
  "iptm_Init = \<lparr>im_ipv4Rules = [], im_ipv6Rules = []\<rparr>"

definition cleanup_family :: "'w iptables \<Rightarrow> string \<Rightarrow> ('w, unit) io" where
  "cleanup_family ipt msg =
     io_try (ipt_New ipt)
       (\<lambda>_. io_bind (io_logged (ipt_ClearAndDeleteChain ipt ''nat'' ''FLANNEL-POSTRTG'')) (\<lambda>_.
              io_logged (ipt_ClearAndDeleteChain ipt ''nat'' ''FLANNEL-FWD'')))
       (\<lambda>e. io_err (Wrapped msg e))"

definition iptm_CleanUp :: "'w iptables \<Rightarrow> 'w iptables \<Rightarrow> ('w, unit) io" where
  "iptm_CleanUp ipt ipt6 =
     io_bind (cleanup_family ipt ''failed to setup IPTables. iptables binary was not found'') (\<lambda>_.
       cleanup_family ipt6 ''failed to setup IPTables. ip6tables binary was not found'')"

definition CreateChain :: "'w iptables \<Rightarrow> string \<Rightarrow> string \<Rightarrow> ('w, unit) io" where
  "CreateChain ipt table chain = io_try (ipt_New ipt) (\<lambda>_. io_logged (ipt_ClearChain ipt table chain)) (\<lambda>_. io_ret ())"

text \<open>
  Setting up returns the rules to remember, and the restore client when the periodic check has
  been started; errors of the clients are logged.
\<close>

definition setupAndEnsureTables ::
  "'w iptables \<Rightarrow> Protocol \<Rightarrow> IPTablesRule list \<Rightarrow> ('w, (IPTablesRule list \<times> ipTablesRestore) option) io" where
  "setupAndEnsureTables ipt proto rules =
     io_try (ipt_New ipt)
       (\<lambda>_. io_try (NewIPTablesRestoreWithProtocol ipt proto)
          (\<lambda>iptRestore. io_bind (io_logged (ipTablesBootstrap ipt iptRestore rules)) (\<lambda>_. io_ret (Some (rules, iptRestore))))
          (\<lambda>_. io_ret None))
       (\<lambda>_. io_ret None)"

definition remember :: "(IPTablesRule list \<times> ipTablesRestore) option \<Rightarrow> IPTablesRule list \<Rightarrow> IPTablesRule list" where
  "remember r rules = (case r of None \<Rightarrow> rules | Some (rs, _) \<Rightarrow> rules @ rs)"

definition setupAndEnsureIP4Tables :: "'w iptables \<Rightarrow> IPTablesRule list \<Rightarrow> IPTablesManager \<Rightarrow> ('w, IPTablesManager) io" where
  "setupAndEnsureIP4Tables ipt rules m =
     io_bind (setupAndEnsureTables ipt ProtocolIPv4 rules) (\<lambda>r. io_ret (m\<lparr>im_ipv4Rules := remember r (im_ipv4Rules m)\<rparr>))"

definition setupAndEnsureIP6Tables :: "'w iptables \<Rightarrow> IPTablesRule list \<Rightarrow> IPTablesManager \<Rightarrow> ('w, IPTablesManager) io" where
  "setupAndEnsureIP6Tables ipt6 rules m =
     io_bind (setupAndEnsureTables ipt6 ProtocolIPv6 rules) (\<lambda>r. io_ret (m\<lparr>im_ipv6Rules := remember r (im_ipv6Rules m)\<rparr>))"

text \<open>One round of the periodic check.\<close>

definition resync :: "'w iptables \<Rightarrow> ipTablesRestore \<Rightarrow> IPTablesRule list \<Rightarrow> ('w, unit) io" where
  "resync ipt iptRestore rules = io_logged (ensureIPTables ipt iptRestore rules)"

definition deleteTables :: "'w iptables \<Rightarrow> Protocol \<Rightarrow> IPTablesRule list \<Rightarrow> ('w, unit) io" where
  "deleteTables ipt proto rules =
     io_bind (ipt_New ipt) (\<lambda>_. io_bind (NewIPTablesRestoreWithProtocol ipt proto) (\<lambda>iptRestore. teardownIPTables ipt iptRestore rules))"

definition iptm_SetupAndEnsureForwardRules ::
  "'w iptables \<Rightarrow> 'w iptables \<Rightarrow> IP4Net \<Rightarrow> IP6Net \<Rightarrow> IPTablesManager \<Rightarrow> ('w, IPTablesManager) io" where
  "iptm_SetupAndEnsureForwardRules ipt ipt6 net4 net6 m0 =
     io_bind
       (if \<not> IP4Net_Empty net4 then
          io_bind (CreateChain ipt ''filter'' ''FLANNEL-FWD'') (\<lambda>_.
            setupAndEnsureIP4Tables ipt (forwardRules (IP4Net_String net4)) m0)
        else io_ret m0) (\<lambda>m.
     if \<not> IP6Net_Empty net6 then
       io_bind (CreateChain ipt6 ''filter'' ''FLANNEL-FWD'') (\<lambda>_.
       io_bind (io_of (IP6Net_String net6)) (\<lambda>s. setupAndEnsureIP6Tables ipt6 (forwardRules s) m))
     else io_ret m)"

definition lease_of_subnets :: "IP4Net \<Rightarrow> IP6Net \<Rightarrow> Lease" where
  "lease_of_subnets sn sn6 =
     \<lparr>lease_EnableIPv4 = False, lease_EnableIPv6 = False, lease_Subnet = sn, lease_IPv6Subnet = sn6,
      lease_Attrs = empty_attrs, lease_Expiration = 0, lease_Asof = 0\<rparr>"

definition masq4 :: "'w iptables \<Rightarrow> IP4Net \<Rightarrow> IP4Net \<Rightarrow> IP4Net \<Rightarrow> Lease \<Rightarrow> bool \<Rightarrow> IPTablesManager \<Rightarrow> ('w, IPTablesManager) io" where
  "masq4 ipt net prevSubnet prevNetwork l no_random m =
     io_bind
       (if \<not> IP4Net_Equal net prevNetwork \<or> \<not> IP4Net_Equal prevSubnet (lease_Subnet l) then
          io_bind (masqRules ipt prevNetwork (lease_of_subnets prevSubnet empty_IP6Net) no_random) (deleteTables ipt ProtocolIPv4)
        else io_ret ()) (\<lambda>_.
     io_bind (CreateChain ipt ''nat'' ''FLANNEL-POSTRTG'') (\<lambda>_.
     io_bind (masqRules ipt net l no_random) (\<lambda>rules. setupAndEnsureIP4Tables ipt rules m)))"

definition masq6 :: "'w iptables \<Rightarrow> IP6Net \<Rightarrow> IP6Net \<Rightarrow> IP6Net \<Rightarrow> Lease \<Rightarrow> bool \<Rightarrow> IPTablesManager \<Rightarrow> ('w, IPTablesManager) io" where
  "masq6 ipt6 net prevSubnet prevNetwork l no_random m =
     io_bind (io_of (IP6Net_Equal net prevNetwork)) (\<lambda>same.
     io_bind (if same then io_of (IP6Net_Equal prevSubnet (lease_IPv6Subnet l)) else io_ret False) (\<lambda>same_subnet.
     io_bind
       (if \<not> same_subnet then
          io_bind (masqIP6Rules ipt6 prevNetwork (lease_of_subnets empty_IP4Net prevSubnet) no_random) (deleteTables ipt6 ProtocolIPv6)
        else io_ret ()) (\<lambda>_.
     io_bind (CreateChain ipt6 ''nat'' ''FLANNEL-POSTRTG'') (\<lambda>_.
     io_bind (masqIP6Rules ipt6 net l no_random) (\<lambda>rules. setupAndEnsureIP6Tables ipt6 rules m)))))"

definition iptm_SetupAndEnsureMasqRules ::
  "'w iptables \<Rightarrow> 'w iptables \<Rightarrow> IP4Net \<Rightarrow> IP4Net \<Rightarrow> IP4Net \<Rightarrow> IP6Net \<Rightarrow> IP6Net \<Rightarrow> IP6Net \<Rightarrow> Lease \<Rightarrow> bool \<Rightarrow>
   IPTablesManager \<Rightarrow> ('w, IPTablesManager) io" where
  "iptm_SetupAndEnsureMasqRules ipt ipt6 net4 prevSubnet prevNetwork net6 prevIPv6Subnet prevIPv6Network l no_random m0 =
     io_bind (if \<not> IP4Net_Empty net4 then masq4 ipt net4 prevSubnet prevNetwork l no_random m0 else io_ret m0) (\<lambda>m.
       if \<not> IP6Net_Empty net6 then masq6 ipt6 net6 prevIPv6Subnet prevIPv6Network l no_random m else io_ret m)"

lemmas [go_eval] =
  ipTablesHasWaitSupport_def versionMatcher_def Atoi_def extractIptablesRestoreVersion_def getIptablesRestoreSupport_def
  getIptablesRestoreCommand_def getIptablesCommand_def NewIPTablesRestoreWithProtocol_def buildIPTablesRestorePayload_def
  ApplyWithoutFlush_def concerns_def flannel_chain_def check_error_def chain_there_def rule_there_def create_chain_def
  build_rule_def ipTablesCleanAndBuild_def ipTablesBootstrap_def ensureIPTables_def teardown_rule_def teardownIPTables_def
  nat_rule_def masq_rules_of_def supports_random_fully_def masqRules_def masqIP6Rules_def forwardRules_def iptm_Init_def
  cleanup_family_def iptm_CleanUp_def CreateChain_def setupAndEnsureTables_def remember_def setupAndEnsureIP4Tables_def
  setupAndEnsureIP6Tables_def resync_def deleteTables_def iptm_SetupAndEnsureForwardRules_def lease_of_subnets_def masq4_def masq6_def
  iptm_SetupAndEnsureMasqRules_def

end
