(* ===== verification/Iptables_Rules.thy ===== *)
theory Iptables_Rules
  imports Iptables
begin

text \<open>
  What the transactions of the traffic manager achieve. The laws of the client and of
  \<open>iptables-restore\<close> are stated over a view of the chains: their rules in order, or \<open>None\<close> for a
  chain that does not exist.
\<close>

section \<open>The laws\<close>

type_synonym chains = "string \<Rightarrow> string \<Rightarrow> string list list option"

definition set_chain :: "string \<Rightarrow> string \<Rightarrow> string list list \<Rightarrow> chains \<Rightarrow> chains" where
  "set_chain t c rs v = v(t := (v t)(c \<mapsto> rs))"

text \<open>The commands of a transaction: all of them take effect or none.\<close>

fun run_line :: "string \<Rightarrow> string list \<Rightarrow> chains \<Rightarrow> chains option" where
  "run_line t (action # c # spec) v =
     (case v t c of
        None \<Rightarrow> None
      | Some rs \<Rightarrow>
          if action = ''-A'' then Some (set_chain t c (rs @ [spec]) v)
          else if action = ''-D'' \<and> spec \<in> set rs then Some (set_chain t c (remove1 spec rs) v)
          else None)"
| "run_line t _ v = None"

fun run_lines :: "string \<Rightarrow> string list list \<Rightarrow> chains \<Rightarrow> chains option" where
  "run_lines t [] v = Some v"
| "run_lines t (l # ls) v = Option.bind (run_line t l v) (run_lines t ls)"

fun run_tables :: "RestoreRules \<Rightarrow> chains \<Rightarrow> chains option" where
  "run_tables [] v = Some v"
| "run_tables ((t, ls) # rest) v = Option.bind (run_lines t ls v) (run_tables rest)"

text \<open>The input of \<open>iptables-restore\<close>: words with a space are quoted, words are separated by a space.\<close>

definition quote_word :: "string \<Rightarrow> string" where
  "quote_word w = (if CHR '' '' \<in> set w then [chr_quote] @ w @ [chr_quote] else w)"

definition line_text :: "string list \<Rightarrow> string" where
  "line_text ws = JoinStr '' '' (map quote_word ws) @ [chr_newline]"

definition restore_text :: "RestoreRules \<Rightarrow> string" where
  "restore_text trs =
     concat (map (\<lambda>(t, ls). ''*'' @ t @ [chr_newline] @ concat (map line_text ls) @ ''COMMIT'' @ [chr_newline]) trs)"

definition plain_word :: "string \<Rightarrow> bool" where
  "plain_word w \<longleftrightarrow> w \<noteq> [] \<and> chr_quote \<notin> set w \<and> chr_newline \<notin> set w \<and> chr_bslash \<notin> set w"

definition plain_line :: "string list \<Rightarrow> bool" where
  "plain_line l \<longleftrightarrow> (\<exists>a spec. l = a # spec \<and> (a = ''-A'' \<or> a = ''-D'')) \<and> (\<forall>w \<in> set l. plain_word w)"

definition plain_rules :: "RestoreRules \<Rightarrow> bool" where
  "plain_rules trs \<longleftrightarrow> (\<forall>(t, ls) \<in> set trs. plain_word t \<and> CHR '' '' \<notin> set t \<and> (\<forall>l \<in> set ls. plain_line l))"

definition iptables_laws :: "'w iptables \<Rightarrow> ('w \<Rightarrow> chains) \<Rightarrow> bool" where
  "iptables_laws ipt view \<longleftrightarrow>
     (\<forall>t c w. \<exists>w'. ipt_ChainExists ipt t c w = Some (Ok (view w t c \<noteq> None), w') \<and> view w' = view w) \<and>
     (\<forall>t c w. \<exists>w'. ipt_ClearChain ipt t c w = Some (Ok (), w') \<and> view w' = set_chain t c [] (view w)) \<and>
     (\<forall>t c spec w rs. view w t c = Some rs \<longrightarrow>
        (\<exists>w'. ipt_Exists ipt t c spec w = Some (Ok (spec \<in> set rs), w') \<and> view w' = view w)) \<and>
     (\<forall>path args trs w. ''--noflush'' \<in> set args \<longrightarrow> plain_rules trs \<longrightarrow>
        (\<exists>q w'. exec_Run ipt path args (restore_text trs) w = Some (q, w') \<and>
           (case run_tables trs (view w) of Some v \<Rightarrow> q = Ok () \<and> view w' = v | None \<Rightarrow> fails q \<and> view w' = view w)))"

lemma iptables_lawsD:
  assumes "iptables_laws ipt view"
  shows "\<exists>w'. ipt_ChainExists ipt t c w = Some (Ok (view w t c \<noteq> None), w') \<and> view w' = view w"
    "\<exists>w'. ipt_ClearChain ipt t c w = Some (Ok (), w') \<and> view w' = set_chain t c [] (view w)"
    "view w t c = Some rs \<Longrightarrow> \<exists>w'. ipt_Exists ipt t c spec w = Some (Ok (spec \<in> set rs), w') \<and> view w' = view w"
    "''--noflush'' \<in> set args \<Longrightarrow> plain_rules trs \<Longrightarrow> \<exists>q w'. exec_Run ipt path args (restore_text trs) w = Some (q, w') \<and>
       (case run_tables trs (view w) of Some v \<Rightarrow> q = Ok () \<and> view w' = v | None \<Rightarrow> fails q \<and> view w' = view w)"
  using assms unfolding iptables_laws_def by blast+

section \<open>The text of a transaction\<close>

text \<open>Exactly the comments contain spaces.\<close>

fun comments_spaced :: "string \<Rightarrow> string list \<Rightarrow> bool" where
  "comments_spaced prev [] = True"
| "comments_spaced prev (w # ws) \<longleftrightarrow> (CHR '' '' \<in> set w \<longleftrightarrow> prev = ''--comment'') \<and> comments_spaced w ws"

lemma payload_line: "ws \<noteq> [] \<Longrightarrow> comments_spaced prev ws \<Longrightarrow> payload_words prev ws = line_text ws"
proof (induction ws arbitrary: prev rule: induct_list012)
  case (3 x y zs)
  then show ?case by (simp add: line_text_def JoinStr_def quote_word_def)
qed (simp_all add: line_text_def JoinStr_def quote_word_def)

lemma payload_text:
  assumes "\<forall>(t, ls) \<in> set trs. \<forall>l \<in> set ls. l \<noteq> [] \<and> comments_spaced [] l"
  shows "buildIPTablesRestorePayload trs = restore_text trs"
proof -
  have "map (payload_words []) ls = map line_text ls" if "(t, ls) \<in> set trs" for t ls
    using assms that payload_line by fastforce
  then show ?thesis unfolding buildIPTablesRestorePayload_def restore_text_def
    by (intro arg_cong [where f = concat] map_cong refl) (auto simp del: map_eq_conv split: prod.split)
qed

section \<open>Appending rules in order\<close>

definition renew :: "string list \<Rightarrow> string list list \<Rightarrow> string list list" where
  "renew spec rs = remove1 spec rs @ [spec]"

lemma in_renew: "s \<noteq> spec \<Longrightarrow> s \<in> set (renew spec rs) \<longleftrightarrow> s \<in> set rs"
  by (simp add: renew_def in_set_remove1)

lemma renew_suffix: "distinct body \<Longrightarrow> \<exists>xs. fold renew body rs = xs @ body"
proof (induction body arbitrary: rs rule: rev_induct)
  case (snoc s body)
  then obtain xs where xs: "fold renew body rs = xs @ body" by auto
  have "s \<notin> set body" using snoc.prems by simp
  then have "\<exists>ys. remove1 s (xs @ body) = ys @ body" by (cases "s \<in> set xs") (auto simp: remove1_append remove1_idem)
  then show ?case by (auto simp: renew_def [of s] xs)
qed simp

lemma renew_empty: "distinct body \<Longrightarrow> fold renew body [] = body"
proof (induction body rule: rev_induct)
  case (snoc s body)
  then show ?case by (simp add: renew_def remove1_idem)
qed simp

section \<open>Building a transaction\<close>

definition tbl :: "string \<Rightarrow> string list list \<Rightarrow> RestoreRules" where
  "tbl t ls = (if ls = [] then [] else [(t, ls)])"

lemma add_line_tbl [simp]: "add_line t l (tbl t ls) = tbl t (ls @ [l])"
  by (simp add: tbl_def)

lemma run_tables_tbl: "run_tables (tbl t ls) v = run_lines t ls v"
  by (simp add: tbl_def split: bind_splits)

definition rule_lines :: "chains \<Rightarrow> IPTablesRule \<Rightarrow> string list list" where
  "rule_lines v r =
     (if ir_Rulespec r \<in> set (the (v (ir_Table r) (ir_Chain r))) then [[''-D'', ir_Chain r] @ ir_Rulespec r] else []) @
     [[''-A'', ir_Chain r] @ ir_Rulespec r]"

definition del_lines :: "chains \<Rightarrow> IPTablesRule \<Rightarrow> string list list" where
  "del_lines v r = (if ir_Rulespec r \<in> set (the (v (ir_Table r) (ir_Chain r))) then [[''-D'', ir_Chain r] @ ir_Rulespec r] else [])"

text \<open>A rule whose chain, and whose flannel chain, exist.\<close>

definition rule_ready :: "chains \<Rightarrow> string \<Rightarrow> IPTablesRule \<Rightarrow> bool" where
  "rule_ready v t r \<longleftrightarrow> ir_Table r = t \<and> ir_Action r = ''-A'' \<and> v t (ir_Chain r) \<noteq> None \<and>
     (\<exists>c. flannel_chain r = Ok c \<and> (case c of None \<Rightarrow> True | Some x \<Rightarrow> v t x \<noteq> None))"

lemma chain_there_view:
  assumes "iptables_laws ipt view"
  shows "\<exists>w'. chain_there ipt r c w = Some (Ok (case c of None \<Rightarrow> True | Some x \<Rightarrow> view w (ir_Table r) x \<noteq> None), w') \<and> view w' = view w"
proof (cases c)
  case (Some x)
  obtain w' where "ipt_ChainExists ipt (ir_Table r) x w = Some (Ok (view w (ir_Table r) x \<noteq> None), w')" "view w' = view w"
    using iptables_lawsD(1) [OF assms] by blast
  with Some show ?thesis by (simp add: chain_there_def)
qed (simp add: chain_there_def)

lemma rule_there_view:
  assumes "iptables_laws ipt view" "view w (ir_Table r) (ir_Chain r) = Some rs"
  shows "\<exists>w'. rule_there ipt r w = Some (Ok (ir_Rulespec r \<in> set rs), w') \<and> view w' = view w"
proof -
  obtain w' where "ipt_Exists ipt (ir_Table r) (ir_Chain r) (ir_Rulespec r) w = Some (Ok (ir_Rulespec r \<in> set rs), w')" "view w' = view w"
    using iptables_lawsD(3) [OF assms] by blast
  then show ?thesis by (simp add: rule_there_def)
qed

lemma build_rule_view:
  assumes l: "iptables_laws ipt view" and r: "rule_ready (view w) t r"
  shows "\<exists>w'. build_rule ipt r (tbl t ls) w = Some (Ok (tbl t (ls @ rule_lines (view w) r)), w') \<and> view w' = view w"
proof -
  from r obtain c rs where c: "flannel_chain r = Ok c" "case c of None \<Rightarrow> True | Some x \<Rightarrow> view w t x \<noteq> None"
    "view w t (ir_Chain r) = Some rs" "ir_Table r = t" "ir_Action r = ''-A''" by (auto simp: rule_ready_def)
  obtain w1 where 1: "chain_there ipt r c w = Some (Ok True, w1)" "view w1 = view w"
    using chain_there_view [OF l, of r c w] c(2,4) by auto
  then obtain w2 where 2: "rule_there ipt r w1 = Some (Ok (ir_Rulespec r \<in> set rs), w2)" "view w2 = view w"
    using rule_there_view [OF l, of w1 r rs] c(3,4) by auto
  show ?thesis using 1 2 c by (auto simp: build_rule_def create_chain_def rule_lines_def)
qed

lemma build_rules_view:
  assumes l: "iptables_laws ipt view" and r: "\<forall>r \<in> set rules. rule_ready (view w) t r"
  shows "\<exists>w'. io_fold (build_rule ipt) rules (tbl t ls) w = Some (Ok (tbl t (ls @ concat (map (rule_lines (view w)) rules))), w') \<and>
    view w' = view w"
  using r
proof (induction rules arbitrary: ls w)
  case (Cons r rules)
  then obtain w1 where 1: "build_rule ipt r (tbl t ls) w = Some (Ok (tbl t (ls @ rule_lines (view w) r)), w1)" "view w1 = view w"
    using build_rule_view [OF l, of w t r ls] by auto
  from Cons.IH [of w1 "ls @ rule_lines (view w) r"] Cons.prems 1 show ?case by auto
qed simp

lemma teardown_rule_view:
  assumes l: "iptables_laws ipt view" and r: "rule_ready (view w) t r"
  shows "\<exists>w'. teardown_rule ipt r (tbl t ls) w = Some (Ok (tbl t (ls @ del_lines (view w) r)), w') \<and> view w' = view w"
proof -
  from r obtain c rs where c: "flannel_chain r = Ok c" "case c of None \<Rightarrow> True | Some x \<Rightarrow> view w t x \<noteq> None"
    "view w t (ir_Chain r) = Some rs" "ir_Table r = t" by (auto simp: rule_ready_def)
  obtain w1 where 1: "chain_there ipt r c w = Some (Ok True, w1)" "view w1 = view w"
    using chain_there_view [OF l, of r c w] c(2,4) by auto
  then obtain w2 where 2: "rule_there ipt r w1 = Some (Ok (ir_Rulespec r \<in> set rs), w2)" "view w2 = view w"
    using rule_there_view [OF l, of w1 r rs] c(3,4) by auto
  show ?thesis using 1 2 c by (auto simp: teardown_rule_def del_lines_def)
qed

lemma teardown_rules_view:
  assumes l: "iptables_laws ipt view" and r: "\<forall>r \<in> set rules. rule_ready (view w) t r"
  shows "\<exists>w'. io_fold (teardown_rule ipt) rules (tbl t ls) w = Some (Ok (tbl t (ls @ concat (map (del_lines (view w)) rules))), w') \<and>
    view w' = view w"
  using r
proof (induction rules arbitrary: ls w)
  case (Cons r rules)
  then obtain w1 where 1: "teardown_rule ipt r (tbl t ls) w = Some (Ok (tbl t (ls @ del_lines (view w) r)), w1)" "view w1 = view w"
    using teardown_rule_view [OF l, of w t r ls] by auto
  from Cons.IH [of w1 "ls @ del_lines (view w) r"] Cons.prems 1 show ?case by auto
qed simp

section \<open>Running a transaction\<close>

lemma run_append: "run_lines t (ls @ ls') v = Option.bind (run_lines t ls v) (run_lines t ls')"
proof (induction ls arbitrary: v)
  case (Cons l ls)
  then show ?case by (cases "run_line t l v") simp_all
qed simp

lemma run_rule:
  assumes "v t (ir_Chain r) = Some rs" "ir_Table r = t" "ir_Rulespec r \<in> set (the (v0 t (ir_Chain r))) \<longleftrightarrow> ir_Rulespec r \<in> set rs"
  shows "run_lines t (rule_lines v0 r) v = Some (set_chain t (ir_Chain r) (renew (ir_Rulespec r) rs) v)"
proof (cases "ir_Rulespec r \<in> set rs")
  case True
  with assms show ?thesis by (simp add: rule_lines_def set_chain_def renew_def)
next
  case False
  with assms show ?thesis by (simp add: rule_lines_def set_chain_def renew_def remove1_idem)
qed

lemma run_del:
  assumes "v t (ir_Chain r) = Some rs" "ir_Table r = t" "ir_Rulespec r \<in> set (the (v0 t (ir_Chain r))) \<longleftrightarrow> ir_Rulespec r \<in> set rs"
  shows "run_lines t (del_lines v0 r) v = Some (set_chain t (ir_Chain r) (remove1 (ir_Rulespec r) rs) v)"
proof (cases "ir_Rulespec r \<in> set rs")
  case True
  with assms show ?thesis by (simp add: del_lines_def)
next
  case False
  moreover have "set_chain t (ir_Chain r) rs v = v" using assms(1) by (simp add: set_chain_def fun_upd_idem)
  ultimately show ?thesis using assms by (simp add: del_lines_def remove1_idem)
qed

definition chain_specs :: "IPTablesRule list \<Rightarrow> string \<Rightarrow> string list list" where
  "chain_specs rules c = map ir_Rulespec (filter (\<lambda>r. ir_Chain r = c) rules)"

text \<open>Lines that change the chain of each rule by \<open>g\<close>, which keeps the other rules of the chain.\<close>

lemma run_each:
  assumes step: "\<And>r v rs. v t (ir_Chain r) = Some rs \<Longrightarrow> ir_Table r = t \<Longrightarrow>
      ir_Rulespec r \<in> set (the (v0 t (ir_Chain r))) \<longleftrightarrow> ir_Rulespec r \<in> set rs \<Longrightarrow>
      run_lines t (lf r) v = Some (set_chain t (ir_Chain r) (g (ir_Rulespec r) rs) v)"
    and others: "\<And>s spec rs. s \<noteq> spec \<Longrightarrow> s \<in> set (g spec rs) \<longleftrightarrow> s \<in> set rs"
  assumes "distinct (map (\<lambda>r. (ir_Chain r, ir_Rulespec r)) rules)" "\<forall>r \<in> set rules. ir_Table r = t \<and> v t (ir_Chain r) \<noteq> None"
    "\<forall>r \<in> set rules. ir_Rulespec r \<in> set (the (v0 t (ir_Chain r))) \<longleftrightarrow> ir_Rulespec r \<in> set (the (v t (ir_Chain r)))"
  shows "\<exists>v'. run_lines t (concat (map lf rules)) v = Some v' \<and>
    (\<forall>c. v' t c = map_option (fold g (chain_specs rules c)) (v t c))"
  using assms(3-)
proof (induction rules arbitrary: v)
  case Nil
  show ?case by (simp add: chain_specs_def option.map_ident)
next
  case (Cons r rules)
  have "v t (ir_Chain r) \<noteq> None" using Cons.prems(2) by simp
  then obtain rs where rs: "v t (ir_Chain r) = Some rs" by blast
  define v1 where "v1 = set_chain t (ir_Chain r) (g (ir_Rulespec r) rs) v"
  have 1: "run_lines t (lf r) v = Some v1"
    unfolding v1_def by (rule step) (use rs Cons.prems(2,3) in simp_all)
  have v1: "v1 t c = (if c = ir_Chain r then Some (g (ir_Rulespec r) rs) else v t c)" for c by (simp add: v1_def set_chain_def)
  have "\<exists>v'. run_lines t (concat (map lf rules)) v1 = Some v' \<and>
      (\<forall>c. v' t c = map_option (fold g (chain_specs rules c)) (v1 t c))"
  proof (rule Cons.IH)
    show "\<forall>x \<in> set rules. ir_Rulespec x \<in> set (the (v0 t (ir_Chain x))) \<longleftrightarrow> ir_Rulespec x \<in> set (the (v1 t (ir_Chain x)))"
    proof
      fix x assume x: "x \<in> set rules"
      show "ir_Rulespec x \<in> set (the (v0 t (ir_Chain x))) \<longleftrightarrow> ir_Rulespec x \<in> set (the (v1 t (ir_Chain x)))"
      proof (cases "ir_Chain x = ir_Chain r")
        case True
        have "(ir_Chain r, ir_Rulespec r) \<notin> (\<lambda>r. (ir_Chain r, ir_Rulespec r)) ` set rules" using Cons.prems(1) by simp
        moreover have "(ir_Chain x, ir_Rulespec x) \<in> (\<lambda>r. (ir_Chain r, ir_Rulespec r)) ` set rules" using x by (rule imageI)
        ultimately have "ir_Rulespec x \<noteq> ir_Rulespec r" using True by metis
        then have "ir_Rulespec x \<in> set (g (ir_Rulespec r) rs) \<longleftrightarrow> ir_Rulespec x \<in> set rs" by (rule others)
        moreover have "ir_Rulespec x \<in> set (the (v0 t (ir_Chain x))) \<longleftrightarrow> ir_Rulespec x \<in> set (the (v t (ir_Chain x)))"
          using x Cons.prems(3) by simp
        ultimately show ?thesis using True rs by (simp add: v1)
      next
        case False
        with x Cons.prems(3) show ?thesis by (simp add: v1)
      qed
    qed
  qed (use Cons.prems(1,2) v1 in simp_all)
  then obtain v' where "run_lines t (concat (map lf rules)) v1 = Some v'"
    "\<And>c. v' t c = map_option (fold g (chain_specs rules c)) (v1 t c)" by blast
  moreover have "map_option (fold g (chain_specs rules c)) (v1 t c) = map_option (fold g (chain_specs (r # rules) c)) (v t c)" for c
    using rs by (cases "c = ir_Chain r") (auto simp: v1 chain_specs_def)
  ultimately show ?case using 1 by (simp add: run_append)
qed

lemma run_rules:
  assumes "distinct (map (\<lambda>r. (ir_Chain r, ir_Rulespec r)) rules)" "\<forall>r \<in> set rules. ir_Table r = t \<and> v t (ir_Chain r) \<noteq> None"
  shows "\<exists>v'. run_lines t (concat (map (rule_lines v) rules)) v = Some v' \<and>
      (\<forall>c. v' t c = map_option (fold renew (chain_specs rules c)) (v t c))"
    "\<exists>v'. run_lines t (concat (map (del_lines v) rules)) v = Some v' \<and>
      (\<forall>c. v' t c = map_option (fold remove1 (chain_specs rules c)) (v t c))"
proof -
  show "\<exists>v'. run_lines t (concat (map (rule_lines v) rules)) v = Some v' \<and>
      (\<forall>c. v' t c = map_option (fold renew (chain_specs rules c)) (v t c))"
    by (rule run_each [where ?v0.0 = v and t = t and g = renew]) (use assms in \<open>simp_all add: run_rule in_renew\<close>)
  show "\<exists>v'. run_lines t (concat (map (del_lines v) rules)) v = Some v' \<and>
      (\<forall>c. v' t c = map_option (fold remove1 (chain_specs rules c)) (v t c))"
    by (rule run_each [where ?v0.0 = v and t = t and g = remove1]) (use assms in \<open>simp_all add: run_del in_set_remove1\<close>)
qed

section \<open>A jump and the chain it leads to\<close>

text \<open>
  The rules of one setup: a rule of a builtin chain that jumps to the flannel chain, and the rules
  of that chain.
\<close>

definition spec_ok :: "string list \<Rightarrow> bool" where
  "spec_ok spec \<longleftrightarrow> spec \<noteq> [] \<and> (\<forall>w \<in> set spec. plain_word w) \<and> comments_spaced [] spec"

definition mk_rule :: "string \<Rightarrow> string \<Rightarrow> string list \<Rightarrow> IPTablesRule" where
  "mk_rule t c spec = \<lparr>ir_Table = t, ir_Action = ''-A'', ir_Chain = c, ir_Rulespec = spec\<rparr>"

lemma mk_rule_simps [simp]:
  "ir_Table (mk_rule t c spec) = t" "ir_Action (mk_rule t c spec) = ''-A''" "ir_Chain (mk_rule t c spec) = c"
  "ir_Rulespec (mk_rule t c spec) = spec"
  by (simp_all add: mk_rule_def)

definition setup_rules :: "string \<Rightarrow> string \<Rightarrow> string \<Rightarrow> string list \<Rightarrow> string list list \<Rightarrow> IPTablesRule list" where
  "setup_rules t builtin c jump body = mk_rule t builtin jump # map (mk_rule t c) body"

definition name_ok :: "string \<Rightarrow> bool" where
  "name_ok s \<longleftrightarrow> plain_word s \<and> CHR '' '' \<notin> set s \<and> s \<noteq> ''--comment''"

definition ruleset :: "string \<Rightarrow> string \<Rightarrow> string \<Rightarrow> string list \<Rightarrow> string list list \<Rightarrow> bool" where
  "ruleset t builtin c jump body \<longleftrightarrow> name_ok t \<and> name_ok builtin \<and> name_ok c \<and> builtin \<noteq> c \<and>
     spec_ok jump \<and> (\<forall>s \<in> set body. spec_ok s) \<and> distinct body \<and>
     (\<forall>r \<in> set (setup_rules t builtin c jump body). flannel_chain r = Ok (Some c))"

lemma rulesetD:
  assumes "ruleset t builtin c jump body" "r \<in> set (setup_rules t builtin c jump body)"
  shows "ir_Table r = t" "ir_Action r = ''-A''" "flannel_chain r = Ok (Some c)" "name_ok (ir_Chain r)" "spec_ok (ir_Rulespec r)"
    "ir_Chain r = builtin \<or> ir_Chain r = c"
  using assms unfolding ruleset_def by (auto simp: setup_rules_def)

lemma line_ok:
  assumes "name_ok c" "spec_ok spec" "a = ''-A'' \<or> a = ''-D''"
  shows "comments_spaced [] (a # c # spec)" "\<forall>w \<in> set (a # c # spec). plain_word w"
proof -
  have "comments_spaced c spec" using assms(1,2) by (cases spec) (auto simp: name_ok_def spec_ok_def)
  then show "comments_spaced [] (a # c # spec)" using assms(1,3) by (auto simp: name_ok_def)
  show "\<forall>w \<in> set (a # c # spec). plain_word w" using assms by (auto simp: name_ok_def spec_ok_def plain_word_def)
qed

lemma setup_lines:
  assumes "ruleset t builtin c jump body" "lf = rule_lines v \<or> lf = del_lines v"
  defines "ls \<equiv> concat (map lf (setup_rules t builtin c jump body))"
  shows "buildIPTablesRestorePayload (tbl t ls) = restore_text (tbl t ls)" "plain_rules (tbl t ls)"
proof -
  have l: "l \<noteq> [] \<and> comments_spaced [] l \<and> plain_line l" if "l \<in> set ls" for l
  proof -
    from that obtain r where r: "r \<in> set (setup_rules t builtin c jump body)" "l \<in> set (lf r)" by (auto simp: ls_def)
    from r(2) obtain a where "l = a # ir_Chain r # ir_Rulespec r" "a = ''-A'' \<or> a = ''-D''"
      using assms(2) by (auto simp: rule_lines_def del_lines_def split: if_splits)
    with line_ok [OF rulesetD(4,5) [OF assms(1) r(1)], of a] show ?thesis by (simp add: plain_line_def)
  qed
  have "name_ok t" using assms(1) by (simp add: ruleset_def)
  then show "plain_rules (tbl t ls)" using l by (simp add: plain_rules_def tbl_def name_ok_def)
  show "buildIPTablesRestorePayload (tbl t ls) = restore_text (tbl t ls)" by (rule payload_text) (use l in \<open>auto simp: tbl_def\<close>)
qed

text \<open>A transaction that can run is applied.\<close>

lemma apply_setup:
  assumes l: "iptables_laws ipt view" and r: "ruleset t builtin c jump body" and lf: "lf = rule_lines v \<or> lf = del_lines v"
    and run: "run_lines t (concat (map lf (setup_rules t builtin c jump body))) (view w) = Some v'"
  shows "\<exists>w'. ApplyWithoutFlush ipt iptr (tbl t (concat (map lf (setup_rules t builtin c jump body)))) w = Some (Ok (), w') \<and> view w' = v'"
proof -
  let ?ls = "concat (map lf (setup_rules t builtin c jump body))"
  have run': "run_tables (tbl t ?ls) (view w) = Some v'" using run by (simp only: run_tables_tbl)
  define args where "args = [''--noflush''] @ (if itr_hasWait iptr then [''--wait''] else [])"
  obtain w2 where 2: "exec_Run ipt (itr_path iptr) args (restore_text (tbl t ?ls)) w = Some (Ok (), w2)" "view w2 = v'"
    using iptables_lawsD(4) [OF l _ setup_lines(2) [OF r lf], of args "itr_path iptr" w] run' by (auto simp: args_def)
  have "ApplyWithoutFlush ipt iptr (tbl t ?ls) w = Some (Ok (), w2)"
    using 2(1) by (simp add: ApplyWithoutFlush_def setup_lines(1) [OF r lf] args_def)
  with 2(2) show ?thesis by blast
qed

lemma setup_specs:
  assumes "ruleset t builtin c jump body"
  shows "chain_specs (setup_rules t builtin c jump body) builtin = [jump]" "chain_specs (setup_rules t builtin c jump body) c = body"
    "distinct (map (\<lambda>r. (ir_Chain r, ir_Rulespec r)) (setup_rules t builtin c jump body))"
proof -
  have "builtin \<noteq> c" "distinct body" using assms by (simp_all add: ruleset_def)
  moreover from this(1) have "filter (\<lambda>r. ir_Chain r = builtin) (map (mk_rule t c) body) = []" by (simp add: filter_empty_conv)
  moreover have "filter (\<lambda>r. ir_Chain r = c) (map (mk_rule t c) body) = map (mk_rule t c) body" by (simp add: filter_id_conv)
  ultimately show "chain_specs (setup_rules t builtin c jump body) builtin = [jump]" "chain_specs (setup_rules t builtin c jump body) c = body"
    "distinct (map (\<lambda>r. (ir_Chain r, ir_Rulespec r)) (setup_rules t builtin c jump body))"
    by (auto simp: chain_specs_def setup_rules_def comp_def distinct_map inj_on_def)
qed

text \<open>Building creates the flannel chain if it is missing; the rest of the view is unchanged.\<close>

definition with_chain :: "string \<Rightarrow> string \<Rightarrow> chains \<Rightarrow> chains" where
  "with_chain t c v = (if v t c = None then set_chain t c [] v else v)"

lemma build_setup:
  assumes l: "iptables_laws ipt view" and r: "ruleset t builtin c jump body" and b: "view w t builtin \<noteq> None"
  shows "\<exists>w'. ipTablesCleanAndBuild ipt (setup_rules t builtin c jump body) w =
      Some (Ok (tbl t (concat (map (rule_lines (with_chain t c (view w))) (setup_rules t builtin c jump body)))), w') \<and>
    view w' = with_chain t c (view w)"
proof -
  let ?rules = "setup_rules t builtin c jump body" and ?v = "with_chain t c (view w)"
  have ready: "\<forall>x \<in> set ?rules. rule_ready ?v t x"
  proof
    fix x assume x: "x \<in> set ?rules"
    have "?v t builtin \<noteq> None" "?v t c \<noteq> None" using b by (auto simp: with_chain_def set_chain_def)
    with rulesetD [OF r x] show "rule_ready ?v t x" by (auto simp: rule_ready_def)
  qed
  show ?thesis
  proof (cases "view w t c")
    case (Some cs)
    then have "?v = view w" by (simp add: with_chain_def)
    with build_rules_view [OF l, of ?rules w t "[]"] ready show ?thesis by (auto simp: ipTablesCleanAndBuild_def tbl_def)
  next
    case None
    let ?j = "mk_rule t builtin jump"
    have j: "flannel_chain ?j = Ok (Some c)" using rulesetD(3) [OF r, of ?j] by (simp add: setup_rules_def)
    obtain w1 where 1: "chain_there ipt ?j (Some c) w = Some (Ok False, w1)" "view w1 = view w"
      using chain_there_view [OF l, of ?j "Some c" w] None by auto
    obtain w2 where 2: "ipt_ClearChain ipt t c w1 = Some (Ok (), w2)" "view w2 = set_chain t c [] (view w1)"
      using iptables_lawsD(2) [OF l] by blast
    have v2: "view w2 = ?v" using 1(2) 2(2) None by (simp add: with_chain_def)
    obtain bs where bs: "view w t builtin = Some bs" using b by auto
    have "?v t builtin = Some bs" using bs r by (simp add: with_chain_def set_chain_def ruleset_def)
    then obtain w3 where 3: "rule_there ipt ?j w2 = Some (Ok (jump \<in> set bs), w3)" "view w3 = ?v"
      using rule_there_view [OF l, of w2 ?j bs] v2 by auto
    have "build_rule ipt ?j (tbl t []) w = Some (Ok (tbl t (rule_lines ?v ?j)), w3)"
      using 1(1) 2(1) 3(1) j \<open>?v t builtin = Some bs\<close>
      by (simp add: build_rule_def create_chain_def rule_lines_def tbl_def io_bind_apply io_try_apply)
    moreover obtain w4 where "io_fold (build_rule ipt) (map (mk_rule t c) body) (tbl t (rule_lines ?v ?j)) w3 =
        Some (Ok (tbl t (rule_lines ?v ?j @ concat (map (rule_lines ?v) (map (mk_rule t c) body)))), w4)" "view w4 = ?v"
      using build_rules_view [OF l, of "map (mk_rule t c) body" w3 t "rule_lines ?v ?j"] ready 3(2) by (auto simp: setup_rules_def)
    ultimately show ?thesis by (auto simp: ipTablesCleanAndBuild_def setup_rules_def tbl_def [of t "[]"])
  qed
qed

text \<open>Applied to the laws of \<open>iptables-restore\<close>.\<close>

lemma bootstrap_setup:
  assumes l: "iptables_laws ipt view" and r: "ruleset t builtin c jump body" and b: "view w t builtin = Some bs"
  shows "\<exists>w'. ipTablesBootstrap ipt iptr (setup_rules t builtin c jump body) w = Some (Ok (), w') \<and>
    view w' t builtin = Some (remove1 jump bs @ [jump]) \<and>
    view w' t c = Some (fold renew body (case view w t c of None \<Rightarrow> [] | Some cs \<Rightarrow> cs)) \<and>
    (\<forall>x. x \<noteq> builtin \<longrightarrow> x \<noteq> c \<longrightarrow> view w' t x = view w t x)"
proof -
  let ?rules = "setup_rules t builtin c jump body" and ?v = "with_chain t c (view w)"
  let ?ls = "concat (map (rule_lines ?v) ?rules)"
  obtain w1 where 1: "ipTablesCleanAndBuild ipt ?rules w = Some (Ok (tbl t ?ls), w1)" "view w1 = ?v"
    using build_setup [OF l r, of w] b by auto
  have vb: "?v t builtin = Some bs" using b r by (simp add: with_chain_def set_chain_def ruleset_def)
  have vc: "?v t c = Some (case view w t c of None \<Rightarrow> [] | Some cs \<Rightarrow> cs)"
    by (simp add: with_chain_def set_chain_def split: option.split)
  have "\<exists>v'. run_lines t ?ls ?v = Some v' \<and> (\<forall>c. v' t c = map_option (fold renew (chain_specs ?rules c)) (?v t c))"
    by (rule run_rules(1) [OF setup_specs(3) [OF r]]) (use rulesetD(1,6) [OF r] vb vc in auto)
  then obtain v' where v': "run_lines t ?ls ?v = Some v'" "\<And>c. v' t c = map_option (fold renew (chain_specs ?rules c)) (?v t c)" by blast
  obtain w2 where 2: "ApplyWithoutFlush ipt iptr (tbl t ?ls) w1 = Some (Ok (), w2)" "view w2 = v'"
    using apply_setup [OF l r, of "rule_lines ?v" ?v w1 v' iptr] v'(1) 1(2) by auto
  have "ipTablesBootstrap ipt iptr ?rules w = Some (Ok (), w2)" using 1(1) 2(1) by (simp add: ipTablesBootstrap_def)
  moreover have "view w2 t builtin = Some (remove1 jump bs @ [jump])"
    using v'(2) [of builtin] vb 2(2) by (simp add: setup_specs(1) [OF r] renew_def)
  moreover have "view w2 t c = Some (fold renew body (case view w t c of None \<Rightarrow> [] | Some cs \<Rightarrow> cs))"
    using v'(2) [of c] vc 2(2) by (simp add: setup_specs(2) [OF r])
  moreover have "view w2 t x = view w t x" if "x \<noteq> builtin" "x \<noteq> c" for x
  proof -
    have "chain_specs ?rules x = []" using rulesetD(6) [OF r] that by (fastforce simp: chain_specs_def filter_empty_conv)
    moreover have "?v t x = view w t x" using that by (simp add: with_chain_def set_chain_def)
    ultimately show ?thesis using v'(2) [of x] 2(2) by (simp add: option.map_id)
  qed
  ultimately show ?thesis by blast
qed

text \<open>The check that precedes a transaction.\<close>

definition installed :: "chains \<Rightarrow> IPTablesRule list \<Rightarrow> bool" where
  "installed v rules \<longleftrightarrow>
     (\<forall>r \<in> set rules. case v (ir_Table r) (ir_Chain r) of None \<Rightarrow> False | Some rs \<Rightarrow> ir_Rulespec r \<in> set rs)"

lemma rules_exist_view:
  assumes l: "iptables_laws ipt view" and r: "\<forall>r \<in> set rules. rule_ready (view w) (ir_Table r) r"
  shows "\<exists>w'. ipTablesRulesExist ipt rules w = Some (Ok (installed (view w) rules), w') \<and> view w' = view w"
  using r
proof (induction rules arbitrary: w)
  case (Cons r rules)
  then obtain c rs where c: "flannel_chain r = Ok c" "case c of None \<Rightarrow> True | Some x \<Rightarrow> view w (ir_Table r) x \<noteq> None"
    "view w (ir_Table r) (ir_Chain r) = Some rs" by (auto simp: rule_ready_def)
  obtain w1 where 1: "chain_there ipt r c w = Some (Ok True, w1)" "view w1 = view w"
    using chain_there_view [OF l, of r c w] c(2) by auto
  then obtain w2 where 2: "rule_there ipt r w1 = Some (Ok (ir_Rulespec r \<in> set rs), w2)" "view w2 = view w"
    using rule_there_view [OF l, of w1 r rs] c(3) by auto
  obtain w3 where 3: "ipTablesRulesExist ipt rules w2 = Some (Ok (installed (view w) rules), w3)" "view w3 = view w"
    using Cons.IH [of w2] Cons.prems 2(2) by auto
  show ?case
  proof (cases "ir_Rulespec r \<in> set rs")
    case True
    with c(1,3) 1 2 3 show ?thesis by (simp add: installed_def)
  next
    case False
    with c(1,3) 1 2 show ?thesis by (simp add: installed_def)
  qed
qed (simp add: installed_def)

lemma rules_exist_no_chain:
  assumes l: "iptables_laws ipt view" and r: "ruleset t builtin c jump body" and n: "view w t c = None"
  shows "\<exists>w'. ipTablesRulesExist ipt (setup_rules t builtin c jump body) w = Some (Ok False, w') \<and> view w' = view w"
proof -
  let ?j = "mk_rule t builtin jump"
  have j: "flannel_chain ?j = Ok (Some c)" using rulesetD(3) [OF r, of ?j] by (simp add: setup_rules_def)
  obtain w1 where "chain_there ipt ?j (Some c) w = Some (Ok False, w1)" "view w1 = view w"
    using chain_there_view [OF l, of ?j "Some c" w] n by auto
  with j show ?thesis by (simp add: setup_rules_def io_bind_apply)
qed

lemma setup_installed:
  "view t builtin = Some (xs @ [jump]) \<Longrightarrow> view t c = Some (ys @ body) \<Longrightarrow> installed view (setup_rules t builtin c jump body)"
  by (auto simp: installed_def setup_rules_def)

lemma ensure_setup:
  assumes l: "iptables_laws ipt view" and r: "ruleset t builtin c jump body" and b: "view w t builtin = Some bs"
  shows "\<exists>w'. ensureIPTables ipt iptr (setup_rules t builtin c jump body) w = Some (Ok (), w') \<and>
    installed (view w') (setup_rules t builtin c jump body) \<and>
    (view w' = view w \<or>
     (\<exists>ys. view w' t builtin = Some (remove1 jump bs @ [jump]) \<and> view w' t c = Some (ys @ body) \<and>
        (\<forall>x. x \<noteq> builtin \<longrightarrow> x \<noteq> c \<longrightarrow> view w' t x = view w t x)))"
proof -
  let ?rules = "setup_rules t builtin c jump body"
  have ex: "\<exists>w1 e. ipTablesRulesExist ipt ?rules w = Some (Ok e, w1) \<and> view w1 = view w \<and> (e \<longrightarrow> installed (view w) ?rules)"
  proof (cases "view w t c")
    case None
    then show ?thesis using rules_exist_no_chain [OF l r] by blast
  next
    case (Some cs)
    have "\<forall>x \<in> set ?rules. rule_ready (view w) (ir_Table x) x"
      using rulesetD(1,2,3,6) [OF r] b Some by (fastforce simp: rule_ready_def)
    then show ?thesis using rules_exist_view [OF l] by blast
  qed
  then obtain w1 e where 1: "ipTablesRulesExist ipt ?rules w = Some (Ok e, w1)" "view w1 = view w" "e \<longrightarrow> installed (view w) ?rules"
    by blast
  show ?thesis
  proof (cases e)
    case True
    with 1 show ?thesis by (simp add: ensureIPTables_def)
  next
    case False
    obtain w2 where 2: "ipTablesBootstrap ipt iptr ?rules w1 = Some (Ok (), w2)"
      "view w2 t builtin = Some (remove1 jump bs @ [jump])"
      "view w2 t c = Some (fold renew body (case view w1 t c of None \<Rightarrow> [] | Some cs \<Rightarrow> cs))"
      "\<forall>x. x \<noteq> builtin \<longrightarrow> x \<noteq> c \<longrightarrow> view w2 t x = view w1 t x"
      using bootstrap_setup [OF l r, of w1 bs iptr] b 1(2) by auto
    have "distinct body" using r by (simp add: ruleset_def)
    from renew_suffix [OF this] obtain ys where ys: "view w2 t c = Some (ys @ body)" using 2(3) by metis
    have "ensureIPTables ipt iptr ?rules w = Some (Ok (), w2)" using 1(1) 2(1) False by (simp add: ensureIPTables_def)
    with 2(2,4) ys setup_installed [of "view w2"] 1(2) show ?thesis by auto
  qed
qed

section \<open>The rules of the manager\<close>

definition masq_body :: "string \<Rightarrow> string \<Rightarrow> string \<Rightarrow> bool \<Rightarrow> string list list" where
  "masq_body cluster pod multicast full = map ir_Rulespec (tl (masq_rules_of cluster pod multicast full))"

abbreviation masq_jump :: "string list" where
  "masq_jump \<equiv> [''-m'', ''comment'', ''--comment'', ''flanneld masq'', ''-j'', ''FLANNEL-POSTRTG'']"

lemma masq_setup:
  "masq_rules_of cluster pod multicast full =
     setup_rules ''nat'' ''POSTROUTING'' ''FLANNEL-POSTRTG'' masq_jump (masq_body cluster pod multicast full)"
  by (simp add: masq_rules_of_def setup_rules_def masq_body_def nat_rule_def mk_rule_def Let_def)

lemma masq_ruleset:
  assumes "name_ok cluster" "name_ok pod" "name_ok multicast" "cluster \<noteq> pod"
  shows "ruleset ''nat'' ''POSTROUTING'' ''FLANNEL-POSTRTG'' masq_jump (masq_body cluster pod multicast full)"
  using assms
  by (cases full)
    (simp_all add: ruleset_def masq_body_def masq_rules_of_def nat_rule_def Let_def setup_rules_def spec_ok_def name_ok_def
      plain_word_def flannel_chain_def concerns_def mk_rule_def)

abbreviation forward_words :: "string list" where
  "forward_words \<equiv> [''-m'', ''comment'', ''--comment'', ''flanneld forward'', ''-j'']"

lemma forward_setup:
  "forwardRules net =
     setup_rules ''filter'' ''FORWARD'' ''FLANNEL-FWD'' (forward_words @ [''FLANNEL-FWD''])
       [[''-s'', net] @ forward_words @ [''ACCEPT''], [''-d'', net] @ forward_words @ [''ACCEPT'']]"
  by (simp add: forwardRules_def setup_rules_def mk_rule_def Let_def)

lemma forward_ruleset:
  assumes "name_ok net"
  shows "ruleset ''filter'' ''FORWARD'' ''FLANNEL-FWD'' (forward_words @ [''FLANNEL-FWD''])
    [[''-s'', net] @ forward_words @ [''ACCEPT''], [''-d'', net] @ forward_words @ [''ACCEPT'']]"
  using assms by (simp add: ruleset_def setup_rules_def spec_ok_def name_ok_def plain_word_def flannel_chain_def concerns_def mk_rule_def)

lemma name_ok_String: "name_ok (IP4Net_String n)"
proof -
  have "c \<notin> set (IP4Net_String n)" if "\<not> is_digit c" "c \<noteq> chr_dot" "c \<noteq> chr_slash" for c
    using IP4Net_String_chars that by blast
  moreover have "IP4Net_String n \<noteq> []" by (simp add: IP4Net_String_def)
  moreover have "IP4Net_String n \<noteq> ''--comment''"
    using IP4Net_String_chars [of "CHR ''c''" n] by (auto simp: is_digit_def code_of_def)
  ultimately show ?thesis by (simp add: name_ok_def plain_word_def is_digit_def code_of_def)
qed

end
