(* ===== verification/Iptables_Memory.thy ===== *)
theory Iptables_Memory
  imports Iptables_Rules
begin

text \<open>
  An instance of the clients kept in memory. Its world is the chains themselves, and the run of
  \<open>iptables-restore\<close> reads the text it is given back into the rules: the text of a transaction
  determines the transaction.
\<close>

section \<open>Reading the text of a transaction\<close>

fun lex_lines :: "bool \<Rightarrow> string \<Rightarrow> string list \<Rightarrow> string \<Rightarrow> string list list" where
  "lex_lines q acc ws [] = []"
| "lex_lines q acc ws (c # s) =
     (if c = chr_quote then lex_lines (\<not> q) acc ws s
      else if c = chr_newline then (ws @ [acc]) # lex_lines False [] [] s
      else if c = CHR '' '' \<and> \<not> q then lex_lines False [] (ws @ [acc]) s
      else lex_lines q (acc @ [c]) ws s)"

fun read_tables :: "(string \<times> string list list) option \<Rightarrow> string list list \<Rightarrow> RestoreRules option" where
  "read_tables None [] = Some []"
| "read_tables (Some _) [] = None"
| "read_tables None (l # ls) =
     (case l of [(c # t)] \<Rightarrow> if c = CHR ''*'' then read_tables (Some (t, [])) ls else None | _ \<Rightarrow> None)"
| "read_tables (Some (t, rs)) (l # ls) =
     (if l = [''COMMIT''] then map_option ((#) (t, rs)) (read_tables None ls) else read_tables (Some (t, rs @ [l])) ls)"

lemma lex_quoted: "chr_quote \<notin> set w \<Longrightarrow> chr_newline \<notin> set w \<Longrightarrow> lex_lines True acc ws (w @ s) = lex_lines True (acc @ w) ws s"
  by (induction w arbitrary: acc) auto

lemma lex_plain:
  "chr_quote \<notin> set w \<Longrightarrow> chr_newline \<notin> set w \<Longrightarrow> CHR '' '' \<notin> set w \<Longrightarrow> lex_lines False acc ws (w @ s) = lex_lines False (acc @ w) ws s"
  by (induction w arbitrary: acc) auto

lemma lex_word: "plain_word w \<Longrightarrow> lex_lines False [] ws (quote_word w @ s) = lex_lines False w ws s"
  using lex_quoted [of w "[]" ws "chr_quote # s"] lex_plain [of w "[]" ws s] by (simp add: quote_word_def plain_word_def)

lemma lex_words:
  "l \<noteq> [] \<Longrightarrow> \<forall>w \<in> set l. plain_word w \<Longrightarrow> lex_lines False [] ws (line_text l @ s) = (ws @ l) # lex_lines False [] [] s"
proof (induction l arbitrary: ws rule: induct_list012)
  case (2 x)
  then show ?case using lex_word [of x ws "chr_newline # s"] by (simp add: line_text_def JoinStr_def)
next
  case (3 x y zs)
  have "line_text (x # y # zs) = quote_word x @ '' '' @ line_text (y # zs)" by (simp add: line_text_def JoinStr_def)
  with 3 lex_word [of x ws "'' '' @ line_text (y # zs) @ s"] show ?case by simp
qed simp

lemma lex_lines_of:
  assumes "\<forall>l \<in> set ls. plain_line l"
  shows "lex_lines False [] [] (concat (map line_text ls) @ s) = ls @ lex_lines False [] [] s"
  using assms by (induction ls) (auto simp: plain_line_def lex_words [of _ "[]", simplified])

abbreviation table_lines :: "string \<times> string list list \<Rightarrow> string list list" where
  "table_lines \<equiv> \<lambda>(t, ls). [''*'' @ t] # ls @ [[''COMMIT'']]"

lemma lex_header:
  assumes "plain_word t" "CHR '' '' \<notin> set t"
  shows "lex_lines False [] [] (''*'' @ t @ [chr_newline] @ s) = [''*'' @ t] # lex_lines False [] [] s"
  using assms lex_plain [of t "''*''" "[]" "chr_newline # s"] by (simp add: plain_word_def)

lemma lex_text: "plain_rules trs \<Longrightarrow> lex_lines False [] [] (restore_text trs) = concat (map table_lines trs)"
proof (induction trs)
  case (Cons tr trs)
  obtain t ls where tr: "tr = (t, ls)" by fastforce
  have p: "plain_word t" "CHR '' '' \<notin> set t" "\<forall>l \<in> set ls. plain_line l" "plain_rules trs"
    using Cons.prems by (auto simp: plain_rules_def tr)
  have "lex_lines False [] [] (restore_text (tr # trs)) =
      [''*'' @ t] # ls @ lex_lines False [] [] (''COMMIT'' @ [chr_newline] @ restore_text trs)"
    using lex_header [OF p(1,2)] lex_lines_of [OF p(3)] by (simp add: restore_text_def tr)
  then show ?case using Cons.IH [OF p(4)] by (simp add: tr)
qed (simp add: restore_text_def plain_rules_def)

lemma read_lines:
  "\<forall>l \<in> set ls. plain_line l \<Longrightarrow> read_tables (Some (t, rs)) (ls @ ls') = read_tables (Some (t, rs @ ls)) ls'"
  by (induction ls arbitrary: rs) (auto simp: plain_line_def)

lemma read_text: "plain_rules trs \<Longrightarrow> read_tables None (lex_lines False [] [] (restore_text trs)) = Some trs"
proof -
  have "plain_rules trs \<Longrightarrow> read_tables None (concat (map table_lines trs)) = Some trs"
  proof (induction trs)
    case (Cons tr trs)
    then show ?case using read_lines [of "snd tr" "fst tr" "[]"] by (cases tr) (auto simp: plain_rules_def)
  qed simp
  then show "plain_rules trs \<Longrightarrow> ?thesis" by (simp add: lex_text)
qed

section \<open>The clients\<close>

definition mem_run :: "string \<Rightarrow> string list \<Rightarrow> string \<Rightarrow> (chains, unit) io" where
  "mem_run path args input w =
     (case Option.bind (read_tables None (lex_lines False [] [] input))
             (\<lambda>trs. run_tables trs (if ''--noflush'' \<in> set args then w else (\<lambda>t c. map_option (\<lambda>_. []) (w t c)))) of
        None \<Rightarrow> Some (Err (ErrorString ''iptables-restore failed''), w)
      | Some v \<Rightarrow> Some (Ok (), v))"

definition mem_iptables :: "bool \<Rightarrow> chains iptables" where
  "mem_iptables full =
     \<lparr>ipt_New = io_ret (), ipt_HasRandomFully = full,
      ipt_ChainExists = (\<lambda>t c w. Some (Ok (w t c \<noteq> None), w)),
      ipt_ClearChain = (\<lambda>t c w. Some (Ok (), set_chain t c [] w)),
      ipt_ClearAndDeleteChain = (\<lambda>t c w. if w t c = None then Some (Err (ErrorString ''no chain''), w) else Some (Ok (), w(t := (w t)(c := None)))),
      ipt_Exists = (\<lambda>t c spec w. case w t c of None \<Rightarrow> Some (Err (ErrorString ''no chain''), w) | Some rs \<Rightarrow> Some (Ok (spec \<in> set rs), w)),
      exec_LookPath = (\<lambda>b. io_ret (''/sbin/'' @ b)), exec_Version = (\<lambda>_. io_ret ''iptables v1.8.7 (legacy)''), exec_Run = mem_run\<rparr>"

lemma mem_iptables_laws: "iptables_laws (mem_iptables full) (\<lambda>w. w)"
  by (auto simp: iptables_laws_def mem_iptables_def mem_run_def read_text split: option.split)

lemma mem_version: "extractIptablesRestoreVersion ''iptables v1.8.7 (legacy)'' = Ok (1, 8, 7)"
  by (simp add: go_eval)

end
