(* ===== verification/Nftables.thy ===== *)
theory Nftables
  imports Netlink Subnet_Key
begin

text \<open>
  The traffic manager that uses \<open>nftables\<close> (\<open>pkg/trafficmngr/nftables\<close>). The \<open>knftables\<close> client of one
  table is a value of the record \<open>nft\<close>: \<open>Run\<close> and \<open>Check\<close> take the operations that the code has added to
  the transaction, in order. A rule is the list of arguments of \<open>knftables.Concat\<close>.
\<close>

section \<open>Transactions\<close>

datatype Family = IPv4Family | IPv6Family

datatype nft_arg = Word string | Fam Family

datatype BaseChainType = FilterType | NATType

datatype BaseChainHook = ForwardHook | PostroutingHook

datatype BaseChainPriority = FilterPriority | SNATPriority

record nft_chain =
  nc_Name :: string
  nc_Comment :: string
  nc_Type :: BaseChainType
  nc_Hook :: BaseChainHook
  nc_Priority :: BaseChainPriority

datatype nft_op =
  AddTable string
| DeleteTable
| AddChain nft_chain
| FlushChain string
| AddRule string "nft_arg list"

record 'w nft =
  nft_Run :: "nft_op list \<Rightarrow> ('w, unit) io"
  nft_Check :: "nft_op list \<Rightarrow> ('w, unit) io"

text \<open>The constructor of clients, \<open>knftables.New\<close>, is an argument of the operations that call it.\<close>

type_synonym 'w nft_New = "Family \<Rightarrow> string \<Rightarrow> ('w, 'w nft) io"

record 'w NFTablesManager =
  nftv4 :: "'w nft option"
  nftv6 :: "'w nft option"

abbreviation ipv4Table :: string where "ipv4Table \<equiv> ''flannel-ipv4''"
abbreviation ipv6Table :: string where "ipv6Table \<equiv> ''flannel-ipv6''"
abbreviation forwardChain :: string where "forwardChain \<equiv> ''forward''"
abbreviation postrtgChain :: string where "postrtgChain \<equiv> ''postrtg''"
abbreviation masqueradeTestTable :: string where "masqueradeTestTable \<equiv> ''masqueradeTest''"

definition nat_chain :: "string \<Rightarrow> string \<Rightarrow> nft_chain" where
  "nat_chain name comment =
     \<lparr>nc_Name = name, nc_Comment = comment, nc_Type = NATType, nc_Hook = PostroutingHook, nc_Priority = SNATPriority\<rparr>"

section \<open>Initialisation and clean-up\<close>

definition initTable :: "'w nft_New \<Rightarrow> Family \<Rightarrow> string \<Rightarrow> ('w, 'w nft) io" where
  "initTable New ipFamily name =
     io_try (New ipFamily name)
       (\<lambda>nft. io_try (nft_Run nft [AddTable (''rules for '' @ name)]) (\<lambda>_. io_ret nft)
          (\<lambda>e. io_err (Wrapped (''nftables: couldn't initialise table '' @ name) e)))
       (\<lambda>e. io_err (Wrapped ''no nftables support'' e))"

definition nftm_Init :: "'w nft_New \<Rightarrow> ('w, 'w NFTablesManager) io" where
  "nftm_Init New =
     io_bind (initTable New IPv4Family ipv4Table) (\<lambda>v4.
     io_bind (initTable New IPv6Family ipv6Table) (\<lambda>v6. io_ret \<lparr>nftv4 = Some v4, nftv6 = Some v6\<rparr>))"

definition nftm_CleanUp :: "'w nft_New \<Rightarrow> ('w, unit) io" where
  "nftm_CleanUp New =
     io_bind (io_logged (io_bind (New IPv4Family ipv4Table) (\<lambda>nft. nft_Run nft [DeleteTable]))) (\<lambda>_.
       io_logged (io_bind (New IPv6Family ipv6Table) (\<lambda>nft. nft_Run nft [DeleteTable])))"

section \<open>Forwarding\<close>

definition nft_forward_ops :: "string \<Rightarrow> string \<Rightarrow> string \<Rightarrow> nft_op list" where
  "nft_forward_ops saddr daddr net =
     [AddChain \<lparr>nc_Name = forwardChain, nc_Comment = ''chain to accept flannel traffic'', nc_Type = FilterType,
        nc_Hook = ForwardHook, nc_Priority = FilterPriority\<rparr>,
      FlushChain forwardChain,
      AddRule forwardChain [Word saddr, Word net, Word ''accept''],
      AddRule forwardChain [Word daddr, Word net, Word ''accept'']]"

definition nftm_SetupAndEnsureForwardRules :: "'w NFTablesManager \<Rightarrow> IP4Net \<Rightarrow> IP6Net \<Rightarrow> ('w, unit) io" where
  "nftm_SetupAndEnsureForwardRules nftm net4 net6 =
     io_bind
       (if \<not> IP4Net_Empty net4 then
          io_bind (io_of (deref (nftv4 nftm))) (\<lambda>nft.
            io_logged (nft_Run nft (nft_forward_ops ''ip saddr'' ''ip daddr'' (IP4Net_String net4))))
        else io_ret ()) (\<lambda>_.
     if \<not> IP6Net_Empty net6 then
       io_bind (io_of (deref (nftv6 nftm))) (\<lambda>nft.
       io_bind (io_of (IP6Net_String net6)) (\<lambda>net.
         io_logged (nft_Run nft (nft_forward_ops ''ip6 saddr'' ''ip6 daddr'' net))))
     else io_ret ())"

section \<open>Masquerading\<close>

definition checkRandomfully :: "'w NFTablesManager \<Rightarrow> ('w, bool) io" where
  "checkRandomfully nftm =
     io_bind (io_of (deref (nftv4 nftm))) (\<lambda>nft.
       io_try (nft_Check nft
           [AddChain (nat_chain masqueradeTestTable ''chain to test if masquerade random fully is supported''),
            FlushChain masqueradeTestTable,
            AddRule masqueradeTestTable [Word ''ip saddr'', Word ''!='', Word ''127.0.0.1'', Word ''masquerade fully-random'']])
         (\<lambda>_. io_ret True) (\<lambda>_. io_ret False))"

definition nft_masq_rules :: "string \<Rightarrow> string \<Rightarrow> Family \<Rightarrow> bool \<Rightarrow> nft_arg list list" where
  "nft_masq_rules clusterCidr podCidr family random_fully =
     (let masquerade = Word (if random_fully then ''masquerade fully-random'' else ''masquerade'');
          multicastCidr = (if family = IPv6Family then ''ff00::/8'' else ''224.0.0.0/4'');
          f = Fam family in
      [[Word ''meta mark'', Word ''0x4000'', Word ''return''],
       [f, Word ''saddr'', Word podCidr, f, Word ''daddr'', Word clusterCidr, Word ''return''],
       [f, Word ''saddr'', Word clusterCidr, f, Word ''daddr'', Word podCidr, Word ''return''],
       [f, Word ''saddr'', Word ''!='', Word podCidr, f, Word ''daddr'', Word clusterCidr, Word ''return''],
       [f, Word ''saddr'', Word clusterCidr, f, Word ''daddr'', Word ''!='', Word multicastCidr, masquerade],
       [f, Word ''saddr'', Word ''!='', Word clusterCidr, f, Word ''daddr'', Word clusterCidr, masquerade]])"

definition addMasqRules :: "'w NFTablesManager \<Rightarrow> nft_op list \<Rightarrow> string \<Rightarrow> string \<Rightarrow> Family \<Rightarrow> bool \<Rightarrow> ('w, nft_op list) io" where
  "addMasqRules nftm tx clusterCidr podCidr family ipMasqRandomFullyDisable =
     io_bind (checkRandomfully nftm) (\<lambda>full.
       io_ret (tx @ map (AddRule postrtgChain)
         (nft_masq_rules clusterCidr podCidr family (full \<and> \<not> ipMasqRandomFullyDisable))))"

definition nft_masq :: "'w NFTablesManager \<Rightarrow> 'w nft option \<Rightarrow> string go \<Rightarrow> string go \<Rightarrow> Family \<Rightarrow> bool \<Rightarrow> ('w, unit) io" where
  "nft_masq nftm client cluster pod family no_random =
     io_bind (io_of (deref client)) (\<lambda>nft.
     io_bind (io_of cluster) (\<lambda>clusterCidr.
     io_bind (io_of pod) (\<lambda>podCidr.
       io_try
         (io_bind
           (addMasqRules nftm
             [AddChain (nat_chain postrtgChain ''chain to manage traffic masquerading by flannel''), FlushChain postrtgChain]
             clusterCidr podCidr family no_random)
           (nft_Run nft))
         io_ret (\<lambda>e. io_err (Wrapped ''nftables: couldn't setup masq rules'' e)))))"

definition nftm_SetupAndEnsureMasqRules :: "'w NFTablesManager \<Rightarrow> IP4Net \<Rightarrow> IP6Net \<Rightarrow> Lease \<Rightarrow> bool \<Rightarrow> ('w, unit) io" where
  "nftm_SetupAndEnsureMasqRules nftm net4 net6 l no_random =
     io_bind
       (if \<not> IP4Net_Empty net4 then
          nft_masq nftm (nftv4 nftm) (Ok (IP4Net_String net4)) (Ok (IP4Net_String (lease_Subnet l))) IPv4Family no_random
        else io_ret ()) (\<lambda>_.
     if \<not> IP6Net_Empty net6 then
       nft_masq nftm (nftv6 nftm) (IP6Net_String net6) (IP6Net_String (lease_IPv6Subnet l)) IPv6Family no_random
     else io_ret ())"

lemmas [go_eval] =
  nat_chain_def initTable_def nftm_Init_def nftm_CleanUp_def nft_forward_ops_def nftm_SetupAndEnsureForwardRules_def
  checkRandomfully_def nft_masq_rules_def addMasqRules_def nft_masq_def nftm_SetupAndEnsureMasqRules_def

end
