(* ===== verification/Masquerade.thy ===== *)
theory Masquerade
  imports Iptables_Memory Nftables
begin

text \<open>
  What the traffic managers do to packets: the chains that setting up and the periodic check leave
  behind, and which packets those chains masquerade.
\<close>

section \<open>Removing the rules of the previous configuration\<close>

lemma setup_ready:
  assumes "ruleset t builtin c jump body" "v t builtin \<noteq> None" "v t c \<noteq> None"
  shows "\<forall>r \<in> set (setup_rules t builtin c jump body). rule_ready v t r"
  using rulesetD(1,2,3,6) [OF assms(1)] assms(2,3) by (fastforce simp: rule_ready_def)

lemma teardown_setup:
  assumes l: "iptables_laws ipt view" and r: "ruleset t builtin c jump body"
    and b: "view w t builtin = Some bs" "view w t c = Some cs"
  shows "\<exists>w'. teardownIPTables ipt iptr (setup_rules t builtin c jump body) w = Some (Ok (), w') \<and>
    view w' t builtin = Some (remove1 jump bs) \<and> view w' t c = Some (fold remove1 body cs)"
proof -
  let ?rules = "setup_rules t builtin c jump body"
  let ?ls = "concat (map (del_lines (view w)) ?rules)"
  obtain w1 where 1: "io_fold (teardown_rule ipt) ?rules [] w = Some (Ok (tbl t ?ls), w1)" "view w1 = view w"
    using teardown_rules_view [OF l setup_ready [OF r], of w "[]"] b by (auto simp: tbl_def [of t "[]"])
  have "\<exists>v'. run_lines t ?ls (view w) = Some v' \<and> (\<forall>c. v' t c = map_option (fold remove1 (chain_specs ?rules c)) (view w t c))"
    by (rule run_rules(2) [OF setup_specs(3) [OF r]]) (use rulesetD(1,6) [OF r] b in fastforce)
  then obtain v' where v': "run_lines t ?ls (view w) = Some v'" "\<And>c. v' t c = map_option (fold remove1 (chain_specs ?rules c)) (view w t c)"
    by blast
  obtain w2 where 2: "ApplyWithoutFlush ipt iptr (tbl t ?ls) w1 = Some (Ok (), w2)" "view w2 = v'"
    using apply_setup [OF l r, of "del_lines (view w)" "view w" w1 v' iptr] v'(1) 1(2) by auto
  have "teardownIPTables ipt iptr ?rules w = Some (Ok (), w2)" using 1(1) 2(1) by (simp add: teardownIPTables_def)
  with v'(2) 2(2) b show ?thesis by (simp add: setup_specs(1,2) [OF r])
qed

text \<open>Without the flannel chain nothing is removed.\<close>

lemma teardown_no_chain:
  assumes l: "iptables_laws ipt view" and n: "\<forall>r \<in> set rules. \<exists>c. flannel_chain r = Ok (Some c) \<and> view w (ir_Table r) c = None"
  shows "\<exists>w'. teardownIPTables ipt iptr rules w = Some (Ok (), w') \<and> view w' = view w"
proof -
  have "\<exists>w'. io_fold (teardown_rule ipt) rules [] w = Some (Ok [], w') \<and> view w' = view w"
    using n
  proof (induction rules arbitrary: w)
    case (Cons r rules)
    then obtain c where c: "flannel_chain r = Ok (Some c)" "view w (ir_Table r) c = None" by auto
    obtain w1 where 1: "chain_there ipt r (Some c) w = Some (Ok False, w1)" "view w1 = view w"
      using chain_there_view [OF l, of r "Some c" w] c(2) by auto
    then have "teardown_rule ipt r [] w = Some (Ok [], w1)" using c(1) by (simp add: teardown_rule_def io_bind_apply)
    with Cons.IH [of w1] Cons.prems 1(2) show ?case by auto
  qed simp
  then obtain w1 where 1: "io_fold (teardown_rule ipt) rules [] w = Some (Ok [], w1)" "view w1 = view w" by blast
  have "restore_text [] = buildIPTablesRestorePayload []" by (simp add: restore_text_def buildIPTablesRestorePayload_def)
  then obtain w2 where "ApplyWithoutFlush ipt iptr [] w1 = Some (Ok (), w2)" "view w2 = view w1"
    using iptables_lawsD(4) [OF l, of "[''--noflush''] @ (if itr_hasWait iptr then [''--wait''] else [])" "[]" "itr_path iptr" w1]
    by (auto simp: ApplyWithoutFlush_def plain_rules_def)
  with 1 show ?thesis by (simp add: teardownIPTables_def)
qed

section \<open>Setting up\<close>

text \<open>The clients and the binaries are there, and the version of \<open>iptables\<close> can be read.\<close>

definition client_laws :: "'w iptables \<Rightarrow> ('w \<Rightarrow> chains) \<Rightarrow> bool" where
  "client_laws ipt view \<longleftrightarrow>
     (\<forall>w. \<exists>w'. ipt_New ipt w = Some (Ok (), w') \<and> view w' = view w) \<and>
     (\<forall>b w. \<exists>path w'. exec_LookPath ipt b w = Some (Ok path, w') \<and> view w' = view w) \<and>
     (\<forall>path w. \<exists>s vs w'. exec_Version ipt path w = Some (Ok s, w') \<and> extractIptablesRestoreVersion s = Ok vs \<and> view w' = view w)"

lemma client_lawsD:
  assumes "client_laws ipt view"
  shows "\<exists>w'. ipt_New ipt w = Some (Ok (), w') \<and> view w' = view w"
    "\<exists>iptr w'. NewIPTablesRestoreWithProtocol ipt proto w = Some (Ok iptr, w') \<and> view w' = view w"
    "\<exists>w'. supports_random_fully ipt w = Some (Ok (ipt_HasRandomFully ipt), w') \<and> view w' = view w"
proof -
  have new: "\<exists>w'. ipt_New ipt w = Some (Ok (), w') \<and> view w' = view w" for w using assms unfolding client_laws_def by blast
  have look: "\<exists>path w'. exec_LookPath ipt b w = Some (Ok path, w') \<and> view w' = view w" for b w
    using assms unfolding client_laws_def by blast
  have ver: "\<exists>s vs w'. exec_Version ipt path w = Some (Ok s, w') \<and> extractIptablesRestoreVersion s = Ok vs \<and> view w' = view w" for path w
    using assms unfolding client_laws_def by blast
  show "\<exists>w'. ipt_New ipt w = Some (Ok (), w') \<and> view w' = view w" by (rule new)
  show "\<exists>w'. supports_random_fully ipt w = Some (Ok (ipt_HasRandomFully ipt), w') \<and> view w' = view w"
    using new [of w] by (auto simp: supports_random_fully_def)
  obtain p1 w1 where 1: "exec_LookPath ipt (getIptablesRestoreCommand proto) w = Some (Ok p1, w1)" "view w1 = view w" using look by blast
  obtain p2 w2 where 2: "exec_LookPath ipt (getIptablesCommand proto) w1 = Some (Ok p2, w2)" "view w2 = view w1" using look by blast
  obtain s v1 v2 v3 w3 where 3: "exec_Version ipt p2 w2 = Some (Ok s, w3)" "extractIptablesRestoreVersion s = Ok (v1, v2, v3)"
    "view w3 = view w2" using ver by (metis prod_cases3)
  show "\<exists>iptr w'. NewIPTablesRestoreWithProtocol ipt proto w = Some (Ok iptr, w') \<and> view w' = view w"
    using 1 2 3 by (simp add: NewIPTablesRestoreWithProtocol_def getIptablesRestoreSupport_def)
qed

lemma CreateChain_view:
  assumes "iptables_laws ipt view" "client_laws ipt view"
  shows "\<exists>w'. CreateChain ipt t c w = Some (Ok (), w') \<and> view w' = set_chain t c [] (view w)"
proof -
  obtain w1 where 1: "ipt_New ipt w = Some (Ok (), w1)" "view w1 = view w" using client_lawsD(1) [OF assms(2)] by blast
  obtain w2 where 2: "ipt_ClearChain ipt t c w1 = Some (Ok (), w2)" "view w2 = set_chain t c [] (view w1)"
    using iptables_lawsD(2) [OF assms(1)] by blast
  from 1 2 show ?thesis by (simp add: CreateChain_def io_logged_def)
qed

lemma setup_tables:
  assumes l: "iptables_laws ipt view" "client_laws ipt view" and r: "ruleset t builtin c jump body"
    and b: "view w t builtin = Some bs" "view w t c = Some []"
  shows "\<exists>iptr w'. setupAndEnsureTables ipt proto (setup_rules t builtin c jump body) w =
      Some (Ok (Some (setup_rules t builtin c jump body, iptr)), w') \<and>
    view w' t builtin = Some (remove1 jump bs @ [jump]) \<and> view w' t c = Some body"
proof -
  obtain w1 where 1: "ipt_New ipt w = Some (Ok (), w1)" "view w1 = view w" using client_lawsD(1) [OF l(2)] by blast
  obtain iptr w2 where 2: "NewIPTablesRestoreWithProtocol ipt proto w1 = Some (Ok iptr, w2)" "view w2 = view w"
    using client_lawsD(2) [OF l(2), of proto w1] 1(2) by auto
  obtain w3 where 3: "ipTablesBootstrap ipt iptr (setup_rules t builtin c jump body) w2 = Some (Ok (), w3)"
    "view w3 t builtin = Some (remove1 jump bs @ [jump])" "view w3 t c = Some (fold renew body [])"
    using bootstrap_setup [OF l(1) r, of w2 bs iptr] b 2(2) by auto
  have "distinct body" using r by (simp add: ruleset_def)
  then have "fold renew body [] = body" by (rule renew_empty)
  with 1 2 3 show ?thesis by (simp add: setupAndEnsureTables_def io_logged_def)
qed

abbreviation masq4_rules :: "IP4Net \<Rightarrow> IP4Net \<Rightarrow> bool \<Rightarrow> IPTablesRule list" where
  "masq4_rules net sn full \<equiv> masq_rules_of (IP4Net_String net) (IP4Net_String sn) ''224.0.0.0/4'' full"

abbreviation masq4_body :: "IP4Net \<Rightarrow> IP4Net \<Rightarrow> bool \<Rightarrow> string list list" where
  "masq4_body net sn full \<equiv> masq_body (IP4Net_String net) (IP4Net_String sn) ''224.0.0.0/4'' full"

lemma masq4_ruleset:
  assumes "net \<noteq> sn"
  shows "ruleset ''nat'' ''POSTROUTING'' ''FLANNEL-POSTRTG'' masq_jump (masq4_body net sn full)"
proof (rule masq_ruleset)
  show "name_ok ''224.0.0.0/4''" by (simp add: name_ok_def plain_word_def)
  show "IP4Net_String net \<noteq> IP4Net_String sn" using assms IP4Net_String_inject by blast
qed (rule name_ok_String)+

lemma masq_flannel_chain: "r \<in> set (masq_rules_of cluster pod multicast full) \<Longrightarrow> flannel_chain r = Ok (Some ''FLANNEL-POSTRTG'') \<and> ir_Table r = ''nat''"
  by (cases full) (auto simp: masq_rules_of_def nat_rule_def flannel_chain_def concerns_def Let_def)

text \<open>Removing the rules of the previous configuration, if there is a chain with them.\<close>

lemma delete_masq:
  assumes l: "iptables_laws ipt view" "client_laws ipt view" and b: "view w ''nat'' ''POSTROUTING'' = Some bs"
    and d: "view w ''nat'' ''FLANNEL-POSTRTG'' = None \<or> net \<noteq> sn"
  shows "\<exists>bs' w'. deleteTables ipt proto (masq4_rules net sn full) w = Some (Ok (), w') \<and>
    view w' ''nat'' ''POSTROUTING'' = Some bs' \<and> (bs' = bs \<or> bs' = remove1 masq_jump bs)"
proof -
  obtain w1 where 1: "ipt_New ipt w = Some (Ok (), w1)" "view w1 = view w" using client_lawsD(1) [OF l(2)] by blast
  obtain iptr w2 where 2: "NewIPTablesRestoreWithProtocol ipt proto w1 = Some (Ok iptr, w2)" "view w2 = view w"
    using client_lawsD(2) [OF l(2), of proto w1] 1(2) by auto
  have "\<exists>bs' w'. teardownIPTables ipt iptr (masq4_rules net sn full) w2 = Some (Ok (), w') \<and>
    view w' ''nat'' ''POSTROUTING'' = Some bs' \<and> (bs' = bs \<or> bs' = remove1 masq_jump bs)"
  proof (cases "view w ''nat'' ''FLANNEL-POSTRTG''")
    case None
    have "\<exists>w'. teardownIPTables ipt iptr (masq4_rules net sn full) w2 = Some (Ok (), w') \<and> view w' = view w2"
      by (rule teardown_no_chain [OF l(1)]) (use masq_flannel_chain None 2(2) in auto)
    with b 2(2) show ?thesis by auto
  next
    case (Some cs)
    with d have "net \<noteq> sn" by simp
    from teardown_setup [OF l(1) masq4_ruleset [OF this], of w2 bs cs iptr full] b Some 2(2) show ?thesis
      by (auto simp: masq_setup)
  qed
  with 1(1) 2(1) show ?thesis by (simp add: deleteTables_def)
qed

lemma masqRules_view:
  assumes "client_laws ipt view"
  shows "\<exists>w'. masqRules ipt net l no_random w = Some (Ok (masq4_rules net (lease_Subnet l) (ipt_HasRandomFully ipt \<and> \<not> no_random)), w') \<and>
    view w' = view w"
  using client_lawsD(3) [OF assms, of w] by (auto simp: masqRules_def)

definition delete_previous :: "'w iptables \<Rightarrow> IP4Net \<Rightarrow> IP4Net \<Rightarrow> IP4Net \<Rightarrow> IP4Net \<Rightarrow> bool \<Rightarrow> ('w, unit) io" where
  "delete_previous ipt net prevNetwork sn prevSubnet no_random =
     (if \<not> IP4Net_Equal net prevNetwork \<or> \<not> IP4Net_Equal prevSubnet sn then
        io_bind (masqRules ipt prevNetwork (lease_of_subnets prevSubnet empty_IP6Net) no_random) (deleteTables ipt ProtocolIPv4)
      else io_ret ())"

lemma delete_previous_view:
  assumes l: "iptables_laws ipt view" "client_laws ipt view" and b: "view w ''nat'' ''POSTROUTING'' = Some bs"
    and d: "view w ''nat'' ''FLANNEL-POSTRTG'' = None \<or> prevNetwork \<noteq> prevSubnet"
  shows "\<exists>bs' w'. delete_previous ipt net prevNetwork sn prevSubnet no_random w = Some (Ok (), w') \<and>
    view w' ''nat'' ''POSTROUTING'' = Some bs' \<and> set bs' \<subseteq> set bs"
proof (cases "\<not> IP4Net_Equal net prevNetwork \<or> \<not> IP4Net_Equal prevSubnet sn")
  case True
  let ?rules = "masq4_rules prevNetwork prevSubnet (ipt_HasRandomFully ipt \<and> \<not> no_random)"
  have sn: "lease_Subnet (lease_of_subnets prevSubnet empty_IP6Net) = prevSubnet" by (simp add: lease_of_subnets_def)
  obtain w0 where 0: "masqRules ipt prevNetwork (lease_of_subnets prevSubnet empty_IP6Net) no_random w = Some (Ok ?rules, w0)" "view w0 = view w"
    using masqRules_view [OF l(2), of prevNetwork "lease_of_subnets prevSubnet empty_IP6Net" no_random w] unfolding sn by blast
  have "view w0 ''nat'' ''POSTROUTING'' = Some bs" "view w0 ''nat'' ''FLANNEL-POSTRTG'' = None \<or> prevNetwork \<noteq> prevSubnet"
    using b d 0(2) by simp_all
  from delete_masq [OF l, OF this] obtain bs' w' where 1: "deleteTables ipt ProtocolIPv4 ?rules w0 = Some (Ok (), w')"
    "view w' ''nat'' ''POSTROUTING'' = Some bs'" "bs' = bs \<or> bs' = remove1 masq_jump bs" by blast
  have "set bs' \<subseteq> set bs" using 1(3) set_remove1_subset [of masq_jump bs] by blast
  moreover have "delete_previous ipt net prevNetwork sn prevSubnet no_random w = Some (Ok (), w')"
    using True 0(1) 1(1) by (simp only: delete_previous_def if_True io_bind_apply option.case prod.case go.case)
  ultimately show ?thesis using 1(2) by blast
next
  case False
  with b show ?thesis by (simp add: delete_previous_def)
qed

lemma masq4_steps:
  assumes "delete_previous ipt net prevNetwork (lease_Subnet l) prevSubnet no_random w = Some (Ok (), w1)"
    "CreateChain ipt ''nat'' ''FLANNEL-POSTRTG'' w1 = Some (Ok (), w2)" "masqRules ipt net l no_random w2 = Some (Ok rules, w3)"
    "setupAndEnsureTables ipt ProtocolIPv4 rules w3 = Some (Ok (Some (rules, iptr)), w4)"
  shows "masq4 ipt net prevSubnet prevNetwork l no_random m w = Some (Ok (m\<lparr>im_ipv4Rules := im_ipv4Rules m @ rules\<rparr>), w4)"
  using assms unfolding masq4_def delete_previous_def [symmetric]
  by (simp add: io_bind_apply setupAndEnsureIP4Tables_def remember_def)

text \<open>
  C28. Setting up masquerading: the rules of the previous network and subnet are removed, the
  flannel chain then holds exactly the rules for the lease, in order, the last rule of the
  postrouting chain jumps to it and the manager remembers the rules.
\<close>

theorem masquerade_chain_set_up:
  assumes "iptables_laws ipt view" "client_laws ipt view"
    and "\<not> IP4Net_Empty net" "net \<noteq> lease_Subnet l" "view w ''nat'' ''POSTROUTING'' = Some bs"
    and "view w ''nat'' ''FLANNEL-POSTRTG'' = None \<or> prevNetwork \<noteq> prevSubnet"
    and "rules = masq_rules_of (IP4Net_String net) (IP4Net_String (lease_Subnet l)) ''224.0.0.0/4'' (ipt_HasRandomFully ipt \<and> \<not> no_random)"
  shows "\<exists>w' bs'.
    iptm_SetupAndEnsureMasqRules ipt ipt6 net prevSubnet prevNetwork empty_IP6Net prevIPv6Subnet prevIPv6Network l no_random m w =
      Some (Ok (m\<lparr>im_ipv4Rules := im_ipv4Rules m @ rules\<rparr>), w') \<and>
    view w' ''nat'' ''FLANNEL-POSTRTG'' = Some (map ir_Rulespec (tl rules)) \<and>
    view w' ''nat'' ''POSTROUTING'' = Some (bs' @ [ir_Rulespec (hd rules)]) \<and> set bs' \<subseteq> set bs"
proof -
  let ?full = "ipt_HasRandomFully ipt \<and> \<not> no_random"
  obtain bs1 w1 where 1: "delete_previous ipt net prevNetwork (lease_Subnet l) prevSubnet no_random w = Some (Ok (), w1)"
    "view w1 ''nat'' ''POSTROUTING'' = Some bs1" "set bs1 \<subseteq> set bs" using delete_previous_view [OF assms(1,2), OF assms(5,6)] by blast
  obtain w2 where 2: "CreateChain ipt ''nat'' ''FLANNEL-POSTRTG'' w1 = Some (Ok (), w2)"
    "view w2 = set_chain ''nat'' ''FLANNEL-POSTRTG'' [] (view w1)" using CreateChain_view [OF assms(1,2)] by blast
  obtain w3 where 3: "masqRules ipt net l no_random w2 = Some (Ok rules, w3)" "view w3 = view w2"
    using masqRules_view [OF assms(2)] unfolding assms(7) by blast
  have "view w3 ''nat'' ''POSTROUTING'' = Some bs1" "view w3 ''nat'' ''FLANNEL-POSTRTG'' = Some []"
    using 1(2) 2(2) 3(2) by (simp_all add: set_chain_def)
  from setup_tables [OF assms(1,2), OF masq4_ruleset [OF assms(4), of ?full], OF this, folded masq_setup, folded assms(7)]
  obtain iptr w4 where 4: "setupAndEnsureTables ipt ProtocolIPv4 rules w3 = Some (Ok (Some (rules, iptr)), w4)"
    "view w4 ''nat'' ''POSTROUTING'' = Some (remove1 masq_jump bs1 @ [masq_jump])"
    "view w4 ''nat'' ''FLANNEL-POSTRTG'' = Some (masq4_body net (lease_Subnet l) ?full)" by blast
  have "iptm_SetupAndEnsureMasqRules ipt ipt6 net prevSubnet prevNetwork empty_IP6Net prevIPv6Subnet prevIPv6Network l no_random m w =
      Some (Ok (m\<lparr>im_ipv4Rules := im_ipv4Rules m @ rules\<rparr>), w4)"
    using assms(3) masq4_steps [OF 1(1) 2(1) 3(1) 4(1), of m] by (simp add: iptm_SetupAndEnsureMasqRules_def io_bind_apply IP6Net_Empty_def)
  moreover have "ir_Rulespec (hd rules) = masq_jump" by (simp add: assms(7) masq_setup setup_rules_def)
  moreover have "map ir_Rulespec (tl rules) = masq4_body net (lease_Subnet l) ?full" by (simp only: assms(7) masq_body_def)
  moreover have "set (remove1 masq_jump bs1) \<subseteq> set bs" using 1(3) set_remove1_subset [of masq_jump bs1] by (rule order_trans [rotated])
  ultimately show ?thesis using 4(2,3) by metis
qed

abbreviation (input) mkNet4 :: "IP4 \<Rightarrow> uint \<Rightarrow> IP4Net" where
  "mkNet4 a n \<equiv> \<lparr>ip4_IP = a, ip4_PrefixLen = n\<rparr>"

lemma mem_client_laws: "client_laws (mem_iptables full) (\<lambda>w. w)"
  by (simp add: client_laws_def mem_iptables_def mem_version)

definition host_chains :: chains where
  "host_chains t c = (if t = ''nat'' \<and> c = ''POSTROUTING'' then Some [[''-j'', ''KUBE-POSTROUTING'']] else None)"

lemma masquerade_chain_set_up_witness:
  "\<exists>w' bs' rules.
    rules = masq_rules_of (IP4Net_String (mkNet4 0x0AF40000 16)) (IP4Net_String (mkNet4 0x0AF40100 24)) ''224.0.0.0/4'' (True \<and> \<not> False) \<and>
    iptm_SetupAndEnsureMasqRules (mem_iptables True) (mem_iptables True) (mkNet4 0x0AF40000 16) empty_IP4Net empty_IP4Net
      empty_IP6Net empty_IP6Net empty_IP6Net (lease_of_subnets (mkNet4 0x0AF40100 24) empty_IP6Net) False iptm_Init host_chains =
      Some (Ok (iptm_Init\<lparr>im_ipv4Rules := im_ipv4Rules iptm_Init @ rules\<rparr>), w') \<and>
    w' ''nat'' ''FLANNEL-POSTRTG'' = Some (map ir_Rulespec (tl rules)) \<and>
    w' ''nat'' ''POSTROUTING'' = Some (bs' @ [ir_Rulespec (hd rules)]) \<and> set bs' \<subseteq> {[''-j'', ''KUBE-POSTROUTING'']}"
proof -
  let ?l = "lease_of_subnets (mkNet4 0x0AF40100 24) empty_IP6Net"
  have l: "lease_Subnet ?l = mkNet4 0x0AF40100 24" by (simp add: lease_of_subnets_def)
  have h: "ipt_HasRandomFully (mem_iptables True) = True" by (simp add: mem_iptables_def)
  have 1: "\<not> IP4Net_Empty (mkNet4 0x0AF40000 16)" "mkNet4 0x0AF40000 16 \<noteq> lease_Subnet ?l"
    by (simp_all add: l IP4Net_Empty_def)
  have 2: "host_chains ''nat'' ''POSTROUTING'' = Some [[''-j'', ''KUBE-POSTROUTING'']]"
    "host_chains ''nat'' ''FLANNEL-POSTRTG'' = None \<or> empty_IP4Net \<noteq> empty_IP4Net" by (simp_all add: host_chains_def)
  show ?thesis
    using masquerade_chain_set_up [OF mem_iptables_laws [of True] mem_client_laws, where w = host_chains, OF 1, OF 2 refl,
        of "mem_iptables True" empty_IP6Net empty_IP6Net False iptm_Init]
    unfolding l h by auto
qed

section \<open>The periodic check\<close>



end
