(* ===== verification/Packet_Decision.thy ===== *)
theory Packet_Decision
  imports Masquerade
begin

text \<open>
  Which packets the chains of the two traffic managers masquerade. How the kernel matches a rule
  is a parameter; the laws say what the conditions that flannel writes mean, as the manuals of
  \<open>iptables\<close> and \<open>nft\<close> document them.
\<close>

section \<open>Packets and conditions\<close>

record packet =
  pk_src :: IP4
  pk_dst :: IP4
  pk_mark :: "32 word"

datatype cond = Mark | Src bool IP4Net | Dst bool IP4Net

definition cond_ok :: "cond \<Rightarrow> bool" where
  "cond_ok c \<longleftrightarrow> (case c of Mark \<Rightarrow> True | Src _ n \<Rightarrow> ip4_wf n | Dst _ n \<Rightarrow> ip4_wf n)"

definition net_holds :: "bool \<Rightarrow> IP4Net \<Rightarrow> IP4 \<Rightarrow> bool" where
  "net_holds negated n ip \<longleftrightarrow> (IP4Net_Contains n ip \<noteq> negated)"

text \<open>The rules of a chain are tried in order; the first that matches decides.\<close>

primrec first_match :: "('r \<Rightarrow> bool) \<Rightarrow> 'r list \<Rightarrow> 'r option" where
  "first_match m [] = None"
| "first_match m (r # rs) = (if m r then Some r else first_match m rs)"

lemma first_match_find: "first_match m rs = List.find m rs"
  by (induction rs) simp_all

section \<open>iptables\<close>

definition ipt_holds :: "packet \<Rightarrow> cond \<Rightarrow> bool" where
  "ipt_holds p c =
     (case c of Mark \<Rightarrow> pk_mark p AND 0x4000 = 0x4000
      | Src b n \<Rightarrow> net_holds b n (pk_src p) | Dst b n \<Rightarrow> net_holds b n (pk_dst p))"

definition ipt_words :: "cond \<Rightarrow> string list" where
  "ipt_words c =
     (case c of Mark \<Rightarrow> [''-m'', ''mark'', ''--mark'', ''0x4000/0x4000'']
      | Src b n \<Rightarrow> (if b then [''!''] else []) @ [''-s'', IP4Net_String n]
      | Dst b n \<Rightarrow> (if b then [''!''] else []) @ [''-d'', IP4Net_String n])"

abbreviation comment_words :: "string list" where
  "comment_words \<equiv> [''-m'', ''comment'', ''--comment'', ''flanneld masq'']"

text \<open>A rule matches when all its conditions hold; a comment is no condition.\<close>

definition ipt_match_law :: "(packet \<Rightarrow> string list \<Rightarrow> bool) \<Rightarrow> bool" where
  "ipt_match_law m \<longleftrightarrow>
     (\<forall>p cs tgt. (\<forall>c \<in> set cs. cond_ok c) \<longrightarrow>
        (m p (concat (map ipt_words cs) @ comment_words @ [''-j''] @ tgt) \<longleftrightarrow> (\<forall>c \<in> set cs. ipt_holds p c)))"

fun rule_target :: "string list \<Rightarrow> string option" where
  "rule_target (w # t # ws) = (if w = ''-j'' then Some t else rule_target (t # ws))"
| "rule_target _ = None"

definition ipt_masquerades :: "(packet \<Rightarrow> string list \<Rightarrow> bool) \<Rightarrow> string list list \<Rightarrow> packet \<Rightarrow> bool" where
  "ipt_masquerades m specs p \<longleftrightarrow> (\<exists>spec. first_match (m p) specs = Some spec \<and> rule_target spec = Some ''MASQUERADE'')"

abbreviation (input) multicast :: IP4Net where
  "multicast \<equiv> \<lparr>ip4_IP = 0xE0000000, ip4_PrefixLen = 4\<rparr>"

lemma String_no_flag: "IP4Net_String n \<noteq> ''-j''"
  using IP4Net_String_chars [of "CHR ''j''" n] by (auto simp: is_digit_def code_of_def)

lemma multicast_String: "IP4Net_String multicast = ''224.0.0.0/4''"
  by (simp add: go_eval)


text \<open>An implementation of the matches that reads the words of a rule.\<close>

definition in_net :: "string \<Rightarrow> IP4 \<Rightarrow> bool" where
  "in_net s ip =
     (case ParseCIDR s of
        None \<Rightarrow> False
      | Some (_, ipnet) \<Rightarrow> (case FromIPNet ipnet of Ok n \<Rightarrow> IP4Net_Contains n ip | _ \<Rightarrow> False))"

lemma in_net_String:
  assumes "ip4_wf n"
  shows "in_net (IP4Net_String n) ip \<longleftrightarrow> IP4Net_Contains n ip"
proof -
  have "IP4Net_Contains (IP4Net_Network n) ip = IP4Net_Contains n ip"
    by (simp add: IP4Net_Contains_def IP4Net_Network_def IP4Net_Mask_def and.assoc)
  with ParseCIDR_IP4Net [OF assms] show ?thesis by (auto simp: in_net_def)
qed

fun ipt_match :: "packet \<Rightarrow> string list \<Rightarrow> bool" where
  "ipt_match p (a # b # ws) =
     (if a = ''-j'' then True
      else if a = ''-s'' then in_net b (pk_src p) \<and> ipt_match p ws
      else if a = ''-d'' then in_net b (pk_dst p) \<and> ipt_match p ws
      else if a = ''--mark'' then pk_mark p AND 0x4000 = 0x4000 \<and> ipt_match p ws
      else if a = ''!'' then
        (case ws of n # ws' \<Rightarrow> \<not> in_net n (if b = ''-s'' then pk_src p else pk_dst p) \<and> ipt_match p ws' | [] \<Rightarrow> False)
      else ipt_match p ws)"
| "ipt_match p _ = True"

lemma ipt_match_cond:
  assumes "cond_ok c"
  shows "ipt_match p (ipt_words c @ ws) \<longleftrightarrow> ipt_holds p c \<and> ipt_match p ws"
  using assms by (cases c) (auto simp: ipt_words_def ipt_holds_def cond_ok_def net_holds_def in_net_String)

lemma ipt_match_obeys: "ipt_match_law ipt_match"
proof -
  have base: "ipt_match p (comment_words @ [''-j''] @ tgt)" for p tgt by (cases tgt) simp_all
  have "ipt_match p (concat (map ipt_words cs) @ comment_words @ [''-j''] @ tgt) \<longleftrightarrow> (\<forall>c \<in> set cs. ipt_holds p c)"
    if "\<forall>c \<in> set cs. cond_ok c" for p cs tgt
    using that
  proof (induction cs)
    case (Cons c cs)
    then show ?case using ipt_match_cond [of c p "concat (map ipt_words cs) @ comment_words @ [''-j''] @ tgt"] by simp
  qed (use base in simp)
  then show ?thesis unfolding ipt_match_law_def by blast
qed


section \<open>nftables\<close>

definition nft_holds :: "packet \<Rightarrow> cond \<Rightarrow> bool" where
  "nft_holds p c =
     (case c of Mark \<Rightarrow> pk_mark p = 0x4000
      | Src b n \<Rightarrow> net_holds b n (pk_src p) | Dst b n \<Rightarrow> net_holds b n (pk_dst p))"

definition nft_words :: "cond \<Rightarrow> nft_arg list" where
  "nft_words c =
     (case c of Mark \<Rightarrow> [Word ''meta mark'', Word ''0x4000'']
      | Src b n \<Rightarrow> [Fam IPv4Family, Word ''saddr''] @ (if b then [Word ''!='']  else []) @ [Word (IP4Net_String n)]
      | Dst b n \<Rightarrow> [Fam IPv4Family, Word ''daddr''] @ (if b then [Word ''!='']  else []) @ [Word (IP4Net_String n)])"

definition nft_match_law :: "(packet \<Rightarrow> nft_arg list \<Rightarrow> bool) \<Rightarrow> bool" where
  "nft_match_law m \<longleftrightarrow>
     (\<forall>p cs tgt. (\<forall>c \<in> set cs. cond_ok c) \<longrightarrow>
        (m p (concat (map nft_words cs) @ [Word tgt]) \<longleftrightarrow> (\<forall>c \<in> set cs. nft_holds p c)))"

definition nft_masquerades :: "(packet \<Rightarrow> nft_arg list \<Rightarrow> bool) \<Rightarrow> nft_arg list list \<Rightarrow> packet \<Rightarrow> bool" where
  "nft_masquerades m rules p \<longleftrightarrow>
     (\<exists>r. first_match (m p) rules = Some r \<and> last r \<in> {Word ''masquerade'', Word ''masquerade fully-random''})"

text \<open>A transaction of \<open>nft\<close>: adding a chain that exists keeps it.\<close>

type_synonym nft_chains = "string \<Rightarrow> nft_arg list list option"

fun run_op :: "nft_op \<Rightarrow> nft_chains \<Rightarrow> nft_chains option" where
  "run_op (AddTable _) v = Some v"
| "run_op DeleteTable v = Some (\<lambda>_. None)"
| "run_op (AddChain c) v = Some (if v (nc_Name c) = None then v(nc_Name c \<mapsto> []) else v)"
| "run_op (FlushChain c) v = (if v c = None then None else Some (v(c \<mapsto> [])))"
| "run_op (AddRule c r) v = (case v c of None \<Rightarrow> None | Some rs \<Rightarrow> Some (v(c \<mapsto> rs @ [r])))"

fun run_ops :: "nft_op list \<Rightarrow> nft_chains \<Rightarrow> nft_chains option" where
  "run_ops [] v = Some v"
| "run_ops (x # xs) v = Option.bind (run_op x v) (run_ops xs)"

definition nft_laws :: "'w nft \<Rightarrow> ('w \<Rightarrow> nft_chains) \<Rightarrow> bool" where
  "nft_laws nft view \<longleftrightarrow>
     (\<forall>xs w. \<exists>q w'. nft_Run nft xs w = Some (q, w') \<and>
        (case run_ops xs (view w) of Some v \<Rightarrow> q = Ok () \<and> view w' = v | None \<Rightarrow> fails q \<and> view w' = view w)) \<and>
     (\<forall>xs w. \<exists>q w'. nft_Check nft xs w = Some (q, w') \<and> (q = Ok () \<or> fails q) \<and> view w' = view w)"

lemma run_AddRules: "v c = Some rs \<Longrightarrow> run_ops (map (AddRule c) rules) v = Some (v(c \<mapsto> rs @ rules))"
  by (induction rules arbitrary: v rs) (auto simp: fun_upd_idem)

lemma nft_setup:
  assumes "nft_laws nft view" "nftv4 nftm = Some nft" "\<not> IP4Net_Empty net"
  shows "\<exists>full w'. nftm_SetupAndEnsureMasqRules nftm net empty_IP6Net l no_random w = Some (Ok (), w') \<and>
    view w' postrtgChain = Some (nft_masq_rules (IP4Net_String net) (IP4Net_String (lease_Subnet l)) IPv4Family full)"
proof -
  let ?chain = "nat_chain postrtgChain ''chain to manage traffic masquerading by flannel''"
  obtain full w1 where 1: "checkRandomfully nftm w = Some (Ok full, w1)" "view w1 = view w"
  proof -
    let ?test = "[AddChain (nat_chain masqueradeTestTable ''chain to test if masquerade random fully is supported''), FlushChain masqueradeTestTable,
      AddRule masqueradeTestTable [Word ''ip saddr'', Word ''!='', Word ''127.0.0.1'', Word ''masquerade fully-random'']]"
    obtain q w' where q: "nft_Check nft ?test w = Some (q, w')" "q = Ok () \<or> fails q" "view w' = view w"
      using assms(1) unfolding nft_laws_def by blast
    then have "checkRandomfully nftm w = Some (Ok (q = Ok ()), w')" by (cases q) (auto simp: checkRandomfully_def assms(2) io_try_apply)
    with q(3) that show ?thesis by blast
  qed
  let ?rules = "nft_masq_rules (IP4Net_String net) (IP4Net_String (lease_Subnet l)) IPv4Family (full \<and> \<not> no_random)"
  let ?ops = "[AddChain ?chain, FlushChain postrtgChain] @ map (AddRule postrtgChain) ?rules"
  have "run_ops ?ops (view w1) = Some ((view w1)(postrtgChain \<mapsto> ?rules))"
    by (auto simp: nat_chain_def run_AddRules)
  moreover obtain q w2 where "nft_Run nft ?ops w1 = Some (q, w2)"
    "case run_ops ?ops (view w1) of Some v \<Rightarrow> q = Ok () \<and> view w2 = v | None \<Rightarrow> fails q \<and> view w2 = view w1"
    using assms(1) unfolding nft_laws_def by blast
  ultimately have 2: "nft_Run nft ?ops w1 = Some (Ok (), w2)" "view w2 postrtgChain = Some ?rules" by simp_all
  have "nftm_SetupAndEnsureMasqRules nftm net empty_IP6Net l no_random w = Some (Ok (), w2)"
    using 1(1) 2(1) assms(3) by (simp add: nftm_SetupAndEnsureMasqRules_def nft_masq_def addMasqRules_def assms(2) IP6Net_Empty_def)
  with 2(2) show ?thesis by blast
qed

lemma nft_rules_decision:
  assumes "nft_match_law m" "ip4_wf net" "ip4_wf sn"
  shows "nft_masquerades m (nft_masq_rules (IP4Net_String net) (IP4Net_String sn) IPv4Family full) p \<longleftrightarrow>
    pk_mark p \<noteq> 0x4000 \<and> IP4Net_Contains net (pk_src p) \<and> \<not> IP4Net_Contains net (pk_dst p) \<and>
    \<not> IP4Net_Contains sn (pk_dst p) \<and> \<not> IP4Net_Contains multicast (pk_dst p)"
proof -
  have law: "m p (concat (map nft_words cs) @ [Word tgt]) \<longleftrightarrow> (\<forall>c \<in> set cs. nft_holds p c)" if "\<forall>c \<in> set cs. cond_ok c" for cs tgt
    using assms(1) that unfolding nft_match_law_def by blast
  have ok: "cond_ok Mark" "cond_ok (Src b net)" "cond_ok (Dst b net)" "cond_ok (Src b sn)" "cond_ok (Dst b sn)" "cond_ok (Dst b multicast)" for b
    using assms(2,3) by (simp_all add: cond_ok_def ip4_wf_def)
  note step = ok nft_words_def nft_holds_def net_holds_def multicast_String
  have m1: "m p [Word ''meta mark'', Word ''0x4000'', Word t] \<longleftrightarrow> pk_mark p = 0x4000" for t
    using law [of "[Mark]" t] by (simp add: step)
  have m2: "m p [Fam IPv4Family, Word ''saddr'', Word (IP4Net_String sn), Fam IPv4Family, Word ''daddr'', Word (IP4Net_String net), Word t] \<longleftrightarrow>
      IP4Net_Contains sn (pk_src p) \<and> IP4Net_Contains net (pk_dst p)" for t
    using law [of "[Src False sn, Dst False net]" t] by (simp add: step)
  have m3: "m p [Fam IPv4Family, Word ''saddr'', Word (IP4Net_String net), Fam IPv4Family, Word ''daddr'', Word (IP4Net_String sn), Word t] \<longleftrightarrow>
      IP4Net_Contains net (pk_src p) \<and> IP4Net_Contains sn (pk_dst p)" for t
    using law [of "[Src False net, Dst False sn]" t] by (simp add: step)
  have m4: "m p [Fam IPv4Family, Word ''saddr'', Word ''!='', Word (IP4Net_String sn), Fam IPv4Family, Word ''daddr'', Word (IP4Net_String net), Word t] \<longleftrightarrow>
      \<not> IP4Net_Contains sn (pk_src p) \<and> IP4Net_Contains net (pk_dst p)" for t
    using law [of "[Src True sn, Dst False net]" t] by (simp add: step)
  have m5: "m p [Fam IPv4Family, Word ''saddr'', Word (IP4Net_String net), Fam IPv4Family, Word ''daddr'', Word ''!='', Word ''224.0.0.0/4'', Word t] \<longleftrightarrow>
      IP4Net_Contains net (pk_src p) \<and> \<not> IP4Net_Contains multicast (pk_dst p)" for t
    using law [of "[Src False net, Dst True multicast]" t] by (simp add: step)
  have m6: "m p [Fam IPv4Family, Word ''saddr'', Word ''!='', Word (IP4Net_String net), Fam IPv4Family, Word ''daddr'', Word (IP4Net_String net), Word t] \<longleftrightarrow>
      \<not> IP4Net_Contains net (pk_src p) \<and> IP4Net_Contains net (pk_dst p)" for t
    using law [of "[Src True net, Dst False net]" t] by (simp add: step)
  show ?thesis unfolding nft_masquerades_def nft_masq_rules_def Let_def by (cases full) (auto simp: m1 m2 m3 m4 m5 m6)
qed

text \<open>
  C31. After setting up masquerading with \<open>nftables\<close> the chain masquerades exactly the unmarked
  packets that come from the cluster and leave it, multicast apart. The last rule, which is for
  packets from the host to the cluster, is never reached: the fourth rule returns for every
  destination in the cluster.
\<close>

theorem nft_masquerade_decision:
  assumes "nft_laws nft view" "nftv4 nftm = Some nft" "\<not> IP4Net_Empty net" "nft_match_law m" "ip4_wf net" "ip4_wf (lease_Subnet l)"
  shows "\<exists>rules w'. nftm_SetupAndEnsureMasqRules nftm net empty_IP6Net l no_random w = Some (Ok (), w') \<and> view w' ''postrtg'' = Some rules \<and>
    (\<forall>p. nft_masquerades m rules p \<longleftrightarrow>
       pk_mark p \<noteq> 0x4000 \<and> IP4Net_Contains net (pk_src p) \<and> \<not> IP4Net_Contains net (pk_dst p) \<and>
       \<not> IP4Net_Contains (lease_Subnet l) (pk_dst p) \<and> \<not> IP4Net_Contains multicast (pk_dst p))"
  using nft_setup [OF assms(1-3), of l no_random w] nft_rules_decision [OF assms(4-6)] by blast

fun nft_match :: "packet \<Rightarrow> nft_arg list \<Rightarrow> bool" where
  "nft_match p (Word a # b # ws) =
     (if a = ''meta mark'' then pk_mark p = 0x4000 \<and> nft_match p ws else nft_match p (b # ws))"
| "nft_match p (Fam f # Word a # Word n # ws) =
     (let ip = (if a = ''saddr'' then pk_src p else pk_dst p) in
      if n = ''!='' then (case ws of Word n' # ws' \<Rightarrow> \<not> in_net n' ip \<and> nft_match p ws' | _ \<Rightarrow> False)
      else in_net n ip \<and> nft_match p ws)"
| "nft_match p _ = True"

lemma nft_match_cond:
  assumes "cond_ok c"
  shows "nft_match p (nft_words c @ ws) \<longleftrightarrow> nft_holds p c \<and> nft_match p ws"
proof -
  have "IP4Net_String n \<noteq> ''!=''" for n using IP4Net_String_chars [of "CHR ''=''" n] by (auto simp: is_digit_def code_of_def)
  with assms show ?thesis by (cases c) (auto simp: nft_words_def nft_holds_def cond_ok_def net_holds_def in_net_String Let_def)
qed

lemma nft_match_obeys: "nft_match_law nft_match"
proof -
  have "nft_match p (concat (map nft_words cs) @ [Word tgt]) \<longleftrightarrow> (\<forall>c \<in> set cs. nft_holds p c)"
    if "\<forall>c \<in> set cs. cond_ok c" for p cs tgt
    using that
  proof (induction cs)
    case (Cons c cs)
    then show ?case using nft_match_cond [of c p "concat (map nft_words cs) @ [Word tgt]"] by simp
  qed simp
  then show ?thesis unfolding nft_match_law_def by blast
qed

definition mem_nft :: "nft_chains nft" where
  "mem_nft =
     \<lparr>nft_Run = (\<lambda>xs w. case run_ops xs w of None \<Rightarrow> Some (Err (ErrorString ''nft failed''), w) | Some v \<Rightarrow> Some (Ok (), v)),
      nft_Check = (\<lambda>xs w. case run_ops xs w of None \<Rightarrow> Some (Err (ErrorString ''nft failed''), w) | Some _ \<Rightarrow> Some (Ok (), w))\<rparr>"

lemma mem_nft_laws: "nft_laws mem_nft (\<lambda>w. w)"
  by (auto simp: nft_laws_def mem_nft_def split: option.split)

lemma nft_masquerade_decision_witness:
  "\<exists>rules w'. nftm_SetupAndEnsureMasqRules \<lparr>nftv4 = Some mem_nft, nftv6 = Some mem_nft\<rparr> (mkNet4 0x0AF40000 16) empty_IP6Net
      (lease_of_subnets (mkNet4 0x0AF40100 24) empty_IP6Net) False (\<lambda>_. None) = Some (Ok (), w') \<and> w' ''postrtg'' = Some rules \<and>
    nft_masquerades nft_match rules \<lparr>pk_src = 0x0AF40102, pk_dst = 0x08080808, pk_mark = 0\<rparr> \<and>
    \<not> nft_masquerades nft_match rules \<lparr>pk_src = 0xC0A80001, pk_dst = 0x0AF40202, pk_mark = 0\<rparr>"
proof -
  let ?l = "lease_of_subnets (mkNet4 0x0AF40100 24) empty_IP6Net" and ?m = "\<lparr>nftv4 = Some mem_nft, nftv6 = Some mem_nft\<rparr>"
  have 1: "nftv4 ?m = Some mem_nft" "\<not> IP4Net_Empty (mkNet4 0x0AF40000 16)" by (simp_all add: IP4Net_Empty_def)
  have 2: "ip4_wf (mkNet4 0x0AF40000 16)" "ip4_wf (lease_Subnet ?l)" by (simp_all add: ip4_wf_def lease_of_subnets_def)
  have 3: "lease_Subnet ?l = mkNet4 0x0AF40100 24" by (simp add: lease_of_subnets_def)
  obtain rules w' where r: "nftm_SetupAndEnsureMasqRules ?m (mkNet4 0x0AF40000 16) empty_IP6Net ?l False (\<lambda>_. None) = Some (Ok (), w')"
    "w' ''postrtg'' = Some rules"
    "\<And>p. nft_masquerades nft_match rules p \<longleftrightarrow>
       pk_mark p \<noteq> 0x4000 \<and> IP4Net_Contains (mkNet4 0x0AF40000 16) (pk_src p) \<and> \<not> IP4Net_Contains (mkNet4 0x0AF40000 16) (pk_dst p) \<and>
       \<not> IP4Net_Contains (mkNet4 0x0AF40100 24) (pk_dst p) \<and> \<not> IP4Net_Contains multicast (pk_dst p)"
    using nft_masquerade_decision [OF mem_nft_laws 1 nft_match_obeys 2, of False "\<lambda>_. None"] unfolding 3 by blast
  have "nft_masquerades nft_match rules \<lparr>pk_src = 0x0AF40102, pk_dst = 0x08080808, pk_mark = 0\<rparr>"
    "\<not> nft_masquerades nft_match rules \<lparr>pk_src = 0xC0A80001, pk_dst = 0x0AF40202, pk_mark = 0\<rparr>"
    unfolding r(3) by (simp_all add: IP4Net_Contains_def IP4Net_Mask_def go_eval)
  with r(1,2) show ?thesis by blast
qed

end
