(* ===== verification/Spec2Isabelle.thy ===== *)
theory Spec2Isabelle
  imports Etcd_Watch Kube_Leases Ext_Iface Vxlan_Tables Wireguard_Peers Packet_Decision
begin

text \<open>
  Verification of flannel, the network fabric that gives every node of a cluster a subnet of
  a common network. A node acquires a lease of a subnet from a subnet manager, which keeps
  the leases in etcd or in the annotations of Kubernetes nodes; it watches the leases of the
  other nodes; a backend programs the kernel so that traffic to a remote subnet reaches the
  node that holds it; and a traffic manager installs the rules that forward and masquerade it.

  \<^bold>\<open>The theories and the code they model.\<close>

  \<^item> \<open>Flannel_Prelude\<close>: outcomes of Go functions (\<open>Ok\<close>, \<open>Err\<close>, \<open>Panic\<close>), pointers, and shared lemmas
    on lists and words. \<open>Go_Effects\<close>: effectful code as functions of a world, where \<open>None\<close> is a
    call that does not return; loops that may not end are fixed points in the option monad.
  \<^item> \<open>Go_Strings\<close>, \<open>Go_Net\<close>, \<open>Go_Json\<close>, \<open>Go_Regexp\<close>: the parts of Go's standard library the program
    uses (strings, paths, addresses and masks, JSON decoding with its error cases, leftmost-first
    regular expressions).
  \<^item> \<open>IP4_Net\<close>, \<open>IP6_Net\<close>: \<open>pkg/ip/ipnet.go\<close> and \<open>pkg/ip/ip6net.go\<close>. An IPv4 address is a 32-bit word, an IPv6
    address an optional integer, as \<open>*big.Int\<close> is.
  \<^item> \<open>Keyed_Store\<close> (an interface and its list implementation), \<open>Lease_Watch\<close>: \<open>pkg/lease/lease.go\<close> and the
    watch loops of \<open>pkg/subnet/subnet.go\<close>. \<open>Lease_Json\<close>: the JSON form of lease attributes.
    \<open>Subnet_Config\<close>: \<open>pkg/subnet/config.go\<close>. \<open>Subnet_Key\<close>: the keys and the subnet file of \<open>pkg/subnet/subnet.go\<close>.
  \<^item> \<open>Registry_Contract\<close> (the interface \<open>Registry\<close> as a locale), \<open>Etcd_Registry\<close>, \<open>Mock_Registry\<close>, \<open>Local_Manager\<close>,
    \<open>Lease_Protocol\<close>, \<open>Etcd_Watch\<close>: \<open>pkg/subnet/etcd\<close>. The etcd client is the record \<open>etcd\<close>; what is assumed of
    it is \<open>etcd_laws\<close>. \<open>Lease_Protocol\<close> interleaves the steps of many nodes.
  \<^item> \<open>Kube_Manager\<close>, \<open>Kube_Leases\<close>: \<open>pkg/subnet/kube\<close>. The API client and the informer are the record \<open>kube\<close>, with
    \<open>kube_laws\<close>.
  \<^item> \<open>Netlink\<close>, \<open>Kernel_Memory\<close>, \<open>Link_Addresses\<close>: the kernel's netlink calls as the record \<open>netlink\<close>, a kernel kept in
    memory on which the properties are applied, and \<open>pkg/ip/iface.go\<close>.
  \<^item> \<open>Route_Network\<close>, \<open>Route_Tables\<close>: \<open>pkg/backend/manager.go\<close>, \<open>route_network.go\<close> and the backends \<open>host-gw\<close>, \<open>ipip\<close> and
    \<open>alloc\<close>.
  \<^item> \<open>Ext_Iface\<close>: \<open>pkg/ipmatch/match.go\<close>, the choice of the interface whose address the other nodes send to.
  \<^item> \<open>Hardware_Addr\<close>, \<open>Vxlan_Backend\<close>, \<open>Vxlan_Network\<close>, \<open>Vxlan_Tables\<close>: \<open>pkg/mac\<close> and \<open>pkg/backend/vxlan\<close> (\<open>vxlan.go\<close>,
    \<open>device.go\<close>, \<open>vxlan_network.go\<close>). What is assumed of the kernel's neighbour, forwarding and routing
    tables is \<open>vxlan_laws\<close>; any call may be refused.
  \<^item> \<open>Wireguard\<close>, \<open>Wireguard_Peers\<close>: \<open>pkg/backend/wireguard\<close>, over the \<open>wgctrl\<close> client as a record and \<open>wg_laws\<close>.
  \<^item> \<open>Iptables\<close>, \<open>Nftables\<close>: the two managers of \<open>pkg/trafficmngr\<close>. \<open>Iptables_Rules\<close>: the laws of the clients
    (\<open>iptables_laws\<close>) over a view of the chains and the effect of a transaction. \<open>Iptables_Memory\<close>: chains kept
    in memory, with a reader of the input of \<open>iptables-restore\<close>. \<open>Masquerade\<close>, \<open>Packet_Decision\<close>: the chains
    that are set up and what they do to packets.

  A struct is a record with the fields of the source, prefixed to keep them apart (\<open>lease_Subnet\<close>,
  \<open>vp_vxlanRoute\<close>); a method is a definition that takes the receiver and returns it when it changes
  it, prefixed by the receiver where names would clash (\<open>lw_Reset\<close>, \<open>esr_createSubnet\<close>,
  \<open>iptm_CleanUp\<close>). Log output is left out. Code outside of the repository is a parameter: a record of
  operations on an abstract world. Laws of such a record are predicates that appear as
  hypotheses, each with an instance in memory (\<open>mem_etcd\<close>, \<open>mem_kube\<close>, \<open>mem_netlink\<close>, \<open>mem_wg\<close>, \<open>mem_iptables\<close>,
  \<open>mem_nft\<close>) that satisfies them.

  \<^bold>\<open>What the lemmas show.\<close>

  \<^item> Addresses: \<open>Overlaps\<close>, \<open>Contains\<close> and \<open>ContainsCIDR\<close> decide the relations between sets of addresses, \<open>Next\<close>
    is the adjacent network modulo \<open>2^32\<close>, texts and JSON forms are read back. IPv6 comparisons go
    through the printed text, and where that is not injective they are wrong.
  \<^item> Configuration and keys: what an accepted configuration guarantees; that no text makes the
    reader panic; that keys are read back to the subnets they were made from.
  \<^item> The lease watcher refines updates of a finite map; the watch over etcd delivers every event
    once and in order across reconnections, with a bounded backoff.
  \<^item> Leases from etcd: allocation returns a free subnet or an error, and nodes that acquire
    leases in any interleaving hold disjoint subnets. The error properties show where that fails:
    dual stack, renewal after expiry, a lost race, the top of the address space.
  \<^item> Leases from Kubernetes: what a node publishes is read back by the others, lies in the
    configured network, and the event queue neither loses nor invents events.
  \<^item> The external interface that is found has an MTU and the addresses of its stack.
  \<^item> Backends: routing tables, neighbour and forwarding entries follow the leases; lost routes are
    restored; a VXLAN lease is added completely or not at all; WireGuard peers follow the leases.
  \<^item> Traffic: setting up and the periodic check leave the wanted rules in their chains in order,
    and exactly which packets the chains masquerade, with \<open>iptables\<close> and with \<open>nftables\<close>.

  \<^bold>\<open>Bounds.\<close> The JSON reader takes the length of the text as its fuel and every step consumes a
  character, so it is never exhausted on a text; the matcher of regular expressions takes the
  length of the rest of the text for each repetition, which is enough because an iteration that
  matches nothing ends it. Searches for a free subnet and watch loops are fixed points in the
  option monad, and that they return is proved where it is claimed. Goroutines appear as
  sequences of their steps: the results a watch receives, the updates of a link, the rounds of a periodic
  check are lists or single steps, and the properties hold for every such sequence. The event
  queue of \<open>Kube_Leases\<close> and the nodes of \<open>Lease_Protocol\<close> are interleaved arbitrarily.

  \<^bold>\<open>Not modelled.\<close>

  \<^item> \<open>main.go\<close> and \<open>pkg/retry\<close>, \<open>pkg/utils\<close>, \<open>pkg/version\<close>, \<open>pkg/ns\<close>: flags, signals, HTTP health checks and the wiring of
    the parts, which start processes and goroutines but compute little.
  \<^item> \<open>pkg/ip/tun.go\<close>: one ioctl. The compiler of the regular expressions given to \<open>pkg/ipmatch\<close> is an argument.
  \<^item> The backends IPsec, UDP, extension and Tencent VPC: they drive external processes (the charon
    daemon, a C proxy, user scripts) or a cloud service.
  \<^item> The Cloudflare mesh backend and its operator: an HTTP client, a QUIC tunnel and a controller over
    services and packages outside of the repository.
  \<^item> The Windows variants, which call the host compute service and PowerShell, and the
    installer of the CNI configuration, which copies a file.
  \<^item> Constructors that connect clients (\<open>newEtcdClient\<close>, \<open>NewLocalManager\<close>), and writing the subnet file.
\<close>

end
